(* ===== verification/Prelude.thy ===== *)
theory Prelude
  imports Main "HOL-Library.Word"
begin

text \<open>
  Shared vocabulary of the development: machine integers as words, results as sums, the list
  operations of Rust's iterators that the sources use (\<open>position\<close>, \<open>find\<close>,
  \<open>iter_mut().find\<close>, \<open>retain\<close>), and the contract of a transition system with its
  reachable states.  Nothing here is specific to one component.
\<close>

section \<open>Types\<close>

type_synonym u8 = "8 word"
type_synonym u16 = "16 word"
type_synonym u32 = "32 word"
type_synonym u64 = "64 word"
type_synonym bytes = "u8 list"
type_synonym ('e, 'a) result = "'e + 'a"

text \<open>Times are milliseconds on the monotonic clock; durations are milliseconds too.\<close>

type_synonym instant = nat
type_synonym duration = nat

named_theorems inv_intro \<open>operations that keep a component's invariant\<close>
named_theorems op_defs \<open>definitions of operations, for symbolic execution\<close>

section \<open>Results\<close>

definition is_ok :: "('e, 'a) result \<Rightarrow> bool" where
  "is_ok r = (case r of Inl _ \<Rightarrow> False | Inr _ \<Rightarrow> True)"

definition map_err :: "('e \<Rightarrow> 'f) \<Rightarrow> ('e, 'a) result \<Rightarrow> ('f, 'a) result" where
  "map_err f r = (case r of Inl e \<Rightarrow> Inl (f e) | Inr a \<Rightarrow> Inr a)"

fun rbind :: "('e, 'a) result \<Rightarrow> ('a \<Rightarrow> ('e, 'b) result) \<Rightarrow> ('e, 'b) result" where
  "rbind (Inl e) f = Inl e"
| "rbind (Inr a) f = f a"

lemma rbind_eq_Inr: "rbind r f = Inr x \<longleftrightarrow> (\<exists>a. r = Inr a \<and> f a = Inr x)"
  by (cases r) auto

section \<open>File operations\<close>

text \<open>The errors of \<open>std::io\<close> the sources tell apart, and the outcome of replacing a file by
  writing a temporary one beside it and renaming it into place.\<close>

datatype io_error = IoNotFound | IoOther string

datatype fs_outcome = FsOk | FsWriteErr io_error | FsRenameErr io_error

section \<open>Iterator operations on vectors\<close>

text \<open>\<open>Iterator::position\<close>: the index of the first element that satisfies the predicate.\<close>

fun position :: "('a \<Rightarrow> bool) \<Rightarrow> 'a list \<Rightarrow> nat option" where
  "position P [] = None"
| "position P (x # xs) = (if P x then Some 0 else map_option Suc (position P xs))"

text \<open>\<open>iter_mut().find(P)\<close> followed by a mutation of the element found.\<close>

fun update_first :: "('a \<Rightarrow> bool) \<Rightarrow> ('a \<Rightarrow> 'a) \<Rightarrow> 'a list \<Rightarrow> 'a list" where
  "update_first P f [] = []"
| "update_first P f (x # xs) = (if P x then f x # xs else x # update_first P f xs)"

text \<open>\<open>HashMap\<close>: an association list with distinct keys; insertion replaces.\<close>

fun hm_insert :: "'k \<Rightarrow> 'v \<Rightarrow> ('k \<times> 'v) list \<Rightarrow> ('k \<times> 'v) list" where
  "hm_insert k v [] = [(k, v)]"
| "hm_insert k v ((k', v') # m) = (if k' = k then (k, v) # m else (k', v') # hm_insert k v m)"

definition hm_remove :: "'k \<Rightarrow> ('k \<times> 'v) list \<Rightarrow> ('k \<times> 'v) list" where
  "hm_remove k m = filter (\<lambda>(k', _). k' \<noteq> k) m"

definition hm_wf :: "('k \<times> 'v) list \<Rightarrow> bool" where
  "hm_wf m = distinct (map fst m)"

subsection \<open>Laws of the iterator operations\<close>

lemma position_Some_iff:
  "position P xs = Some i \<longleftrightarrow> i < length xs \<and> P (xs ! i) \<and> (\<forall>j < i. \<not> P (xs ! j))"
proof (induction xs arbitrary: i)
  case (Cons x xs)
  show ?case
    by (cases i) (auto simp: Cons.IH less_Suc_eq_0_disj)
qed simp

lemma position_None_iff: "position P xs = None \<longleftrightarrow> \<not> list_ex P xs"
  by (induction xs) auto

lemma position_Some_ex: "position P xs = Some i \<Longrightarrow> list_ex P xs"
  using position_None_iff [of P xs] by (cases "list_ex P xs") simp_all

lemma position_lt: "position P xs = Some i \<Longrightarrow> i < length xs"
  by (simp add: position_Some_iff)

lemma position_sat: "position P xs = Some i \<Longrightarrow> P (xs ! i)"
  by (simp add: position_Some_iff)

lemma length_update_first [simp]: "length (update_first P f xs) = length xs"
  by (induction xs) auto

lemma map_update_first [simp]:
  "(\<And>x. P x \<Longrightarrow> g (f x) = g x) \<Longrightarrow> map g (update_first P f xs) = map g xs"
  by (induction xs) auto

lemma update_first_id: "\<not> list_ex P xs \<Longrightarrow> update_first P f xs = xs"
  by (induction xs) auto

lemma find_update_first:
  "(\<And>x. P x \<Longrightarrow> P (f x)) \<Longrightarrow> List.find P (update_first P f xs) = map_option f (List.find P xs)"
  by (induction xs) auto

lemma find_Some_imp: "List.find P xs = Some x \<Longrightarrow> x \<in> set xs \<and> P x"
  by (auto simp: find_Some_iff)

lemma find_eq_position:
  "List.find P xs = map_option (\<lambda>i. xs ! i) (position P xs)"
  by (induction xs) (auto simp: option.map_comp comp_def)

lemma list_ex_find: "list_ex P xs \<longleftrightarrow> (\<exists>x. List.find P xs = Some x)"
  by (induction xs) auto

lemma find_append:
  "List.find P (xs @ ys) = (case List.find P xs of Some x \<Rightarrow> Some x | None \<Rightarrow> List.find P ys)"
  by (induction xs) auto

lemma find_cong_key:
  "(\<And>x. x \<in> set xs \<Longrightarrow> P x = Q x) \<Longrightarrow> List.find P xs = List.find Q xs"
  by (induction xs) auto

lemma find_None_list_ex: "List.find P xs = None \<longleftrightarrow> \<not> list_ex P xs"
  by (induction xs) auto

lemma distinct_map_filter_key: "distinct (map f xs) \<Longrightarrow> distinct (map f (filter P xs))"
  by (rule distinct_map_filter)

lemma distinct_key_unique:
  "distinct (map f xs) \<Longrightarrow> x \<in> set xs \<Longrightarrow> y \<in> set xs \<Longrightarrow> f x = f y \<Longrightarrow> x = y"
  by (auto simp: distinct_map inj_on_def)

lemma find_distinct_key:
  "distinct (map f xs) \<Longrightarrow> x \<in> set xs \<Longrightarrow> List.find (\<lambda>y. f y = f x) xs = Some x"
  by (induction xs) auto

lemma length_filter_less_iff: "length (filter P xs) \<noteq> length xs \<longleftrightarrow> list_ex (\<lambda>x. \<not> P x) xs"
proof (induction xs)
  case (Cons x xs)
  have "length (filter P xs) \<le> length xs" by simp
  then have "length (filter P xs) \<noteq> Suc (length xs)" by linarith
  with Cons show ?case by auto
qed simp

subsection \<open>Laws of the hash map\<close>

lemma map_of_hm_insert [simp]: "map_of (hm_insert k v m) = (map_of m)(k \<mapsto> v)"
  by (induction k v m rule: hm_insert.induct) auto

lemma map_of_hm_remove [simp]: "map_of (hm_remove k m) = (map_of m)(k := None)"
  unfolding hm_remove_def by (induction m) auto

lemma keys_hm_insert: "fst ` set (hm_insert k v m) = insert k (fst ` set m)"
  by (induction k v m rule: hm_insert.induct) auto

lemma hm_wf_insert [inv_intro]: "hm_wf m \<Longrightarrow> hm_wf (hm_insert k v m)"
proof (induction k v m rule: hm_insert.induct)
  case (2 k v k' v' m)
  then show ?case
    using keys_hm_insert [of k v m] by (auto simp: hm_wf_def)
qed (simp add: hm_wf_def)

lemma hm_wf_remove [inv_intro]: "hm_wf m \<Longrightarrow> hm_wf (hm_remove k m)"
  unfolding hm_wf_def hm_remove_def by (rule distinct_map_filter)

lemma hm_wf_Nil [simp]: "hm_wf []"
  by (simp add: hm_wf_def)

lemma length_hm_insert_new:
  "map_of m k = None \<Longrightarrow> length (hm_insert k v m) = Suc (length m)"
  by (induction k v m rule: hm_insert.induct) (auto split: if_splits)

lemma length_hm_insert_old:
  "map_of m k = Some w \<Longrightarrow> length (hm_insert k v m) = length m"
  by (induction k v m rule: hm_insert.induct) (auto split: if_splits)

lemma length_hm_insert_le: "length (hm_insert k v m) \<le> Suc (length m)"
  by (induction k v m rule: hm_insert.induct) auto

lemma length_hm_remove_le: "length (hm_remove k m) \<le> length m"
  by (simp add: hm_remove_def)

section \<open>Bytes\<close>

lemma unat_u8_word_of_nat: "unat (word_of_nat n :: u8) = n mod 256"
  by (simp add: unat_of_nat)

section \<open>Message framing\<close>

text \<open>
  The contract between a framing layer and the protocols on top of it: an encoder for single
  messages and a decoder that takes one message off the front of the bytes and leaves the rest.
  A client reads messages one after the other.
\<close>

fun dec_many :: "('b \<Rightarrow> ('m \<times> 'b) option) \<Rightarrow> nat \<Rightarrow> 'b \<Rightarrow> ('m list \<times> 'b) option" where
  "dec_many dec 0 b = Some ([], b)"
| "dec_many dec (Suc n) b =
     (case dec b of
        None \<Rightarrow> None
      | Some (m, b') \<Rightarrow> map_option (\<lambda>(ms, r). (m # ms, r)) (dec_many dec n b'))"

locale framing =
  fixes enc :: "'m \<Rightarrow> 'a list option"
    and dec :: "'a list \<Rightarrow> ('m \<times> 'a list) option"
  assumes dec_enc: "enc m = Some b \<Longrightarrow> dec (b @ rest) = Some (m, rest)"
    and dec_only_enc: "dec b = Some (m, rest) \<Longrightarrow> \<exists>p. enc m = Some p \<and> b = p @ rest"
begin

lemma dec_many_encoded:
  "list_all2 (\<lambda>m b. enc m = Some b) ms bs \<Longrightarrow>
     dec_many dec (length ms) (concat bs @ rest) = Some (ms, rest)"
proof (induction rule: list_all2_induct)
  case (Cons m ms b bs)
  then show ?case by (simp add: dec_enc)
qed simp

lemma enc_prefix_free:
  assumes "enc m = Some b" and "enc m' = Some b'" and "b @ r = b' @ r'"
  shows "m = m' \<and> r = r'"
  using dec_enc [OF assms(1), of r] dec_enc [OF assms(2), of r'] assms(3) by simp

end

section \<open>Printed values\<close>

text \<open>
  The contract of a printer and its parser: what is printed of a valid value parses to that value.
  Then no two valid values print alike, so the text can stand for the value in files, on the screen and
  on the wire.
\<close>

locale text_codec =
  fixes print :: "'a \<Rightarrow> 'b"
    and parse :: "'b \<Rightarrow> 'a option"
    and valid :: "'a \<Rightarrow> bool"
  assumes parse_print: "valid x \<Longrightarrow> parse (print x) = Some x"
begin

lemma print_eq_iff: "valid x \<Longrightarrow> valid y \<Longrightarrow> print x = print y \<longleftrightarrow> x = y"
  using parse_print by (metis option.inject)

lemma distinct_print: "list_all valid xs \<Longrightarrow> distinct (map print xs) = distinct xs"
  by (induction xs) (auto simp: list_all_iff print_eq_iff)

lemma parse_all: "list_all valid xs \<Longrightarrow> map parse (map print xs) = map Some xs"
  by (induction xs) (simp_all add: parse_print)

end

section \<open>Transition systems\<close>

text \<open>
  The contract every stateful component with a scheduler meets: an initial-state predicate, a
  step relation, and an invariant that the initial states have and the steps keep.
\<close>

inductive reaches :: "('s \<Rightarrow> 's \<Rightarrow> bool) \<Rightarrow> 's \<Rightarrow> 's \<Rightarrow> bool" for step where
  stay: "reaches step s s"
| move: "reaches step s t \<Longrightarrow> step t u \<Longrightarrow> reaches step s u"

locale transition_system =
  fixes init :: "'s \<Rightarrow> bool"
    and step :: "'s \<Rightarrow> 's \<Rightarrow> bool"
    and inv :: "'s \<Rightarrow> bool"
  assumes inv_init: "init s \<Longrightarrow> inv s"
    and inv_step: "inv s \<Longrightarrow> step s t \<Longrightarrow> inv t"
begin

lemma inv_reaches: "reaches step s t \<Longrightarrow> inv s \<Longrightarrow> inv t"
  by (induction rule: reaches.induct) (auto intro: inv_step)

lemma inv_reachable: "init s \<Longrightarrow> reaches step s t \<Longrightarrow> inv t"
  using inv_init inv_reaches by blast

end

lemma reaches_step: "step s t \<Longrightarrow> reaches step s t"
  by (blast intro: reaches.intros)

lemma reaches_trans: "reaches step t u \<Longrightarrow> reaches step s t \<Longrightarrow> reaches step s u"
  by (induction rule: reaches.induct) (auto intro: reaches.intros)

lemma reaches_chain [trans]:
  "reaches step a b \<Longrightarrow> reaches step b c \<Longrightarrow> reaches step a c"
  by (rule reaches_trans)

end
