(* ===== verification/Rust_Str.thy ===== *)
theory Rust_Str
  imports Prelude
begin

text \<open>
  The parts of Rust's string library the sources use.  A Rust \<open>String\<close> is modelled by its
  UTF-8 bytes (HOL's \<open>string\<close>), so \<open>length\<close> is \<open>str::len\<close>.  Operations
  on characters are written on the byte level; because UTF-8 is self-synchronising, a byte
  pattern of a whole character only matches at a character boundary of a well-formed string.
\<close>

section \<open>Characters\<close>

abbreviation code_of :: "char \<Rightarrow> nat" where
  "code_of \<equiv> of_char"

definition is_ascii_digit :: "char \<Rightarrow> bool" where
  "is_ascii_digit c = (48 \<le> code_of c \<and> code_of c \<le> 57)"

definition is_ascii_alphabetic :: "char \<Rightarrow> bool" where
  "is_ascii_alphabetic c =
     (65 \<le> code_of c \<and> code_of c \<le> 90 \<or> 97 \<le> code_of c \<and> code_of c \<le> 122)"

definition is_ascii_hexdigit :: "char \<Rightarrow> bool" where
  "is_ascii_hexdigit c =
     (is_ascii_digit c \<or> 65 \<le> code_of c \<and> code_of c \<le> 70 \<or> 97 \<le> code_of c \<and> code_of c \<le> 102)"

definition lower_char :: "char \<Rightarrow> char" where
  "lower_char c = (if 65 \<le> code_of c \<and> code_of c \<le> 90 then char_of (code_of c + 32) else c)"

definition to_ascii_lowercase :: "string \<Rightarrow> string" where
  "to_ascii_lowercase s = map lower_char s"

definition eq_ignore_ascii_case :: "string \<Rightarrow> string \<Rightarrow> bool" where
  "eq_ignore_ascii_case a b = (to_ascii_lowercase a = to_ascii_lowercase b)"

text \<open>Whether the string is well-formed UTF-8 (\<open>String::from_utf8\<close>).\<close>

definition utf8_cont :: "nat \<Rightarrow> bool" where
  "utf8_cont b = (128 \<le> b \<and> b \<le> 191)"

fun utf8_valid :: "nat list \<Rightarrow> bool" where
  "utf8_valid [] = True"
| "utf8_valid (a # r) =
     (if a < 128 then utf8_valid r
      else if 194 \<le> a \<and> a \<le> 223 then
        (case r of b # r' \<Rightarrow> utf8_cont b \<and> utf8_valid r' | _ \<Rightarrow> False)
      else if 224 \<le> a \<and> a \<le> 239 then
        (case r of b # c # r' \<Rightarrow>
            (if a = 224 then 160 \<le> b \<and> b \<le> 191
             else if a = 237 then 128 \<le> b \<and> b \<le> 159 else utf8_cont b)
            \<and> utf8_cont c \<and> utf8_valid r' | _ \<Rightarrow> False)
      else if 240 \<le> a \<and> a \<le> 244 then
        (case r of b # c # d # r' \<Rightarrow>
            (if a = 240 then 144 \<le> b \<and> b \<le> 191
             else if a = 244 then 128 \<le> b \<and> b \<le> 143 else utf8_cont b)
            \<and> utf8_cont c \<and> utf8_cont d \<and> utf8_valid r' | _ \<Rightarrow> False)
      else False)"

text \<open>The number of characters of a UTF-8 string: its bytes less the continuation bytes.\<close>

definition char_count :: "string \<Rightarrow> nat" where
  "char_count s = length (filter (\<lambda>c. \<not> utf8_cont (code_of c)) s)"

section \<open>White space\<close>

text \<open>
  The byte length of the white-space character (\<open>char::is_whitespace\<close>, the Unicode property
  White\_Space) at the start of the string; 0 if there is none.
\<close>

definition ws_len :: "string \<Rightarrow> nat" where
  "ws_len s = (case map code_of (take 3 s) of
       [] \<Rightarrow> 0
     | a # r \<Rightarrow>
        if 9 \<le> a \<and> a \<le> 13 \<or> a = 32 then 1
        else if a = 194 \<and> (case r of b # _ \<Rightarrow> b = 133 \<or> b = 160 | _ \<Rightarrow> False) then 2
        else if a = 225 \<and> r = [154, 128] then 3
        else if a = 226 \<and> (case r of [b, c] \<Rightarrow>
               b = 128 \<and> (128 \<le> c \<and> c \<le> 138 \<or> c = 168 \<or> c = 169 \<or> c = 175) \<or> b = 129 \<and> c = 159
             | _ \<Rightarrow> False) then 3
        else if a = 227 \<and> r = [128, 128] then 3
        else 0)"

fun has_whitespace :: "string \<Rightarrow> bool" where
  "has_whitespace [] = False"
| "has_whitespace (c # cs) = (0 < ws_len (c # cs) \<or> has_whitespace cs)"

lemma ws_len_le: "ws_len s \<le> length s"
proof (cases s)
  case (Cons c cs)
  then show ?thesis
    by (cases cs rule: list.exhaust; cases "tl cs")
       (auto simp: ws_len_def split: list.splits if_splits)
qed (simp add: ws_len_def)

function trim_start :: "string \<Rightarrow> string" where
  "trim_start s = (if ws_len s = 0 then s else trim_start (drop (ws_len s) s))"
  by pat_completeness auto
termination
proof (relation "measure length")
  fix s :: string
  assume "ws_len s \<noteq> 0"
  then show "(drop (ws_len s) s, s) \<in> measure length"
    using ws_len_le [of s] by simp
qed simp

declare trim_start.simps [simp del]

text \<open>The suffix that is white space only is dropped: the first position from which nothing
  else follows.\<close>

fun trim_end :: "string \<Rightarrow> string" where
  "trim_end [] = []"
| "trim_end (c # cs) = (if trim_start (c # cs) = [] then [] else c # trim_end cs)"

definition trim :: "string \<Rightarrow> string" where
  "trim s = trim_end (trim_start s)"

section \<open>Splitting and joining\<close>

text \<open>\<open>str::split\<close> on a character predicate: always at least one piece.\<close>

fun split_on :: "(char \<Rightarrow> bool) \<Rightarrow> string \<Rightarrow> string list" where
  "split_on P [] = [[]]"
| "split_on P (c # cs) =
     (if P c then [] # split_on P cs
      else (case split_on P cs of w # ws \<Rightarrow> (c # w) # ws | [] \<Rightarrow> [[c]]))"

fun str_join :: "string \<Rightarrow> string list \<Rightarrow> string" where
  "str_join sep [] = []"
| "str_join sep [w] = w"
| "str_join sep (w # ws) = w @ sep @ str_join sep ws"

text \<open>\<open>rsplit_once(c)\<close>: the parts before and after the last occurrence.\<close>

fun rsplit_once :: "char \<Rightarrow> string \<Rightarrow> (string \<times> string) option" where
  "rsplit_once d [] = None"
| "rsplit_once d (c # cs) =
     (case rsplit_once d cs of
        Some (a, b) \<Rightarrow> Some (c # a, b)
      | None \<Rightarrow> if c = d then Some ([], cs) else None)"

section \<open>Numbers\<close>

definition digit_val :: "char \<Rightarrow> nat option" where
  "digit_val c =
     (let n = code_of c in
      if 48 \<le> n \<and> n \<le> 57 then Some (n - 48)
      else if 97 \<le> n \<and> n \<le> 122 then Some (n - 87)
      else if 65 \<le> n \<and> n \<le> 90 then Some (n - 55)
      else None)"

fun digits_val :: "nat \<Rightarrow> nat \<Rightarrow> string \<Rightarrow> nat option" where
  "digits_val radix acc [] = Some acc"
| "digits_val radix acc (c # cs) =
     (case digit_val c of
        Some d \<Rightarrow> if d < radix then digits_val radix (acc * radix + d) cs else None
      | None \<Rightarrow> None)"

text \<open>
  \<open>from_str_radix\<close> of an unsigned type with maximum \<open>maxv\<close> (\<open>str::parse\<close> is radix
  10): one leading \<open>+\<close> is accepted, leading zeros are, the empty string and a lone sign are not.
\<close>

definition from_str_radix :: "nat \<Rightarrow> nat \<Rightarrow> string \<Rightarrow> nat option" where
  "from_str_radix maxv radix s =
     (let ds = (case s of c # cs \<Rightarrow> if c = CHR ''+'' then cs else s | [] \<Rightarrow> [])
      in if ds = [] then None
         else (case digits_val radix 0 ds of
                 Some n \<Rightarrow> if n \<le> maxv then Some n else None
               | None \<Rightarrow> None))"

definition parse_u16 :: "string \<Rightarrow> nat option" where
  "parse_u16 s = from_str_radix 65535 10 s"

text \<open>Decimal rendering (\<open>Display\<close> of the unsigned types).\<close>

fun show_nat :: "nat \<Rightarrow> string" where
  "show_nat n = (if n < 10 then [char_of (48 + n)]
                 else show_nat (n div 10) @ [char_of (48 + n mod 10)])"

declare show_nat.simps [simp del]

text \<open>\<open>{b:02x}\<close>.\<close>

definition hex_digit :: "nat \<Rightarrow> char" where
  "hex_digit n = (if n < 10 then char_of (48 + n) else char_of (87 + n))"

definition hex_byte :: "u8 \<Rightarrow> string" where
  "hex_byte b = [hex_digit (unat b div 16), hex_digit (unat b mod 16)]"

section \<open>Laws\<close>

lemma split_on_ne [simp]: "split_on P s \<noteq> []"
  by (induction s) (auto split: list.splits)

lemma split_on_pieces: "w \<in> set (split_on P s) \<Longrightarrow> c \<in> set w \<Longrightarrow> \<not> P c"
proof (induction s arbitrary: w)
  case (Cons d s)
  then show ?case by (fastforce split: list.splits if_splits)
qed simp

lemma split_on_clean: "\<forall>c \<in> set w. \<not> P c \<Longrightarrow> split_on P w = [w]"
  by (induction w) auto

lemma split_on_append:
  "\<forall>c \<in> set w. \<not> P c \<Longrightarrow> P d \<Longrightarrow> split_on P (w @ d # s) = w # split_on P s"
  by (induction w) auto

lemma split_on_join:
  assumes "ws \<noteq> []" and "\<forall>w \<in> set ws. \<forall>c \<in> set w. \<not> P c" and "P d"
  shows "split_on P (str_join [d] ws) = ws"
  using assms
proof (induction "[d]" ws rule: str_join.induct)
  case (3 w v va)
  then show ?case by (simp add: split_on_append)
qed (auto simp: split_on_clean)

lemma join_split: "str_join [d] (split_on (\<lambda>c. c = d) s) = s"
proof (induction s)
  case (Cons c s)
  obtain w ws where sp: "split_on (\<lambda>c. c = d) s = w # ws"
    by (cases "split_on (\<lambda>c. c = d) s") auto
  show ?case
  proof (cases ws)
    case Nil
    with Cons sp show ?thesis by auto
  next
    case (Cons a list)
    with Cons.IH sp show ?thesis by auto
  qed
qed simp

lemma rsplit_once_None_iff: "rsplit_once d s = None \<longleftrightarrow> d \<notin> set s"
  by (induction s) (auto split: option.splits)

lemma rsplit_onceD: "rsplit_once d s = Some (a, b) \<Longrightarrow> s = a @ d # b \<and> d \<notin> set b"
  by (induction s arbitrary: a) (auto simp: rsplit_once_None_iff split: option.splits if_splits)

lemma rsplit_onceI: "d \<notin> set b \<Longrightarrow> rsplit_once d (a @ d # b) = Some (a, b)"
proof (induction a)
  case Nil
  then have "rsplit_once d b = None" by (simp add: rsplit_once_None_iff)
  then show ?case by simp
qed simp

lemma rsplit_once_Some_iff:
  "rsplit_once d s = Some (a, b) \<longleftrightarrow> s = a @ d # b \<and> d \<notin> set b"
  using rsplit_onceD rsplit_onceI by blast

lemma lower_char_idem [simp]: "lower_char (lower_char c) = lower_char c"
  by (auto simp: lower_char_def)

lemma to_ascii_lowercase_idem [simp]:
  "to_ascii_lowercase (to_ascii_lowercase s) = to_ascii_lowercase s"
  by (simp add: to_ascii_lowercase_def)

lemma length_to_ascii_lowercase [simp]: "length (to_ascii_lowercase s) = length s"
  by (simp add: to_ascii_lowercase_def)

lemma eq_ignore_ascii_case_refl [simp]: "eq_ignore_ascii_case s s"
  by (simp add: eq_ignore_ascii_case_def)

lemma eq_ignore_ascii_case_sym: "eq_ignore_ascii_case a b \<Longrightarrow> eq_ignore_ascii_case b a"
  by (simp add: eq_ignore_ascii_case_def)

lemma eq_ignore_ascii_case_trans:
  "eq_ignore_ascii_case a b \<Longrightarrow> eq_ignore_ascii_case b c \<Longrightarrow> eq_ignore_ascii_case a c"
  by (simp add: eq_ignore_ascii_case_def)

subsection \<open>Numerals\<close>

lemma code_of_digit: "n < 10 \<Longrightarrow> code_of (char_of (48 + n) :: char) = 48 + n"
  by simp

lemma digit_val_dec: "n < 10 \<Longrightarrow> digit_val (char_of (48 + n)) = Some n"
  by (simp add: digit_val_def code_of_digit)

lemma digits_val_append:
  "digits_val r acc (xs @ ys) =
     (case digits_val r acc xs of Some a \<Rightarrow> digits_val r a ys | None \<Rightarrow> None)"
  by (induction xs arbitrary: acc) (auto split: option.splits)

lemma digits_val_show_nat: "digits_val 10 0 (show_nat n) = Some n"
proof (induction n rule: show_nat.induct)
  case (1 n)
  show ?case
  proof (cases "n < 10")
    case True
    then show ?thesis by (simp add: show_nat.simps [of n] digit_val_dec)
  next
    case False
    then show ?thesis
      using 1 by (simp add: show_nat.simps [of n] digits_val_append digit_val_dec)
  qed
qed

lemma show_nat_ne [simp]: "show_nat n \<noteq> []"
  by (simp add: show_nat.simps [of n])

lemma show_nat_digits: "c \<in> set (show_nat n) \<Longrightarrow> is_ascii_digit c"
proof (induction n rule: show_nat.induct)
  case (1 n)
  show ?case
  proof (cases "n < 10")
    case True
    with 1 show ?thesis by (simp add: show_nat.simps [of n] is_ascii_digit_def)
  next
    case False
    with 1 show ?thesis by (auto simp: show_nat.simps [of n] is_ascii_digit_def)
  qed
qed

lemma parse_show_u16: "n \<le> 65535 \<Longrightarrow> parse_u16 (show_nat n) = Some n"
proof -
  assume n: "n \<le> 65535"
  have "hd (show_nat n) \<noteq> CHR ''+''"
    using show_nat_digits [of "hd (show_nat n)" n] by (auto simp: is_ascii_digit_def)
  then have "(case show_nat n of [] \<Rightarrow> [] | c # cs \<Rightarrow> if c = CHR ''+'' then cs else show_nat n)
      = show_nat n"
    by (cases "show_nat n") auto
  with n show ?thesis
    by (simp add: parse_u16_def from_str_radix_def digits_val_show_nat)
qed

lemma hex_digit_val: "n < 16 \<Longrightarrow> digit_val (hex_digit n) = Some n"
  by (simp add: hex_digit_def digit_val_def)

lemma hex_digit_is_hex: "n < 16 \<Longrightarrow> is_ascii_hexdigit (hex_digit n)"
  by (simp add: hex_digit_def is_ascii_hexdigit_def is_ascii_digit_def)

lemma hex_digit_lower: "n < 16 \<Longrightarrow> lower_char (hex_digit n) = hex_digit n"
  by (simp add: hex_digit_def lower_char_def)

lemma unat_u8_lt: "unat (b :: u8) < 256"
  using unsigned_less [of b] by simp

lemma unat_u8_div: "unat (b :: u8) div 16 < 16"
proof -
  have "unat b < 256" by (rule unat_u8_lt)
  then show ?thesis by (simp add: less_mult_imp_div_less)
qed

lemma hex_byte_hex: "c \<in> set (hex_byte b) \<Longrightarrow> is_ascii_hexdigit c"
  using hex_digit_is_hex [OF unat_u8_div [of b]] hex_digit_is_hex [of "unat b mod 16"]
  by (auto simp: hex_byte_def)

lemma hexdigit_no_space: "is_ascii_hexdigit c \<Longrightarrow> c \<noteq> CHR '' ''"
  by (auto simp: is_ascii_hexdigit_def is_ascii_digit_def)

lemma hex_byte_parse: "from_str_radix 255 16 (hex_byte b) = Some (unat b)"
proof -
  have lt: "unat b < 256" by (rule unat_u8_lt)
  have "hex_digit (unat b div 16) \<noteq> CHR ''+''"
    using hex_digit_is_hex [OF unat_u8_div [of b]]
    by (auto simp: is_ascii_hexdigit_def is_ascii_digit_def)
  with lt show ?thesis
    by (simp add: hex_byte_def from_str_radix_def Let_def hex_digit_val unat_u8_div)
qed

end
