(* ===== verification/Ipc_Proto.thy ===== *)
theory Ipc_Proto
  imports Rust_Str
begin

text \<open>
  The admin protocol's vocabulary, \<open>tmite-proto/src/ipc.rs\<close>: envelope, error codes, methods,
  parameters and results.  A JSON value stays abstract (the type variable \<open>'v\<close>): reading one
  from text is \<open>serde_json\<close>'s, an argument of \<open>parse_request\<close>.
\<close>

section \<open>Envelope\<close>

record 'v request =
  rq_id :: u64
  rq_method :: string
  rq_params :: 'v

datatype error_code =
    BadRequest | CNameTaken | NotFound | InviteCap | InviteExpired | PeerHasRules | Internal

record error_body =
  eb_code :: error_code
  eb_message :: string

record 'v reply =
  rp_id :: u64
  rp_result :: "'v option"
  rp_error :: "error_body option"
  rp_event :: "string option"
  rp_data :: "'v option"

definition reply_result :: "u64 \<Rightarrow> 'v \<Rightarrow> 'v reply" where
  "reply_result rid v =
     \<lparr>rp_id = rid, rp_result = Some v, rp_error = None, rp_event = None, rp_data = None\<rparr>"

definition reply_error :: "u64 \<Rightarrow> error_code \<Rightarrow> string \<Rightarrow> 'v reply" where
  "reply_error rid code message =
     \<lparr>rp_id = rid, rp_result = None, rp_error = Some \<lparr>eb_code = code, eb_message = message\<rparr>,
      rp_event = None, rp_data = None\<rparr>"

definition reply_event :: "u64 \<Rightarrow> string \<Rightarrow> 'v \<Rightarrow> 'v reply" where
  "reply_event rid event data =
     \<lparr>rp_id = rid, rp_result = None, rp_error = None, rp_event = Some event, rp_data = Some data\<rparr>"

fun show_error_code :: "error_code \<Rightarrow> string" where
  "show_error_code BadRequest = ''bad_request''"
| "show_error_code CNameTaken = ''name_taken''"
| "show_error_code NotFound = ''not_found''"
| "show_error_code InviteCap = ''invite_cap''"
| "show_error_code InviteExpired = ''invite_expired''"
| "show_error_code PeerHasRules = ''peer_has_rules''"
| "show_error_code Internal = ''internal''"

section \<open>Method parameters and results\<close>

record invite_params =
  ip_name :: string
  ip_ttl :: "u64 option"

record code_event_data =
  ce_invite_id :: string
  ce_code :: string
  ce_name :: string
  ce_ttl_secs :: nat

record pair_request_event_data =
  pre_invite_id :: string
  pre_node_id :: string

datatype invite_result = Paired string | Rejected | InvExpired

record decide_params =
  dp_invite_id :: string
  dp_accept :: bool

record allow_params =
  ap_peer :: string
  ap_target :: string

record allow_result =
  ar_rule_index :: nat

record revoke_params =
  rv_peer :: string
  rv_target :: string

record revoke_result =
  rr_removed :: bool

record peer_info =
  pi_name :: string
  pi_node_id :: string
  pi_paired_at :: string
  pi_last_seen :: string

record rule_info =
  ri_peer :: string
  ri_target :: string
  ri_created_at :: string

record invite_info =
  ii_invite_id :: string
  ii_name :: string

record ls_result =
  ls_peers :: "peer_info list"
  ls_rules :: "rule_info list"
  ls_invites :: "invite_info list"

record rm_params =
  rm_peer :: string
  rm_force :: bool

record rm_result =
  rmr_removed :: bool

record status_result =
  sr_version :: string
  sr_node_id :: string
  sr_uptime_secs :: nat
  sr_peers :: nat
  sr_rules :: nat
  sr_invites :: nat

record stop_result =
  sp_stopping :: bool

record ntfy_enable_params =
  ne_server :: "string option"

record ntfy_enable_result =
  nr_topic :: string
  nr_server_url :: string

record ntfy_disable_result =
  nd_removed :: bool

record ntfy_status_result =
  ns_enabled :: bool
  ns_topic :: "string option"
  ns_server_url :: "string option"

record ntfy_test_params =
  nt_message :: "string option"

record ntfy_test_result =
  ntr_sent :: bool

datatype path_kind = Direct | Relay

record path_info =
  pa_kind :: path_kind
  pa_addr :: "string option"
  pa_selected :: bool
  pa_rtt_ms :: "nat option"

record forward_info =
  fi_local :: string
  fi_target :: string
  fi_live :: nat

record session_info =
  si_connected_secs :: nat
  si_forwards :: "forward_info list"
  si_paths :: "path_info list"

record peer_session_info =
  psi_name :: string
  psi_node_id :: string
  psi_session :: "session_info option"

record sessions_result =
  ssr_peers :: "peer_session_info list"

section \<open>Methods\<close>

datatype ipc_method =
    PeerInvite | PeerInviteDecide | PeerAllow | PeerRevoke | PeerLs | PeerRm
  | DaemonStatus | DaemonSessions | DaemonStop
  | NtfyEnable | NtfyDisable | NtfyStatus | NtfyTest

fun as_str :: "ipc_method \<Rightarrow> string" where
  "as_str PeerInvite = ''peer.invite''"
| "as_str PeerInviteDecide = ''peer.invite.decide''"
| "as_str PeerAllow = ''peer.allow''"
| "as_str PeerRevoke = ''peer.revoke''"
| "as_str PeerLs = ''peer.ls''"
| "as_str PeerRm = ''peer.rm''"
| "as_str DaemonStatus = ''daemon.status''"
| "as_str DaemonSessions = ''daemon.sessions''"
| "as_str DaemonStop = ''daemon.stop''"
| "as_str NtfyEnable = ''ntfy.enable''"
| "as_str NtfyDisable = ''ntfy.disable''"
| "as_str NtfyStatus = ''ntfy.status''"
| "as_str NtfyTest = ''ntfy.test''"

definition method_parse :: "string \<Rightarrow> ipc_method option" where
  "method_parse s =
     (if s = ''peer.invite'' then Some PeerInvite
      else if s = ''peer.invite.decide'' then Some PeerInviteDecide
      else if s = ''peer.allow'' then Some PeerAllow
      else if s = ''peer.revoke'' then Some PeerRevoke
      else if s = ''peer.ls'' then Some PeerLs
      else if s = ''peer.rm'' then Some PeerRm
      else if s = ''daemon.status'' then Some DaemonStatus
      else if s = ''daemon.sessions'' then Some DaemonSessions
      else if s = ''daemon.stop'' then Some DaemonStop
      else if s = ''ntfy.enable'' then Some NtfyEnable
      else if s = ''ntfy.disable'' then Some NtfyDisable
      else if s = ''ntfy.status'' then Some NtfyStatus
      else if s = ''ntfy.test'' then Some NtfyTest
      else None)"

definition parse_request ::
  "(string \<Rightarrow> (string, 'v request) result) \<Rightarrow> string \<Rightarrow> (string, 'v request) result" where
  "parse_request from_str line =
     (case from_str line of
        Inl e \<Rightarrow> Inl e
      | Inr req \<Rightarrow>
          (case method_parse (rq_method req) of
             None \<Rightarrow> Inl (''unknown method '' @ rq_method req)
           | Some _ \<Rightarrow> Inr req))"

section \<open>Properties\<close>

lemma method_parse_as_str [simp]: "method_parse (as_str m) = Some m"
  by (cases m) (simp_all add: method_parse_def)

interpretation method_name: text_codec as_str method_parse "\<lambda>_. True"
  by unfold_locales simp

text \<open>A method name parses to a method exactly when it is that method's name: the names are
  pairwise distinct, every method is reachable by its name and nothing else is accepted.\<close>

lemma method_parse_iff: "method_parse s = Some m \<longleftrightarrow> s = as_str m"
proof
  assume "method_parse s = Some m"
  then show "s = as_str m"
    by (auto simp: method_parse_def split: if_splits)
qed simp

text \<open>Every request that the parser lets through names a method, so dispatch never meets an
  unknown one.\<close>

lemma parse_request_method:
  "parse_request from_str line = Inr req \<Longrightarrow> \<exists>m. method_parse (rq_method req) = Some m"
  by (auto simp: parse_request_def split: sum.splits option.splits)

end
