(* ===== verification/Fsio.thy ===== *)
theory Fsio
  imports Rust_Str
begin

text \<open>
  Files, \<open>tmite-core/src/fsio.rs\<close>: the secret key file, the socket paths an IPC client tries,
  and the client's registry of paired servers (\<open>servers.toml\<close>).  A path is its string, the
  contents of a file are its bytes, and what the file system answers is an argument.  A secret key
  is its 32 bytes.
\<close>

section \<open>Errors and hex\<close>

datatype fs_error =
    FsIo io_error
  | FsToml string
  | FsTomlSer string
  | BadKeypair
  | NoHome
  | NameInUse string

definition hex :: "bytes \<Rightarrow> string" where
  "hex bs = concat (map hex_byte bs)"

section \<open>Paths\<close>

text \<open>\<open>Path::join\<close> with a relative component.\<close>

definition path_join :: "string \<Rightarrow> string \<Rightarrow> string" where
  "path_join a b = (if a = [] then b else if last a = CHR ''/'' then a @ b else a @ ''/'' @ b)"

definition default_client_data_dir :: "string option \<Rightarrow> (fs_error, string) result" where
  "default_client_data_dir data_dir =
     (case data_dir of Some dir \<Rightarrow> Inr (path_join dir ''tmite'') | None \<Rightarrow> Inl NoHome)"

definition runtime_base :: "string option \<Rightarrow> string option" where
  "runtime_base runtime_dir = map_option (\<lambda>dir. path_join dir ''tmite'') runtime_dir"

definition default_socket_path :: "string option \<Rightarrow> string" where
  "default_socket_path runtime_dir =
     path_join (case runtime_base runtime_dir of Some b \<Rightarrow> b | None \<Rightarrow> ''/run/tmite'') ''daemon.sock''"

definition candidate_socket_paths_with :: "string option \<Rightarrow> string option \<Rightarrow> string list" where
  "candidate_socket_paths_with explicit runtime =
     (case explicit of
        Some path \<Rightarrow> [path]
      | None \<Rightarrow>
          (case runtime of Some r \<Rightarrow> [path_join r ''daemon.sock''] | None \<Rightarrow> [])
          @ [path_join ''/run/tmite'' ''daemon.sock''])"

definition candidate_socket_paths :: "string option \<Rightarrow> string option \<Rightarrow> string list" where
  "candidate_socket_paths runtime_dir explicit =
     candidate_socket_paths_with explicit (runtime_base runtime_dir)"

section \<open>The key file\<close>

text \<open>
  The file at the key's path (\<open>None\<close>: there is none) and the outcomes of the calls on it: an
  error of the read other than a missing file, of creating the parent directory, of opening, and
  of the two writes, the first with the number of bytes that reached the file before it.
\<close>

record key_io =
  ki_read_err :: "io_error option"
  ki_mkdir :: "io_error option"
  ki_open :: "io_error option"
  ki_write :: "(nat \<times> io_error) option"
  ki_newline :: "io_error option"

definition read_secret_file :: "key_io \<Rightarrow> string option \<Rightarrow> (fs_error, string option) result" where
  "read_secret_file io file =
     (case ki_read_err io of
        Some e \<Rightarrow> if e = IoNotFound then Inr None else Inl (FsIo e)
      | None \<Rightarrow> Inr file)"

definition write_secret_file ::
  "key_io \<Rightarrow> string \<Rightarrow> string option \<Rightarrow> (fs_error, unit) result \<times> string option" where
  "write_secret_file io text file =
     (case ki_mkdir io of
        Some e \<Rightarrow> (Inl (FsIo e), file)
      | None \<Rightarrow>
          if file \<noteq> None then (Inl (FsIo (IoOther ''already exists'')), file)
          else
          (case ki_open io of
             Some e \<Rightarrow> (Inl (FsIo e), file)
           | None \<Rightarrow>
               (case ki_write io of
                  Some (n, e) \<Rightarrow> (Inl (FsIo e), Some (take n text))
                | None \<Rightarrow>
                    (case ki_newline io of
                       Some e \<Rightarrow> (Inl (FsIo e), Some text)
                     | None \<Rightarrow> (Inr (), Some (text @ [CHR 0x0A]))))))"

text \<open>The loop over the 32 byte positions of the trimmed text.\<close>

fun parse_hex_pairs :: "string \<Rightarrow> (fs_error, bytes) result" where
  "parse_hex_pairs (a # b # r) =
     (case from_str_radix 255 16 [a, b] of
        None \<Rightarrow> Inl BadKeypair
      | Some n \<Rightarrow> rbind (parse_hex_pairs r) (\<lambda>bs. Inr (word_of_nat n # bs)))"
| "parse_hex_pairs _ = Inr []"

definition parse_keypair :: "string \<Rightarrow> (fs_error, bytes) result" where
  "parse_keypair text =
     (if \<not> utf8_valid (map code_of text) then Inl BadKeypair
      else let hexed = trim text in
        if length hexed \<noteq> 64 \<or> \<not> list_all is_ascii_hexdigit hexed then Inl BadKeypair
        else parse_hex_pairs hexed)"

definition load_or_create_keypair ::
  "key_io \<Rightarrow> bytes \<Rightarrow> string option \<Rightarrow> (fs_error, bytes) result \<times> string option" where
  "load_or_create_keypair io generated file =
     (case read_secret_file io file of
        Inl e \<Rightarrow> (Inl e, file)
      | Inr (Some text) \<Rightarrow> (parse_keypair text, file)
      | Inr None \<Rightarrow>
          (case write_secret_file io (hex generated) file of
             (Inl e, file') \<Rightarrow> (Inl e, file')
           | (Inr _, file') \<Rightarrow> (Inr generated, file')))"

section \<open>The client's registry of servers\<close>

record server_entry =
  se_name :: string
  se_node_id :: string
  se_paired_at :: string
  se_forwards :: "string list"

record client_store =
  cs_version :: u32
  cs_servers :: "server_entry list"

definition SERVERS_FILE :: string where
  "SERVERS_FILE = ''servers.toml''"

definition servers_toml_path :: "string \<Rightarrow> string" where
  "servers_toml_path data_dir = path_join data_dir SERVERS_FILE"

definition store_load ::
  "(string \<Rightarrow> (string, client_store) result) \<Rightarrow> (io_error, string) result \<Rightarrow> (fs_error, client_store) result" where
  "store_load toml_de file =
     (case file of
        Inr text \<Rightarrow> map_err FsToml (toml_de text)
      | Inl IoNotFound \<Rightarrow> Inr \<lparr>cs_version = 1, cs_servers = []\<rparr>
      | Inl e \<Rightarrow> Inl (FsIo e))"

definition store_save ::
  "(client_store \<Rightarrow> (string, string) result) \<Rightarrow> io_error option \<Rightarrow> fs_outcome \<Rightarrow> client_store \<Rightarrow> string option
     \<Rightarrow> (fs_error, unit) result \<times> string option" where
  "store_save toml_ser mkdir fs store file =
     (case mkdir of
        Some e \<Rightarrow> (Inl (FsIo e), file)
      | None \<Rightarrow>
          (case toml_ser store of
             Inl e \<Rightarrow> (Inl (FsTomlSer e), file)
           | Inr text \<Rightarrow>
               (case fs of
                  FsWriteErr e \<Rightarrow> (Inl (FsIo e), file)
                | FsRenameErr e \<Rightarrow> (Inl (FsIo e), file)
                | FsOk \<Rightarrow> (Inr (), Some text))))"

definition upsert :: "server_entry \<Rightarrow> client_store \<Rightarrow> (fs_error, unit) result \<times> client_store" where
  "upsert entry st =
     (let same_server = position (\<lambda>s. se_node_id s = se_node_id entry) (cs_servers st);
          name_taken = list_ex (\<lambda>s. se_name s = se_name entry \<and> se_node_id s \<noteq> se_node_id entry) (cs_servers st)
      in if name_taken then (Inl (NameInUse (se_name entry)), st)
         else
           (case same_server of
              Some i \<Rightarrow> (Inr (), st\<lparr>cs_servers := (cs_servers st)[i := entry]\<rparr>)
            | None \<Rightarrow> (Inr (), st\<lparr>cs_servers := cs_servers st @ [entry]\<rparr>)))"

definition store_get :: "client_store \<Rightarrow> string \<Rightarrow> server_entry option" where
  "store_get st name = List.find (\<lambda>s. se_name s = name) (cs_servers st)"

definition get_by_node_id :: "client_store \<Rightarrow> string \<Rightarrow> server_entry option" where
  "get_by_node_id st node_id = List.find (\<lambda>s. se_node_id s = node_id) (cs_servers st)"

definition set_forwards :: "string \<Rightarrow> string list \<Rightarrow> client_store \<Rightarrow> bool \<times> client_store" where
  "set_forwards name forwards st =
     (if list_ex (\<lambda>s. se_name s = name) (cs_servers st)
      then (True, st\<lparr>cs_servers := update_first (\<lambda>s. se_name s = name) (\<lambda>s. s\<lparr>se_forwards := forwards\<rparr>) (cs_servers st)\<rparr>)
      else (False, st))"

definition store_wf :: "client_store \<Rightarrow> bool" where
  "store_wf st = (distinct (map se_name (cs_servers st)) \<and> distinct (map se_node_id (cs_servers st)))"

section \<open>Laws: hex and keys\<close>

lemma hex_Nil [simp]: "hex [] = []" and hex_Cons [simp]: "hex (b # bs) = hex_byte b @ hex bs"
  by (simp_all add: hex_def)

lemma length_hex_byte [simp]: "length (hex_byte b) = 2"
  by (simp add: hex_byte_def)

lemma length_hex [simp]: "length (hex bs) = 2 * length bs"
  by (induction bs) simp_all

lemma hex_hexdigits: "list_all is_ascii_hexdigit (hex bs)"
  by (induction bs) (auto simp: list_all_iff dest: hex_byte_hex)

lemma ws_len_ascii: "33 \<le> code_of c \<Longrightarrow> code_of c < 128 \<Longrightarrow> ws_len (c # cs) = 0"
  by (simp add: ws_len_def)

lemma hexdigit_range: "is_ascii_hexdigit c \<Longrightarrow> 33 \<le> code_of c \<and> code_of c < 128"
  by (auto simp: is_ascii_hexdigit_def is_ascii_digit_def)

lemma ws_len_hexdigit [simp]: "is_ascii_hexdigit c \<Longrightarrow> ws_len (c # cs) = 0"
  using hexdigit_range ws_len_ascii by blast

lemma trim_start_hexdigit [simp]: "is_ascii_hexdigit c \<Longrightarrow> trim_start (c # cs) = c # cs"
  by (subst trim_start.simps) simp

lemma trim_end_hexdigits:
  "list_all is_ascii_hexdigit s \<Longrightarrow> trim_start r = [] \<Longrightarrow> trim_end (s @ r) = s"
proof (induction s)
  case Nil
  then show ?case by (cases r) auto
qed simp

lemma trim_hexdigits:
  "list_all is_ascii_hexdigit s \<Longrightarrow> s \<noteq> [] \<Longrightarrow> trim_start r = [] \<Longrightarrow> trim (s @ r) = s"
  using trim_end_hexdigits [of s r] by (cases s) (auto simp: trim_def)

lemma trim_start_newline [simp]: "trim_start [CHR 0x0A] = []"
  by (subst trim_start.simps, subst trim_start.simps) (simp add: ws_len_def)

lemma utf8_valid_ascii: "\<forall>a \<in> set as. a < 128 \<Longrightarrow> utf8_valid as"
  by (induction as) auto

lemma parse_hex_pairs_hex [simp]: "parse_hex_pairs (hex bs) = Inr bs"
proof (induction bs)
  case (Cons b bs)
  obtain x y where xy: "hex_byte b = [x, y]" by (simp add: hex_byte_def)
  then have "from_str_radix 255 16 [x, y] = Some (unat b)"
    using hex_byte_parse [of b] by simp
  with Cons xy show ?case by simp
qed simp

interpretation hex_text: text_codec hex "\<lambda>s. case parse_hex_pairs s of Inr bs \<Rightarrow> Some bs | Inl _ \<Rightarrow> None" "\<lambda>_. True"
  by unfold_locales simp

lemma parse_keypair_hex:
  assumes "length k = 32"
  shows "parse_keypair (hex k @ [CHR 0x0A]) = Inr k"
proof -
  have "utf8_valid (map code_of (hex k @ [CHR 0x0A]))"
    using hex_hexdigits [of k] hexdigit_range by (intro utf8_valid_ascii) (auto simp: list_all_iff)
  moreover have "hex k \<noteq> []"
    using assms length_hex [of k] by (metis length_0_conv mult_is_0 zero_neq_numeral)
  then have "trim (hex k @ [CHR 0x0A]) = hex k"
    using hex_hexdigits [of k] by (intro trim_hexdigits) auto
  ultimately show ?thesis
    using assms hex_hexdigits [of k] by (simp add: parse_keypair_def)
qed

lemma hexdigit_val:
  "is_ascii_hexdigit c \<Longrightarrow> \<exists>v < 16. digit_val c = Some v \<and> hex_digit v = lower_char c"
  by (auto simp: is_ascii_hexdigit_def is_ascii_digit_def digit_val_def hex_digit_def lower_char_def Let_def)

lemma hex_pair_val:
  assumes "is_ascii_hexdigit a" and "is_ascii_hexdigit b"
  shows "\<exists>n. from_str_radix 255 16 [a, b] = Some n \<and> hex_byte (word_of_nat n) = [lower_char a, lower_char b]"
proof -
  obtain u v where u: "u < 16" "digit_val a = Some u" "hex_digit u = lower_char a"
    and v: "v < 16" "digit_val b = Some v" "hex_digit v = lower_char b"
    using hexdigit_val assms by metis
  have "a \<noteq> CHR ''+''" using assms(1) by (auto simp: is_ascii_hexdigit_def is_ascii_digit_def)
  then have "from_str_radix 255 16 [a, b] = Some (u * 16 + v)"
    using u v by (simp add: from_str_radix_def)
  moreover have "unat (word_of_nat (u * 16 + v) :: u8) = u * 16 + v"
    using u v by (simp only: unat_u8_word_of_nat) simp
  then have "hex_byte (word_of_nat (u * 16 + v)) = [lower_char a, lower_char b]"
    using u v by (simp add: hex_byte_def)
  ultimately show ?thesis by blast
qed

lemma parse_hex_pairs_ok:
  "list_all is_ascii_hexdigit s \<Longrightarrow> even (length s) \<Longrightarrow>
     \<exists>k. parse_hex_pairs s = Inr k \<and> hex k = to_ascii_lowercase s"
proof (induction s rule: parse_hex_pairs.induct)
  case (1 a b r)
  then obtain n where "from_str_radix 255 16 [a, b] = Some n" "hex_byte (word_of_nat n) = [lower_char a, lower_char b]"
    using hex_pair_val [of a b] by auto
  with 1 show ?case by (auto simp: to_ascii_lowercase_def)
qed (auto simp: to_ascii_lowercase_def)

lemma parse_keypair_cases:
  "parse_keypair text = Inl BadKeypair \<or>
   (\<exists>k. parse_keypair text = Inr k \<and> length k = 32 \<and> hex k = to_ascii_lowercase (trim text))"
proof (cases "utf8_valid (map code_of text) \<and> length (trim text) = 64 \<and> list_all is_ascii_hexdigit (trim text)")
  case True
  then obtain k where k: "parse_hex_pairs (trim text) = Inr k" "hex k = to_ascii_lowercase (trim text)"
    using parse_hex_pairs_ok [of "trim text"] by auto
  then have "2 * length k = 64"
    using True by (metis length_hex length_to_ascii_lowercase)
  with True k show ?thesis by (simp add: parse_keypair_def)
qed (auto simp: parse_keypair_def)

lemma write_secret_file_ok:
  "write_secret_file io text file = (Inr u, file') \<Longrightarrow> file = None \<and> file' = Some (text @ [CHR 0x0A])"
  by (auto simp: write_secret_file_def split: option.splits if_splits)

section \<open>Laws: the registry\<close>

lemma upsert_cases:
  assumes "upsert e st = (r, st')"
  obtains
    (taken) s where "s \<in> set (cs_servers st)" "se_name s = se_name e" "se_node_id s \<noteq> se_node_id e"
      "r = Inl (NameInUse (se_name e))" "st' = st"
  | (same) i where "i < length (cs_servers st)" "se_node_id (cs_servers st ! i) = se_node_id e"
      "\<forall>s \<in> set (cs_servers st). se_name s = se_name e \<longrightarrow> se_node_id s = se_node_id e"
      "r = Inr ()" "st' = st\<lparr>cs_servers := (cs_servers st)[i := e]\<rparr>"
  | (new) "\<forall>s \<in> set (cs_servers st). se_node_id s \<noteq> se_node_id e \<and> se_name s \<noteq> se_name e"
      "r = Inr ()" "st' = st\<lparr>cs_servers := cs_servers st @ [e]\<rparr>"
proof (cases "list_ex (\<lambda>s. se_name s = se_name e \<and> se_node_id s \<noteq> se_node_id e) (cs_servers st)")
  case True
  then obtain s where "s \<in> set (cs_servers st)" "se_name s = se_name e" "se_node_id s \<noteq> se_node_id e"
    by (auto simp: list_ex_iff)
  moreover have "upsert e st = (Inl (NameInUse (se_name e)), st)"
    using True by (simp add: upsert_def)
  ultimately show thesis using assms by (intro taken) simp_all
next
  case False
  then have names: "\<forall>s \<in> set (cs_servers st). se_name s = se_name e \<longrightarrow> se_node_id s = se_node_id e"
    by (auto simp: list_ex_iff)
  show thesis
  proof (cases "position (\<lambda>s. se_node_id s = se_node_id e) (cs_servers st)")
    case None
    then have "\<forall>s \<in> set (cs_servers st). se_node_id s \<noteq> se_node_id e"
      by (simp add: position_None_iff list_ex_iff)
    moreover have "upsert e st = (Inr (), st\<lparr>cs_servers := cs_servers st @ [e]\<rparr>)"
      using None False by (simp add: upsert_def)
    ultimately show thesis using assms names by (intro new) auto
  next
    case (Some i)
    have "upsert e st = (Inr (), st\<lparr>cs_servers := (cs_servers st)[i := e]\<rparr>)"
      using Some False by (simp add: upsert_def)
    then show thesis
      using assms names position_lt [OF Some] position_sat [OF Some] by (intro same [of i]) simp_all
  qed
qed

lemma distinct_map_list_update:
  assumes "distinct (map f xs)" and "i < length xs" and "\<forall>x \<in> set xs. f x = f y \<longrightarrow> x = xs ! i"
  shows "distinct (map f (xs[i := y]))"
proof -
  have "f y \<notin> set (map f xs) - {map f xs ! i}"
    using assms(2,3) by auto
  then show ?thesis
    using assms(1,2) by (simp add: map_update distinct_list_update)
qed

lemma wf_upsert [inv_intro]:
  assumes "store_wf st" and "upsert e st = (r, st')"
  shows "store_wf st'"
  using assms(2)
proof (cases rule: upsert_cases)
  case (same i)
  have inj: "s = cs_servers st ! i" if "s \<in> set (cs_servers st)" "se_node_id s = se_node_id e" for s
    using that same assms(1) distinct_key_unique [of se_node_id "cs_servers st" s "cs_servers st ! i"]
    by (simp add: store_wf_def)
  with same assms(1) show ?thesis
    by (auto simp: store_wf_def intro!: distinct_map_list_update)
qed (use assms(1) in \<open>auto simp: store_wf_def\<close>)

lemma wf_set_forwards [inv_intro]: "store_wf st \<Longrightarrow> store_wf (snd (set_forwards n fs st))"
  by (simp add: store_wf_def set_forwards_def)

lemma find_list_update_key:
  assumes "distinct (map f xs)" and "i < length xs" and "f (xs ! i) = f y"
  shows "List.find (\<lambda>x. f x = k) (xs[i := y]) = (if f y = k then Some y else List.find (\<lambda>x. f x = k) xs)"
  using assms
proof (induction xs arbitrary: i)
  case (Cons x xs)
  show ?case
  proof (cases i)
    case (Suc j)
    with Cons.prems have "f (xs ! j) = f y" and "j < length xs" by simp_all
    then have "f y \<in> f ` set xs" by (metis imageI nth_mem)
    with Cons.prems(1) have "f x \<noteq> f y" by auto
    with Cons Suc show ?thesis by auto
  qed (use Cons in auto)
qed simp

lemma get_by_node_upsert:
  assumes "store_wf st" and "upsert e st = (Inr u, st')"
  shows "get_by_node_id st' n = (if n = se_node_id e then Some e else get_by_node_id st n)"
  using assms(2)
proof (cases rule: upsert_cases)
  case (same i)
  with assms(1) show ?thesis
    by (auto simp: get_by_node_id_def store_wf_def find_list_update_key)
next
  case new
  then have "List.find (\<lambda>s. se_node_id s = se_node_id e) (cs_servers st) = None"
    by (auto simp: find_None_iff)
  with new show ?thesis
    by (auto simp: get_by_node_id_def find_append split: option.splits)
qed auto

section \<open>Properties\<close>

text \<open>A key file is accepted only if its trimmed text is the 64 hex digits of the key returned,
  in any letter case; everything else is \<open>BadKeypair\<close>, and the file is never rewritten.\<close>

lemma keypair_file_exact:
  "fst (load_or_create_keypair io gen (Some text)) = Inr k \<Longrightarrow> ki_read_err io = None \<Longrightarrow>
     length k = 32 \<and> hex k = to_ascii_lowercase (trim text)
     \<and> snd (load_or_create_keypair io gen (Some text)) = Some text"
  using parse_keypair_cases [of "text"] by (auto simp: load_or_create_keypair_def read_secret_file_def)

text \<open>The identity is stable: once a key was generated and written, every later start that can
  read the file gets the same key, whatever fresh key it would have generated.\<close>

lemma keypair_stable:
  assumes "load_or_create_keypair io gen None = (Inr k, file)" and "length gen = 32"
    and "ki_read_err io' = None"
  shows "k = gen \<and> load_or_create_keypair io' gen' file = (Inr k, file)"
proof -
  have "k = gen \<and> file = Some (hex gen @ [CHR 0x0A])"
    using assms(1)
    by (auto simp: load_or_create_keypair_def read_secret_file_def
        split: option.splits if_splits prod.splits sum.splits dest!: write_secret_file_ok)
  with assms(2,3) show ?thesis
    by (simp add: load_or_create_keypair_def read_secret_file_def parse_keypair_hex)
qed

lemma keypair_stable_example:
  "let io = \<lparr>ki_read_err = None, ki_mkdir = None, ki_open = None, ki_write = None, ki_newline = None\<rparr>
   in load_or_create_keypair io (replicate 32 9) (Some (hex (replicate 32 7) @ [CHR 0x0A])) =
        (Inr (replicate 32 7), Some (hex (replicate 32 7) @ [CHR 0x0A]))"
  using keypair_stable
    [of "\<lparr>ki_read_err = None, ki_mkdir = None, ki_open = None, ki_write = None, ki_newline = None\<rparr>"
        "replicate 32 7" "replicate 32 7" "Some (hex (replicate 32 7) @ [CHR 0x0A])"
        "\<lparr>ki_read_err = None, ki_mkdir = None, ki_open = None, ki_write = None, ki_newline = None\<rparr>"
        "replicate 32 9"]
  by (simp add: load_or_create_keypair_def read_secret_file_def write_secret_file_def)

text \<open>Pairing never overwrites another server: a successful \<open>upsert\<close> keeps names and node
  ids unique, replaces at most the entry with the same node id and leaves the entries of all other
  servers as they were; it fails, changing nothing, exactly when the name belongs to a different
  server.\<close>

lemma upsert_spec:
  assumes "store_wf st"
  shows "case upsert e st of
      (Inr _, st') \<Rightarrow> store_wf st' \<and> store_get st' (se_name e) = Some e
        \<and> (\<forall>n. get_by_node_id st' n = (if n = se_node_id e then Some e else get_by_node_id st n))
    | (Inl err, st') \<Rightarrow> st' = st \<and> err = NameInUse (se_name e)
        \<and> (\<exists>s. store_get st (se_name e) = Some s \<and> se_node_id s \<noteq> se_node_id e)"
proof -
  obtain r st' where u: "upsert e st = (r, st')" by (cases "upsert e st")
  show ?thesis
  proof (cases r)
    case (Inl err)
    from u show ?thesis
    proof (cases rule: upsert_cases)
      case (taken s)
      then have "store_get st (se_name e) = Some s"
        using assms find_distinct_key [of se_name "cs_servers st" s] by (simp add: store_get_def store_wf_def)
      with taken u show ?thesis by simp
    qed (use Inl in simp_all)
  next
    case (Inr x)
    have wf: "store_wf st'" using wf_upsert [OF assms u] .
    have "e \<in> set (cs_servers st')"
      using u by (cases rule: upsert_cases) (use Inr in \<open>auto simp: set_update_memI\<close>)
    then have "store_get st' (se_name e) = Some e"
      using wf find_distinct_key [of se_name "cs_servers st'" e] by (simp add: store_get_def store_wf_def)
    with wf u Inr get_by_node_upsert [OF assms, of e x st'] show ?thesis by simp
  qed
qed

lemma upsert_spec_example:
  "case upsert \<lparr>se_name = ''a'', se_node_id = ''2'', se_paired_at = ''t'', se_forwards = []\<rparr>
       \<lparr>cs_version = 1, cs_servers = [\<lparr>se_name = ''a'', se_node_id = ''1'', se_paired_at = ''t'', se_forwards = []\<rparr>]\<rparr> of
      (Inr _, st') \<Rightarrow> False
    | (Inl err, st') \<Rightarrow> err = NameInUse ''a''"
  using upsert_spec
    [of "\<lparr>cs_version = 1, cs_servers = [\<lparr>se_name = ''a'', se_node_id = ''1'', se_paired_at = ''t'', se_forwards = []\<rparr>]\<rparr>"
        "\<lparr>se_name = ''a'', se_node_id = ''2'', se_paired_at = ''t'', se_forwards = []\<rparr>"]
  by (simp add: store_wf_def upsert_def)

text \<open>An explicit socket path is the only one tried, so a wrong one is never masked; otherwise
  the user's runtime directory comes before the system one, and the first candidate is the path
  the daemon listens on by default under the same environment.\<close>

lemma candidate_paths_spec:
  "candidate_socket_paths rt (Some p) = [p]
   \<and> hd (candidate_socket_paths rt None) = default_socket_path rt
   \<and> last (candidate_socket_paths rt None) = default_socket_path None
   \<and> length (candidate_socket_paths rt None) \<le> 2"
  by (cases rt)
     (auto simp: candidate_socket_paths_def candidate_socket_paths_with_def default_socket_path_def runtime_base_def)

end
