(* ===== verification/Proto_Limits.thy ===== *)
theory Proto_Limits
  imports Prelude
begin

text \<open>
  The numeric limits of \<open>tmite-proto/src/limits.rs\<close>.  Sizes are natural numbers (the sources
  use \<open>usize\<close>, \<open>u32\<close> and \<open>u64\<close> constants far below their maxima); durations are
  milliseconds.
\<close>

named_theorems limit_defs \<open>the constants of limits.rs\<close>

definition secs :: "nat \<Rightarrow> duration" where
  "secs n = 1000 * n"

definition MAX_CONTROL_FRAME :: nat where
  [limit_defs]: "MAX_CONTROL_FRAME = 4 * 1024"

definition MAX_TARGET_LEN :: nat where
  [limit_defs]: "MAX_TARGET_LEN = 256"

definition MAX_CONCURRENT_BIDI_STREAMS :: nat where
  [limit_defs]: "MAX_CONCURRENT_BIDI_STREAMS = 256"

definition MAX_PENDING_INVITES :: nat where
  [limit_defs]: "MAX_PENDING_INVITES = 8"

definition MAX_PEERS :: nat where
  [limit_defs]: "MAX_PEERS = 256"

definition MAX_RULES :: nat where
  [limit_defs]: "MAX_RULES = 1024"

definition PAIRING_READ_TIMEOUT :: duration where
  [limit_defs]: "PAIRING_READ_TIMEOUT = secs 30"

definition FIRST_FRAME_TIMEOUT :: duration where
  [limit_defs]: "FIRST_FRAME_TIMEOUT = secs 30"

definition TARGET_CONNECT_TIMEOUT :: duration where
  [limit_defs]: "TARGET_CONNECT_TIMEOUT = secs 10"

definition OK_DENY_WAIT :: duration where
  [limit_defs]: "OK_DENY_WAIT = secs 30"

definition EP_ONLINE_TIMEOUT :: duration where
  [limit_defs]: "EP_ONLINE_TIMEOUT = secs 45"

definition PROMPT_TIMEOUT :: duration where
  [limit_defs]: "PROMPT_TIMEOUT = secs 120"

definition DEFAULT_INVITE_TTL :: nat where
  [limit_defs]: "DEFAULT_INVITE_TTL = 900"

definition MAX_INVITE_TTL :: nat where
  [limit_defs]: "MAX_INVITE_TTL = 3600"

definition REJECT_DELAY_INITIAL :: duration where
  [limit_defs]: "REJECT_DELAY_INITIAL = 500"

definition REJECT_DELAY_MAX :: duration where
  [limit_defs]: "REJECT_DELAY_MAX = secs 8"

definition QUIC_KEEP_ALIVE :: duration where
  [limit_defs]: "QUIC_KEEP_ALIVE = secs 15"

definition QUIC_MAX_IDLE_TIMEOUT :: duration where
  [limit_defs]: "QUIC_MAX_IDLE_TIMEOUT = secs (10 * 60)"

definition INVITE_CODE_ENTROPY :: nat where
  [limit_defs]: "INVITE_CODE_ENTROPY = 5"

definition PAIR_MAX_ATTEMPTS :: nat where
  [limit_defs]: "PAIR_MAX_ATTEMPTS = 3"

definition CODE_VERSION :: u16 where
  [limit_defs]: "CODE_VERSION = 1"

end
