(* ===== verification/Net.thy ===== *)
theory Net
  imports Proto_Limits Rust_Str
begin

text \<open>
  Endpoint construction, \<open>tmite-core/src/net.rs\<close>: the transport settings of each role, the
  one construction path for endpoints, node ids for display and the escalating delay between
  rejected pairing attempts.  The QUIC library is represented by the configuration handed to it
  and by the outcomes of its calls.
\<close>

section \<open>Options and transport\<close>

datatype net_error =
    NetBind string
  | OnlineTimeout nat
  | BadRelayUrl string
  | BadPkarrUrl string

record net_opts =
  no_relay_urls :: "string list"
  no_pkarr_url :: "string option"
  no_bind_port :: "u16 option"

datatype endpoint_role = RoleMain | RoleInvite | RoleClient

text \<open>The settings a role overrides; \<open>None\<close> leaves the library's default.\<close>

record quic_transport =
  qt_max_bidi :: "nat option"
  qt_max_uni :: "nat option"
  qt_keep_alive :: "duration option"
  qt_max_idle_ms :: "u32 option"

definition quic_default :: quic_transport where
  "quic_default = \<lparr>qt_max_bidi = None, qt_max_uni = None, qt_keep_alive = None, qt_max_idle_ms = None\<rparr>"

fun transport_config :: "endpoint_role \<Rightarrow> quic_transport" where
  "transport_config RoleMain =
     quic_default\<lparr>qt_max_bidi := Some MAX_CONCURRENT_BIDI_STREAMS, qt_max_uni := Some 0\<rparr>"
| "transport_config RoleInvite = quic_default"
| "transport_config RoleClient =
     quic_default\<lparr>qt_keep_alive := Some QUIC_KEEP_ALIVE,
       qt_max_idle_ms := Some (word_of_nat QUIC_MAX_IDLE_TIMEOUT)\<rparr>"

section \<open>Building an endpoint\<close>

datatype preset = PresetMinimal | PresetN0
datatype 'r relay_mode = RelayDefault | RelayDisabled | RelayCustom "'r list"
datatype 'u address_lookup = PkarrPublisher 'u | PkarrResolver 'u
datatype ip_any = V4Unspecified | V6Unspecified

record ('k, 'r, 'u) endpoint_builder =
  eb_preset :: preset
  eb_relay_mode :: "'r relay_mode"
  eb_lookups :: "'u address_lookup list"
  eb_secret_key :: "'k option"
  eb_alpns :: "bytes list"
  eb_transport :: quic_transport
  eb_bind_addrs :: "(ip_any \<times> u16) list"

text \<open>What the library and the network answer: the two URL parsers, whether an address can be
  bound, whether the socket can, and how long the endpoint takes to come online.\<close>

record ('r, 'u) net_io =
  ni_parse_relay :: "string \<Rightarrow> 'r option"
  ni_parse_url :: "string \<Rightarrow> 'u option"
  ni_bind_addr :: "ip_any \<times> u16 \<Rightarrow> string option"
  ni_bind :: "string option"
  ni_online_after :: "duration option"

definition builder_new :: "preset \<Rightarrow> ('k, 'r, 'u) endpoint_builder" where
  "builder_new p = \<lparr>eb_preset = p, eb_relay_mode = RelayDefault, eb_lookups = [], eb_secret_key = None,
     eb_alpns = [], eb_transport = quic_default, eb_bind_addrs = []\<rparr>"

fun parse_relay_urls :: "(string \<Rightarrow> 'r option) \<Rightarrow> string list \<Rightarrow> (net_error, 'r list) result" where
  "parse_relay_urls parse [] = Inr []"
| "parse_relay_urls parse (raw # raws) =
     (case parse raw of
        None \<Rightarrow> Inl (BadRelayUrl raw)
      | Some url \<Rightarrow> rbind (parse_relay_urls parse raws) (\<lambda>urls. Inr (url # urls)))"

definition relay_builder ::
  "('r, 'u) net_io \<Rightarrow> string list \<Rightarrow> (net_error, ('k, 'r, 'u) endpoint_builder) result" where
  "relay_builder io relay_urls =
     (if relay_urls = [] then Inr ((builder_new PresetMinimal)\<lparr>eb_relay_mode := RelayDisabled\<rparr>)
      else rbind (parse_relay_urls (ni_parse_relay io) relay_urls)
             (\<lambda>urls. Inr ((builder_new PresetMinimal)\<lparr>eb_relay_mode := RelayCustom urls\<rparr>)))"

definition custom_builder ::
  "('r, 'u) net_io \<Rightarrow> net_opts \<Rightarrow> (net_error, ('k, 'r, 'u) endpoint_builder) result" where
  "custom_builder io opts =
     rbind (relay_builder io (no_relay_urls opts)) (\<lambda>b.
       (case no_pkarr_url opts of
          None \<Rightarrow> Inr b
        | Some raw \<Rightarrow>
            (case ni_parse_url io raw of
               None \<Rightarrow> Inl (BadPkarrUrl raw)
             | Some url \<Rightarrow> Inr (b\<lparr>eb_lookups := [PkarrPublisher url, PkarrResolver url]\<rparr>))))"

fun bind_addrs ::
  "('r, 'u) net_io \<Rightarrow> (ip_any \<times> u16) list \<Rightarrow> ('k, 'r, 'u) endpoint_builder
     \<Rightarrow> (net_error, ('k, 'r, 'u) endpoint_builder) result" where
  "bind_addrs io [] b = Inr b"
| "bind_addrs io (a # as) b =
     (case ni_bind_addr io a of
        Some e \<Rightarrow> Inl (NetBind e)
      | None \<Rightarrow> bind_addrs io as (b\<lparr>eb_bind_addrs := eb_bind_addrs b @ [a]\<rparr>))"

text \<open>The fixed port of the options, for every role but the invite endpoints.\<close>

definition bind_port ::
  "('r, 'u) net_io \<Rightarrow> endpoint_role \<Rightarrow> net_opts \<Rightarrow> ('k, 'r, 'u) endpoint_builder
     \<Rightarrow> (net_error, ('k, 'r, 'u) endpoint_builder) result" where
  "bind_port io role opts b =
     (case no_bind_port opts of
        Some port \<Rightarrow> if role \<noteq> RoleInvite
                     then bind_addrs io [(V4Unspecified, port), (V6Unspecified, port)] b else Inr b
      | None \<Rightarrow> Inr b)"

text \<open>Binding the socket and waiting until the endpoint is online.\<close>

definition bind_online ::
  "('r, 'u) net_io \<Rightarrow> ('k, 'r, 'u) endpoint_builder \<Rightarrow> (net_error, ('k, 'r, 'u) endpoint_builder) result" where
  "bind_online io b =
     (case ni_bind io of
        Some e \<Rightarrow> Inl (NetBind e)
      | None \<Rightarrow>
          (case ni_online_after io of
             Some t \<Rightarrow> if t \<le> EP_ONLINE_TIMEOUT then Inr b else Inl (OnlineTimeout (EP_ONLINE_TIMEOUT div 1000))
           | None \<Rightarrow> Inl (OnlineTimeout (EP_ONLINE_TIMEOUT div 1000))))"

definition build_endpoint ::
  "('r, 'u) net_io \<Rightarrow> 'k \<Rightarrow> bytes list \<Rightarrow> endpoint_role \<Rightarrow> net_opts
     \<Rightarrow> (net_error, ('k, 'r, 'u) endpoint_builder) result" where
  "build_endpoint io secret_key alpns role opts =
     (let custom = (no_pkarr_url opts \<noteq> None \<or> no_relay_urls opts \<noteq> []) in
      rbind (if custom then custom_builder io opts else Inr (builder_new PresetN0)) (\<lambda>b.
      rbind (bind_port io role opts (b\<lparr>eb_secret_key := Some secret_key, eb_alpns := alpns,
               eb_transport := transport_config role\<rparr>))
        (bind_online io)))"

section \<open>Node ids for display\<close>

function chunks :: "nat \<Rightarrow> 'a list \<Rightarrow> 'a list list" where
  "chunks n xs = (if xs = [] \<or> n = 0 then [] else take n xs # chunks n (drop n xs))"
  by pat_completeness auto
termination by (relation "measure (\<lambda>(n, xs). length xs)") auto

declare chunks.simps [simp del]

definition grouped_hex :: "bytes \<Rightarrow> string" where
  "grouped_hex bs = str_join '' '' (chunks 8 (concat (map hex_byte bs)))"

section \<open>Reject delay\<close>

record reject_delay =
  rd_current :: duration

definition rd_new :: reject_delay where
  "rd_new = \<lparr>rd_current = REJECT_DELAY_INITIAL\<rparr>"

definition rd_delay :: "reject_delay \<Rightarrow> duration" where
  "rd_delay d = rd_current d"

definition rd_escalate :: "reject_delay \<Rightarrow> reject_delay" where
  "rd_escalate d = d\<lparr>rd_current := min (rd_current d * 2) REJECT_DELAY_MAX\<rparr>"

definition rd_reset :: "reject_delay \<Rightarrow> reject_delay" where
  "rd_reset d = d\<lparr>rd_current := REJECT_DELAY_INITIAL\<rparr>"

section \<open>Laws\<close>

lemma parse_relay_urls_ok:
  "parse_relay_urls parse raws = Inr urls \<Longrightarrow> map parse raws = map Some urls"
proof (induction raws arbitrary: urls)
  case (Cons raw raws)
  then show ?case
    by (cases "parse_relay_urls parse raws") (auto split: option.splits)
qed simp

lemma bind_addrs_ok:
  "bind_addrs io as b = Inr b' \<Longrightarrow> b' = b\<lparr>eb_bind_addrs := eb_bind_addrs b @ as\<rparr>"
proof (induction as arbitrary: b)
  case (Cons a as)
  from Cons.prems have "bind_addrs io as (b\<lparr>eb_bind_addrs := eb_bind_addrs b @ [a]\<rparr>) = Inr b'"
    by (simp split: option.splits)
  from Cons.IH [OF this] show ?case by simp
qed simp

lemma bind_port_ok:
  assumes "bind_port io role opts b = Inr b'"
  shows "b' = b\<lparr>eb_bind_addrs := eb_bind_addrs b @ (case no_bind_port opts of
         Some port \<Rightarrow> if role = RoleInvite then [] else [(V4Unspecified, port), (V6Unspecified, port)]
       | None \<Rightarrow> [])\<rparr>"
  using assms unfolding bind_port_def
  by (cases "no_bind_port opts"; cases "role = RoleInvite")
     (auto simp del: bind_addrs.simps dest: bind_addrs_ok)

lemma bind_online_ok: "bind_online io b = Inr b' \<Longrightarrow> b' = b"
  by (auto simp: bind_online_def split: option.splits if_splits)

lemma relay_builder_ok:
  "relay_builder io raws = Inr b \<Longrightarrow>
     if raws = [] then b = (builder_new PresetMinimal)\<lparr>eb_relay_mode := RelayDisabled\<rparr>
     else \<exists>urls. b = (builder_new PresetMinimal)\<lparr>eb_relay_mode := RelayCustom urls\<rparr>
            \<and> map (ni_parse_relay io) raws = map Some urls"
  by (auto simp: relay_builder_def rbind_eq_Inr dest: parse_relay_urls_ok split: if_splits)

definition infra_ok :: "('r, 'u) net_io \<Rightarrow> net_opts \<Rightarrow> ('k, 'r, 'u) endpoint_builder \<Rightarrow> bool" where
  "infra_ok io opts ep =
     (if no_pkarr_url opts = None \<and> no_relay_urls opts = []
      then eb_preset ep = PresetN0 \<and> eb_relay_mode ep = RelayDefault \<and> eb_lookups ep = []
      else eb_preset ep = PresetMinimal
        \<and> (if no_relay_urls opts = [] then eb_relay_mode ep = RelayDisabled
           else \<exists>urls. eb_relay_mode ep = RelayCustom urls
                  \<and> map (ni_parse_relay io) (no_relay_urls opts) = map Some urls)
        \<and> (case no_pkarr_url opts of
             None \<Rightarrow> eb_lookups ep = []
           | Some raw \<Rightarrow> \<exists>url. ni_parse_url io raw = Some url
                 \<and> eb_lookups ep = [PkarrPublisher url, PkarrResolver url]))"

lemma custom_builder_ok:
  assumes "custom_builder io opts = Inr b" and "no_pkarr_url opts \<noteq> None \<or> no_relay_urls opts \<noteq> []"
  shows "infra_ok io opts b \<and> eb_bind_addrs b = []"
proof -
  from assms(1) obtain r where r: "relay_builder io (no_relay_urls opts) = Inr r"
    and b: "(case no_pkarr_url opts of None \<Rightarrow> Inr r
      | Some raw \<Rightarrow> (case ni_parse_url io raw of None \<Rightarrow> Inl (BadPkarrUrl raw)
          | Some url \<Rightarrow> Inr (r\<lparr>eb_lookups := [PkarrPublisher url, PkarrResolver url]\<rparr>))) = Inr b"
    by (auto simp: custom_builder_def rbind_eq_Inr)
  from relay_builder_ok [OF r] b assms(2) show ?thesis
    by (cases "no_relay_urls opts = []") (auto simp: infra_ok_def builder_new_def split: option.splits)
qed

lemma infra_ok_frame [simp]:
  "infra_ok io opts (b\<lparr>eb_secret_key := k\<rparr>) = infra_ok io opts b"
  "infra_ok io opts (b\<lparr>eb_alpns := a\<rparr>) = infra_ok io opts b"
  "infra_ok io opts (b\<lparr>eb_transport := t\<rparr>) = infra_ok io opts b"
  "infra_ok io opts (b\<lparr>eb_bind_addrs := as\<rparr>) = infra_ok io opts b"
  by (simp_all add: infra_ok_def cong: option.case_cong)

lemma chunks_concat [simp]: "0 < n \<Longrightarrow> concat (chunks n xs) = xs"
  by (induction n xs rule: chunks.induct) (simp add: chunks.simps)

lemma chunks_length: "c \<in> set (chunks n xs) \<Longrightarrow> length c \<le> n \<and> c \<noteq> [] \<and> set c \<subseteq> set xs"
proof (induction n xs rule: chunks.induct)
  case (1 n xs)
  then show ?case
    by (subst (asm) (2) chunks.simps) (auto split: if_splits dest: in_set_takeD in_set_dropD)
qed

lemma escalate_n: "rd_current ((rd_escalate ^^ n) rd_new) = min (REJECT_DELAY_INITIAL * 2 ^ n) REJECT_DELAY_MAX"
  by (induction n) (auto simp: rd_new_def rd_escalate_def REJECT_DELAY_INITIAL_def REJECT_DELAY_MAX_def secs_def)

section \<open>Properties\<close>

text \<open>The delay before the next pairing attempt is served doubles from half a second with every
  rejected attempt and stays at eight seconds from the fourth on.\<close>

lemma reject_delay_schedule:
  "rd_delay ((rd_escalate ^^ n) rd_new) = (if n < 4 then 500 * 2 ^ n else 8000)"
proof -
  have "8000 \<le> 500 * (2::nat) ^ n" if "4 \<le> n"
    using power_increasing [OF that, of "2::nat"] by simp
  moreover have "n = 0 \<or> n = 1 \<or> n = 2 \<or> n = 3" if "n < 4"
    using that by linarith
  ultimately show ?thesis
    by (auto simp: rd_delay_def escalate_n REJECT_DELAY_INITIAL_def REJECT_DELAY_MAX_def secs_def min_def)
qed

text \<open>Custom infrastructure is never mixed with the public one: an endpoint built with a relay
  list or a pkarr server uses the minimal preset, exactly the relays given in their order (none if
  the list is empty) and address lookup only through the given server; without either it uses the
  public preset untouched.  The role's transport settings always apply, and an invite endpoint
  never takes the fixed port.\<close>

lemma build_endpoint_config:
  assumes "build_endpoint io key alpns role opts = Inr ep"
  shows "infra_ok io opts ep
    \<and> eb_secret_key ep = Some key \<and> eb_alpns ep = alpns \<and> eb_transport ep = transport_config role
    \<and> eb_bind_addrs ep = (case no_bind_port opts of
         Some port \<Rightarrow> if role = RoleInvite then [] else [(V4Unspecified, port), (V6Unspecified, port)]
       | None \<Rightarrow> [])"
proof -
  obtain b where b: "(if no_pkarr_url opts \<noteq> None \<or> no_relay_urls opts \<noteq> [] then custom_builder io opts
        else Inr (builder_new PresetN0)) = Inr b"
    and rest: "bind_port io role opts (b\<lparr>eb_secret_key := Some key, eb_alpns := alpns,
        eb_transport := transport_config role\<rparr>) = Inr ep"
    using assms unfolding build_endpoint_def Let_def rbind_eq_Inr
    by (auto dest: bind_online_ok)
  have "infra_ok io opts b \<and> eb_bind_addrs b = []"
  proof (cases "no_pkarr_url opts \<noteq> None \<or> no_relay_urls opts \<noteq> []")
    case True
    with b custom_builder_ok [OF _ True] show ?thesis by simp
  next
    case False
    with b show ?thesis by (auto simp: infra_ok_def builder_new_def)
  qed
  with rest show ?thesis
    by (auto dest!: bind_port_ok)
qed

text \<open>A node id is displayed without loss: dropping the spaces gives back its hex digits, and
  no group is longer than eight digits.\<close>

lemma grouped_hex_lossless:
  "bs \<noteq> [] \<Longrightarrow>
     concat (split_on (\<lambda>c. c = CHR '' '') (grouped_hex bs)) = concat (map hex_byte bs)
     \<and> (\<forall>w \<in> set (split_on (\<lambda>c. c = CHR '' '') (grouped_hex bs)). length w \<le> 8)"
proof -
  assume "bs \<noteq> []"
  let ?h = "concat (map hex_byte bs)"
  have "?h \<noteq> []" using \<open>bs \<noteq> []\<close> by (cases bs) (auto simp: hex_byte_def)
  then have "chunks 8 ?h \<noteq> []" by (subst chunks.simps) simp
  moreover have "\<forall>w \<in> set (chunks 8 ?h). \<forall>c \<in> set w. c \<noteq> CHR '' ''"
    using chunks_length [of _ 8 ?h] hex_byte_hex hexdigit_no_space by fastforce
  ultimately have "split_on (\<lambda>c. c = CHR '' '') (grouped_hex bs) = chunks 8 ?h"
    unfolding grouped_hex_def by (intro split_on_join) auto
  then show ?thesis
    using chunks_length [of _ 8 ?h] by auto
qed

end
