(* ===== verification/Ipc_Client.thy ===== *)
theory Ipc_Client
  imports Ipc_Proto Fsio Net
begin

text \<open>
  The admin side of the IPC protocol, \<open>tmite/src/main.rs\<close>: finding the daemon's socket, one
  request with its answer, and the interactive \<open>peers invite\<close> command.  A conversation is the
  list of lines that arrive until the daemon closes the connection; what a command prints, asks and
  sends is the list of its effects.  \<open>serde_json\<close> is the record \<open>json_lib\<close>.
\<close>

section \<open>Values and errors\<close>

text \<open>The values the sources put into a \<open>json!\<close> object.\<close>

datatype json_arg = ArgStr string | ArgBool bool | ArgOptNat "u64 option" | ArgOptStr "string option"

type_synonym json_args = "(string \<times> json_arg) list"

record 'j json_lib =
  jl_render :: "u64 \<Rightarrow> string \<Rightarrow> json_args \<Rightarrow> string"
  jl_reply :: "string \<Rightarrow> (string, 'j reply) result"
  jl_null :: 'j
  jl_get :: "'j \<Rightarrow> string \<Rightarrow> 'j option"
  jl_as_str :: "'j \<Rightarrow> string option"
  jl_as_bool :: "'j \<Rightarrow> bool option"
  jl_as_u64 :: "'j \<Rightarrow> u64 option"
  jl_show :: "'j \<Rightarrow> string"
  jl_pretty :: "'j \<Rightarrow> string"

datatype ipc_client_error =
    SocketError string io_error
  | SocketNotFound "string list"
  | ClosedByDaemon
  | DaemonError error_code string
  | ClientIo io_error
  | ClientJson string
  | NoTty string
  | InviteCancelled
  | UnexpectedResult string

text \<open>What a command shows and sends; \<open>PrintDebug a x b\<close> is a line with \<open>x\<close> in the format
  \<open>{:?}\<close> between \<open>a\<close> and \<open>b\<close>.\<close>

datatype client_effect =
    Println string
  | PrintDebug string string string
  | EPrintln string
  | Asked bool
  | SendRequest u64 string json_args

definition get_str :: "'j json_lib \<Rightarrow> 'j \<Rightarrow> string \<Rightarrow> string option" where
  "get_str js v k = Option.bind (jl_get js v k) (jl_as_str js)"

definition get_bool :: "'j json_lib \<Rightarrow> 'j \<Rightarrow> string \<Rightarrow> bool option" where
  "get_bool js v k = Option.bind (jl_get js v k) (jl_as_bool js)"

definition get_u64 :: "'j json_lib \<Rightarrow> 'j \<Rightarrow> string \<Rightarrow> u64 option" where
  "get_u64 js v k = Option.bind (jl_get js v k) (jl_as_u64 js)"

abbreviation unwrap_or :: "'a \<Rightarrow> 'a option \<Rightarrow> 'a" where
  "unwrap_or d x \<equiv> (case x of Some a \<Rightarrow> a | None \<Rightarrow> d)"

section \<open>The connection\<close>

text \<open>The candidates in order; a missing socket is passed over, any other error is kept for the
  report, the last one winning.\<close>

fun ipc_connect_from ::
  "(string \<Rightarrow> io_error option) \<Rightarrow> string list \<Rightarrow> (string \<times> io_error) option \<Rightarrow> (string \<times> io_error, string) result option" where
  "ipc_connect_from conn [] last_err = map_option Inl last_err"
| "ipc_connect_from conn (path # paths) last_err =
     (case conn path of
        None \<Rightarrow> Some (Inr path)
      | Some IoNotFound \<Rightarrow> ipc_connect_from conn paths last_err
      | Some e \<Rightarrow> ipc_connect_from conn paths (Some (path, e)))"

definition ipc_connect :: "(string \<Rightarrow> io_error option) \<Rightarrow> string list \<Rightarrow> (ipc_client_error, string) result" where
  "ipc_connect conn paths =
     (case ipc_connect_from conn paths None of
        Some (Inr path) \<Rightarrow> Inr path
      | Some (Inl (path, e)) \<Rightarrow> Inl (SocketError path e)
      | None \<Rightarrow> Inl (SocketNotFound paths))"

text \<open>\<open>IpcConn::reply\<close> on a line that arrived; the end of the list of lines is the end of the
  stream.\<close>

type_synonym ipc_lines = "(io_error, string) result list"

fun conn_reply :: "'j json_lib \<Rightarrow> (io_error, string) result \<Rightarrow> (ipc_client_error, 'j reply) result" where
  "conn_reply js (Inl e) = Inl (ClientIo e)"
| "conn_reply js (Inr line) = map_err ClientJson (jl_reply js (trim line))"

text \<open>The line that goes over the socket for a request.\<close>

definition ipc_request :: "'j json_lib \<Rightarrow> u64 \<Rightarrow> string \<Rightarrow> json_args \<Rightarrow> string" where
  "ipc_request js i method params = jl_render js i method params"

section \<open>One request\<close>

fun await_reply :: "'j json_lib \<Rightarrow> ipc_lines \<Rightarrow> (ipc_client_error, 'j) result" where
  "await_reply js [] = Inl ClosedByDaemon"
| "await_reply js (l # ls) =
     (case conn_reply js l of
        Inl e \<Rightarrow> Inl e
      | Inr r \<Rightarrow>
          if rp_id r \<noteq> 1 then await_reply js ls
          else (case rp_error r of
                  Some err \<Rightarrow> Inl (DaemonError (eb_code err) (eb_message err))
                | None \<Rightarrow> (case rp_result r of Some v \<Rightarrow> Inr v | None \<Rightarrow> await_reply js ls)))"

text \<open>What the socket answers: which paths connect, whether the request can be written, and the
  lines the daemon sends in return for it.\<close>

record socket_io =
  sk_connect :: "string \<Rightarrow> io_error option"
  sk_send :: "nat \<Rightarrow> io_error option"
  sk_lines :: ipc_lines

definition ipc_call ::
  "'j json_lib \<Rightarrow> socket_io \<Rightarrow> string list \<Rightarrow> string \<Rightarrow> json_args \<Rightarrow> (ipc_client_error, 'j) result \<times> client_effect list" where
  "ipc_call js sk paths method params =
     (case ipc_connect (sk_connect sk) paths of
        Inl e \<Rightarrow> (Inl e, [])
      | Inr _ \<Rightarrow>
          (case sk_send sk 0 of
             Some e \<Rightarrow> (Inl (ClientIo e), [])
           | None \<Rightarrow> (await_reply js (sk_lines sk), [SendRequest 1 method params])))"

section \<open>Node ids\<close>

text \<open>\<open>grouped_node_id\<close> cuts the text into pairs of bytes; a pair that runs over the end is a
  panic, \<open>None\<close>, and a pair that is not a hex number is left out.  Node ids are ASCII, so every
  byte index is a character boundary.\<close>

fun node_id_pairs :: "string \<Rightarrow> bytes option" where
  "node_id_pairs [] = Some []"
| "node_id_pairs [c] = None"
| "node_id_pairs (a # b # s) =
     (case node_id_pairs s of
        None \<Rightarrow> None
      | Some bs \<Rightarrow> Some (case from_str_radix 255 16 [a, b] of Some n \<Rightarrow> word_of_nat n # bs | None \<Rightarrow> bs))"

definition grouped_node_id :: "string \<Rightarrow> string option" where
  "grouped_node_id node_id = map_option grouped_hex (node_id_pairs node_id)"

section \<open>The invite command\<close>

text \<open>The variables of the loop, with counters for the questions asked and the requests sent.\<close>

record invite_ui =
  iu_decided :: bool
  iu_invite_id :: "string option"
  iu_asked :: nat
  iu_sent :: nat

text \<open>What ends the loop: a result, or a panic while a node id is shown.\<close>

datatype invite_end = InviteOk | InviteErr ipc_client_error | InvitePanic

text \<open>The outside of the command: whether the k-th write fails and what the k-th question at the
  terminal answers for the node shown.\<close>

record admin_io =
  ad_send :: "nat \<Rightarrow> io_error option"
  ad_ask :: "nat \<Rightarrow> string \<Rightarrow> (string, bool) result"

text \<open>\<open>yes || prompt_y_n()?\<close> for the \<open>k\<close>-th request.\<close>

definition prompt_y_n :: "admin_io \<Rightarrow> bool \<Rightarrow> nat \<Rightarrow> string \<Rightarrow> (ipc_client_error, bool) result" where
  "prompt_y_n ad yes k node = (if yes then Inr True else map_err NoTty (ad_ask ad k node))"

definition code_lines :: "'j json_lib \<Rightarrow> 'j \<Rightarrow> client_effect list" where
  "code_lines js data =
     [Println (''Invite code (valid for '' @ show_nat (unat (unwrap_or 0 (get_u64 js data ''ttl_secs''))) @ ''s):''),
      Println (''  '' @ unwrap_or ''<unknown>'' (get_str js data ''code'')),
      Println ''Read this code to the client operator.'']"

definition on_pair_request ::
  "'j json_lib \<Rightarrow> admin_io \<Rightarrow> bool \<Rightarrow> 'j \<Rightarrow> invite_ui \<Rightarrow> invite_end option \<times> client_effect list \<times> invite_ui" where
  "on_pair_request js ad yes data ui =
     (let node_id = unwrap_or ''<unknown>'' (get_str js data ''node_id'') in
      case grouped_node_id node_id of
        None \<Rightarrow> (Some InvitePanic, [Println ''Pairing request from client:''], ui)
      | Some shown \<Rightarrow>
          (let out = [Println ''Pairing request from client:'', Println (''  '' @ shown)] in
           case prompt_y_n ad yes (iu_asked ui) node_id of
             Inl e \<Rightarrow> (Some (InviteErr e), out, ui)
           | Inr accept \<Rightarrow>
               (let invite_id = unwrap_or [] (case get_str js data ''invite_id'' of Some i \<Rightarrow> Some i | None \<Rightarrow> iu_invite_id ui)
                in case ad_send ad (Suc (iu_sent ui)) of
                     Some e \<Rightarrow> (Some (InviteErr (ClientIo e)), out @ [Asked accept], ui)
                   | None \<Rightarrow>
                       (None,
                        out @ [Asked accept,
                          SendRequest 2 ''peer.invite.decide'' [(''invite_id'', ArgStr invite_id), (''accept'', ArgBool accept)]],
                        ui\<lparr>iu_decided := True, iu_asked := Suc (iu_asked ui), iu_sent := Suc (iu_sent ui)\<rparr>))))"

definition on_event ::
  "'j json_lib \<Rightarrow> admin_io \<Rightarrow> bool \<Rightarrow> string \<Rightarrow> 'j \<Rightarrow> invite_ui \<Rightarrow> invite_end option \<times> client_effect list \<times> invite_ui" where
  "on_event js ad yes event data ui =
     (if event = ''code'' then (None, code_lines js data, ui\<lparr>iu_invite_id := get_str js data ''invite_id''\<rparr>)
      else if event = ''pair_request'' then on_pair_request js ad yes data ui
      else if event = ''expired'' \<and> \<not> iu_decided ui \<and> \<not> yes then (None, [Println ''Invite expired.''], ui)
      else if event = ''cancelled'' then (Some (InviteErr InviteCancelled), [], ui)
      else (None, [], ui))"

definition on_result :: "'j json_lib \<Rightarrow> 'j \<Rightarrow> invite_end \<times> client_effect list" where
  "on_result js result =
     (let status = unwrap_or [] (get_str js result ''status'') in
      if status = ''paired'' then
        (InviteOk, [Println ''Paired. Peer registered as:'', Println (''  '' @ unwrap_or ''<unknown>'' (get_str js result ''node_id''))])
      else if status = ''rejected'' then (InviteOk, [Println ''Invite rejected; the code is now dead.''])
      else if status = ''expired'' then (InviteOk, [Println ''Invite expired without a pairing.''])
      else (InviteErr (UnexpectedResult (jl_show js result)), []))"

text \<open>One reply: foreign ids are skipped, an error of either request ends the command, and the result
  counts only under the id of the invite.\<close>

definition on_reply ::
  "'j json_lib \<Rightarrow> admin_io \<Rightarrow> bool \<Rightarrow> 'j reply \<Rightarrow> invite_ui \<Rightarrow> invite_end option \<times> client_effect list \<times> invite_ui" where
  "on_reply js ad yes r ui =
     (if rp_id r \<noteq> 1 \<and> rp_id r \<noteq> 2 then (None, [], ui)
      else case rp_error r of
        Some err \<Rightarrow> (Some (InviteErr (DaemonError (eb_code err) (eb_message err))), [], ui)
      | None \<Rightarrow>
          (let (stop, out, ui') =
             (case rp_event r of
                Some ev \<Rightarrow> on_event js ad yes ev (unwrap_or (jl_null js) (rp_data r)) ui
              | None \<Rightarrow> (None, [], ui))
           in case stop of
                Some x \<Rightarrow> (Some x, out, ui')
              | None \<Rightarrow>
                  (case rp_result r of
                     Some result \<Rightarrow>
                       if rp_id r \<noteq> 1 then (None, out, ui')
                       else (let (x, out') = on_result js result in (Some x, out @ out', ui'))
                   | None \<Rightarrow> (None, out, ui'))))"

fun invite_loop ::
  "'j json_lib \<Rightarrow> admin_io \<Rightarrow> bool \<Rightarrow> ipc_lines \<Rightarrow> invite_ui \<Rightarrow> invite_end \<times> client_effect list" where
  "invite_loop js ad yes [] ui = (InviteErr ClosedByDaemon, [])"
| "invite_loop js ad yes (l # ls) ui =
     (case conn_reply js l of
        Inl e \<Rightarrow> (InviteErr e, [])
      | Inr r \<Rightarrow>
          (case on_reply js ad yes r ui of
             (Some x, out, _) \<Rightarrow> (x, out)
           | (None, out, ui') \<Rightarrow> map_prod id (\<lambda>out'. out @ out') (invite_loop js ad yes ls ui')))"

definition invite_ui_new :: invite_ui where
  "invite_ui_new = \<lparr>iu_decided = False, iu_invite_id = None, iu_asked = 0, iu_sent = 0\<rparr>"

definition invite_cmd ::
  "'j json_lib \<Rightarrow> socket_io \<Rightarrow> (nat \<Rightarrow> string \<Rightarrow> (string, bool) result) \<Rightarrow> string list \<Rightarrow> string \<Rightarrow> u64 option \<Rightarrow> bool
     \<Rightarrow> invite_end \<times> client_effect list" where
  "invite_cmd js sk ask sockets name ttl yes =
     (case ipc_connect (sk_connect sk) sockets of
        Inl e \<Rightarrow> (InviteErr e, [])
      | Inr _ \<Rightarrow>
          (case sk_send sk 0 of
             Some e \<Rightarrow> (InviteErr (ClientIo e), [])
           | None \<Rightarrow>
               map_prod id (\<lambda>out. SendRequest 1 ''peer.invite'' [(''name'', ArgStr name), (''ttl'', ArgOptNat ttl)] # out)
                 (invite_loop js \<lparr>ad_send = sk_send sk, ad_ask = ask\<rparr> yes (sk_lines sk) invite_ui_new)))"

section \<open>Laws: sockets and node ids\<close>

lemma ipc_connect_from_ok:
  "ipc_connect_from conn paths last_err = Some (Inr path) \<longleftrightarrow> List.find (\<lambda>p. conn p = None) paths = Some path"
  by (induction paths arbitrary: last_err) (auto split: option.splits io_error.splits)

lemma ipc_connect_from_none:
  "ipc_connect_from conn paths None = None \<longleftrightarrow> (\<forall>p \<in> set paths. conn p = Some IoNotFound)"
proof -
  have some: "ipc_connect_from conn ps (Some e) \<noteq> None" for ps e
    by (induction ps arbitrary: e) (auto split: option.splits io_error.splits)
  show ?thesis by (induction paths) (auto simp: some split: option.splits io_error.splits)
qed

lemma node_id_pairs_hex: "node_id_pairs (hex bs) = Some bs"
proof (induction bs)
  case (Cons b bs)
  obtain x y where xy: "hex_byte b = [x, y]" by (simp add: hex_byte_def)
  then have "from_str_radix 255 16 [x, y] = Some (unat b)" using hex_byte_parse [of b] by simp
  with Cons xy show ?case by simp
qed simp

text \<open>A node id as the daemon prints it is shown in full; a text of odd length is a panic, and the
  placeholder for a missing node id has one.\<close>

lemma grouped_node_id_hex: "grouped_node_id (hex bs) = Some (grouped_hex bs)"
  by (simp add: grouped_node_id_def node_id_pairs_hex)

lemma node_id_pairs_panics: "node_id_pairs s = None \<longleftrightarrow> odd (length s)"
  by (induction s rule: node_id_pairs.induct) (auto split: option.splits)

lemma unknown_node_id_panics: "grouped_node_id ''<unknown>'' = None"
  by (simp add: grouped_node_id_def node_id_pairs_panics)

section \<open>Laws: the invite loop\<close>

text \<open>The pairing requests among the lines, in order: the data of the replies to one of the command's two
  requests that carry this event.\<close>

definition request_data :: "'j json_lib \<Rightarrow> 'j reply \<Rightarrow> 'j list" where
  "request_data js r =
     (if (rp_id r = 1 \<or> rp_id r = 2) \<and> rp_error r = None \<and> rp_event r = Some ''pair_request''
      then [unwrap_or (jl_null js) (rp_data r)] else [])"

definition pair_requests :: "'j json_lib \<Rightarrow> ipc_lines \<Rightarrow> 'j list" where
  "pair_requests js ls = concat (map (\<lambda>l. case conn_reply js l of Inr r \<Rightarrow> request_data js r | Inl _ \<Rightarrow> []) ls)"

abbreviation request_node :: "'j json_lib \<Rightarrow> 'j \<Rightarrow> string" where
  "request_node js data \<equiv> unwrap_or ''<unknown>'' (get_str js data ''node_id'')"

fun is_decision :: "client_effect \<Rightarrow> bool" where
  "is_decision (SendRequest i _ _) = (i = 2)"
| "is_decision _ = False"

definition decisions :: "client_effect list \<Rightarrow> nat" where
  "decisions effs = length (filter is_decision effs)"

lemma decisions_simps [simp]:
  "decisions [] = 0" "decisions (e # es) = (if is_decision e then 1 else 0) + decisions es"
  "decisions (xs @ ys) = decisions xs + decisions ys"
  by (simp_all add: decisions_def)

text \<open>A decision answers the \<open>k\<close>-th question, which was about the node of the given request, shown right
  before.\<close>

definition answers ::
  "'j json_lib \<Rightarrow> admin_io \<Rightarrow> bool \<Rightarrow> nat \<Rightarrow> 'j \<Rightarrow> client_effect list \<Rightarrow> string \<Rightarrow> json_args \<Rightarrow> bool" where
  "answers js ad yes k data pre m args =
     (\<exists>shown a iid pre'. pre = pre' @ [Println ''Pairing request from client:'', Println (''  '' @ shown), Asked a]
        \<and> grouped_node_id (request_node js data) = Some shown \<and> m = ''peer.invite.decide''
        \<and> args = [(''invite_id'', ArgStr iid), (''accept'', ArgBool a)]
        \<and> (\<forall>i. get_str js data ''invite_id'' = Some i \<longrightarrow> iid = i)
        \<and> (if yes then a else ad_ask ad k (request_node js data) = Inr a))"

lemma answers_append: "answers js ad yes k data pre m args \<Longrightarrow> answers js ad yes k data (xs @ pre) m args"
  unfolding answers_def by (metis append.assoc)

text \<open>Decision by decision: each answers the question about the request of its own number.\<close>

definition consented :: "'j json_lib \<Rightarrow> admin_io \<Rightarrow> bool \<Rightarrow> nat \<Rightarrow> 'j list \<Rightarrow> client_effect list \<Rightarrow> bool" where
  "consented js ad yes q reqs effs = (\<forall>pre m args post. effs = pre @ SendRequest 2 m args # post \<longrightarrow>
     decisions pre < length reqs \<and> answers js ad yes (q + decisions pre) (reqs ! decisions pre) pre m args)"

lemma consented_quiet: "decisions effs = 0 \<Longrightarrow> consented js ad yes q reqs effs"
  unfolding consented_def by auto

lemma consented_more: "consented js ad yes q reqs effs \<Longrightarrow> consented js ad yes q (reqs @ rest) effs"
  unfolding consented_def by (simp add: nth_append less_imp_le trans_less_add1)

lemma consented_append:
  assumes xs: "consented js ad yes q reqs xs" and n: "decisions xs = length reqs"
    and ys: "consented js ad yes (q + decisions xs) reqs' ys"
  shows "consented js ad yes q (reqs @ reqs') (xs @ ys)"
  unfolding consented_def
proof (intro allI impI)
  fix pre m args post
  assume eq: "xs @ ys = pre @ SendRequest 2 m args # post"
  show "decisions pre < length (reqs @ reqs')
    \<and> answers js ad yes (q + decisions pre) ((reqs @ reqs') ! decisions pre) pre m args"
  proof (cases "length pre < length xs")
    case True
    then obtain post' where "xs = pre @ SendRequest 2 m args # post'"
      using eq by (auto simp: append_eq_append_conv2 append_eq_Cons_conv)
    with consented_more [OF xs, of reqs'] show ?thesis unfolding consented_def by blast
  next
    case False
    then obtain us where us: "pre = xs @ us" "ys = us @ SendRequest 2 m args # post"
      using eq by (auto simp: append_eq_append_conv2)
    with ys n show ?thesis
      unfolding consented_def by (auto simp: nth_append add.assoc intro!: answers_append)
  qed
qed

lemma consented_then_quiet:
  assumes "consented js ad yes q reqs xs" and "decisions ys = 0"
  shows "consented js ad yes q reqs (xs @ ys)"
  unfolding consented_def
proof (intro allI impI)
  fix pre m args post
  assume eq: "xs @ ys = pre @ SendRequest 2 m args # post"
  have "length pre < length xs"
  proof (rule ccontr)
    assume "\<not> length pre < length xs"
    then obtain us where "ys = us @ SendRequest 2 m args # post" using eq by (auto simp: append_eq_append_conv2)
    with assms(2) show False by simp
  qed
  then obtain post' where "xs = pre @ SendRequest 2 m args # post'"
    using eq by (auto simp: append_eq_append_conv2 append_eq_Cons_conv)
  with assms(1) show "decisions pre < length reqs
    \<and> answers js ad yes (q + decisions pre) (reqs ! decisions pre) pre m args"
    unfolding consented_def by blast
qed

text \<open>The steps of the loop: what a pairing request, an event and a reply make it send.\<close>

definition step_ok ::
  "'j json_lib \<Rightarrow> admin_io \<Rightarrow> bool \<Rightarrow> 'j list \<Rightarrow> invite_ui \<Rightarrow> invite_end option \<times> client_effect list \<times> invite_ui \<Rightarrow> bool" where
  "step_ok js ad yes reqs ui res =
     (case res of (stop, out, ui') \<Rightarrow>
        consented js ad yes (iu_asked ui) reqs out
        \<and> (stop = None \<longrightarrow> decisions out = length reqs \<and> iu_asked ui' = iu_asked ui + length reqs))"

lemma step_quiet: "decisions out = 0 \<Longrightarrow> iu_asked ui' = iu_asked ui \<Longrightarrow> step_ok js ad yes [] ui (stop, out, ui')"
  by (simp add: step_ok_def consented_quiet)

lemma step_stopped: "decisions out = 0 \<Longrightarrow> step_ok js ad yes reqs ui (Some x, out, ui')"
  by (simp add: step_ok_def consented_quiet)

lemma step_pair_request: "step_ok js ad yes [data] ui (on_pair_request js ad yes data ui)"
proof (cases "grouped_node_id (request_node js data)")
  case None
  then show ?thesis by (simp add: on_pair_request_def step_stopped)
next
  case (Some shown)
  show ?thesis
  proof (cases "prompt_y_n ad yes (iu_asked ui) (request_node js data)")
    case (Inl e)
    with Some show ?thesis by (simp add: on_pair_request_def step_stopped)
  next
    case (Inr a)
    then have ask: "if yes then a else ad_ask ad (iu_asked ui) (request_node js data) = Inr a"
      by (auto simp: prompt_y_n_def map_err_def split: sum.splits if_splits)
    show ?thesis
    proof (cases "ad_send ad (Suc (iu_sent ui))")
      case None
      with Some Inr ask show ?thesis
        by (auto simp: on_pair_request_def step_ok_def consented_def answers_def Cons_eq_append_conv)
    next
      case send: (Some e)
      with Some Inr show ?thesis by (simp add: on_pair_request_def step_stopped)
    qed
  qed
qed

lemma step_event:
  "step_ok js ad yes (if ev = ''pair_request'' then [data] else []) ui (on_event js ad yes ev data ui)"
  by (simp add: on_event_def step_pair_request step_quiet code_lines_def)

lemma on_result_quiet: "decisions (snd (on_result js v)) = 0"
  by (simp add: on_result_def Let_def)

lemma step_event_part:
  assumes "rp_id r = 1 \<or> rp_id r = 2" and "rp_error r = None"
  shows "step_ok js ad yes (request_data js r) ui
     (case rp_event r of
        Some ev \<Rightarrow> on_event js ad yes ev (unwrap_or (jl_null js) (rp_data r)) ui
      | None \<Rightarrow> (None, [], ui))"
proof (cases "rp_event r")
  case None
  with assms show ?thesis by (simp add: request_data_def step_quiet)
next
  case (Some ev)
  with assms step_event [of js ad yes ev "unwrap_or (jl_null js) (rp_data r)" ui] show ?thesis
    by (cases "ev = ''pair_request''") (simp_all add: request_data_def)
qed

lemma step_reply: "step_ok js ad yes (request_data js r) ui (on_reply js ad yes r ui)"
proof (cases "(rp_id r = 1 \<or> rp_id r = 2) \<and> rp_error r = None")
  case False
  then show ?thesis
    by (auto simp: on_reply_def request_data_def step_quiet step_stopped split: option.split)
next
  case True
  let ?ev = "case rp_event r of
        Some ev \<Rightarrow> on_event js ad yes ev (unwrap_or (jl_null js) (rp_data r)) ui
      | None \<Rightarrow> (None, [], ui)"
  obtain stop out ui' where ev: "?ev = (stop, out, ui')" by (cases ?ev)
  have ok: "step_ok js ad yes (request_data js r) ui (stop, out, ui')"
    using step_event_part [OF conjunct1 [OF True] conjunct2 [OF True], of js ad yes ui] unfolding ev .
  then have "consented js ad yes (iu_asked ui) (request_data js r) out" by (simp add: step_ok_def)
  then have "consented js ad yes (iu_asked ui) (request_data js r) (out @ snd (on_result js v))" for v
    by (rule consented_then_quiet [OF _ on_result_quiet])
  with True ok show ?thesis
    unfolding on_reply_def ev
    by (auto simp: step_ok_def case_prod_unfold Let_def split: option.split)
qed

lemma consented_loop: "consented js ad yes (iu_asked ui) (pair_requests js ls) (snd (invite_loop js ad yes ls ui))"
proof (induction js ad yes ls ui rule: invite_loop.induct)
  case (1 js ad yes ui)
  show ?case by (rule consented_quiet) simp
next
  case (2 js ad yes l ls ui)
  show ?case
  proof (cases "conn_reply js l")
    case (Inl e)
    then show ?thesis by (auto intro: consented_quiet)
  next
    case (Inr r)
    obtain stop out ui' where o: "on_reply js ad yes r ui = (stop, out, ui')" by (cases "on_reply js ad yes r ui")
    have reqs: "pair_requests js (l # ls) = request_data js r @ pair_requests js ls" by (simp add: pair_requests_def Inr)
    have ok: "consented js ad yes (iu_asked ui) (request_data js r) out"
      "stop = None \<Longrightarrow> decisions out = length (request_data js r) \<and> iu_asked ui' = iu_asked ui + length (request_data js r)"
      using step_reply [of js ad yes r ui] by (simp_all add: step_ok_def o)
    show ?thesis
    proof (cases stop)
      case None
      have "consented js ad yes (iu_asked ui + decisions out) (pair_requests js ls) (snd (invite_loop js ad yes ls ui'))"
        using 2 [OF Inr o [symmetric] None] ok(2) [OF None] None by simp
      with ok None show ?thesis unfolding reqs by (simp add: Inr o consented_append)
    next
      case (Some x)
      with ok(1) show ?thesis unfolding reqs by (simp add: Inr o consented_more)
    qed
  qed
qed

text \<open>The loop ends well only on a final result.\<close>

lemma on_reply_ok:
  assumes "on_reply js ad yes r ui = (Some InviteOk, out, ui')"
  shows "rp_id r = 1 \<and> rp_error r = None
    \<and> (\<exists>v. rp_result r = Some v \<and> get_str js v ''status'' \<in> {Some ''paired'', Some ''rejected'', Some ''expired''})"
proof -
  have ev: "fst (on_event js ad yes e d ui) \<noteq> Some InviteOk" for e d
    by (simp add: on_event_def on_pair_request_def Let_def split: option.split sum.split)
  have res: "fst (on_result js v) = InviteOk \<Longrightarrow> get_str js v ''status'' \<in> {Some ''paired'', Some ''rejected'', Some ''expired''}" for v
    by (auto simp: on_result_def Let_def split: if_splits option.splits)
  show ?thesis
    using assms ev res
    by (auto simp: on_reply_def case_prod_unfold Let_def split: if_splits option.splits)
qed

section \<open>Properties\<close>

text \<open>C8: the invite command decides nothing on its own: its decisions and the pairing requests it received
  correspond one to one and in order.  The decision on a request is sent right after the node id that
  this very request carries was shown, it names the invite the request names, and it is the answer that
  was given at the terminal to the question about that node, or an accept if \<open>--yes\<close> was passed.\<close>

theorem decision_needs_consent:
  assumes "snd (invite_cmd js sk ask sockets name ttl yes) = pre @ SendRequest 2 m args # post"
    and "k = length (filter is_decision pre)" and "data = pair_requests js (sk_lines sk) ! k"
    and "node = (case get_str js data ''node_id'' of Some n \<Rightarrow> n | None \<Rightarrow> ''<unknown>'')"
  shows "k < length (pair_requests js (sk_lines sk))
    \<and> (\<exists>shown a iid pre'. pre = pre' @ [Println ''Pairing request from client:'', Println (''  '' @ shown), Asked a]
         \<and> grouped_node_id node = Some shown \<and> m = ''peer.invite.decide''
         \<and> args = [(''invite_id'', ArgStr iid), (''accept'', ArgBool a)]
         \<and> (\<forall>i. get_str js data ''invite_id'' = Some i \<longrightarrow> iid = i)
         \<and> (if yes then a else ask k node = Inr a))"
proof -
  let ?ad = "\<lparr>ad_send = sk_send sk, ad_ask = ask\<rparr>"
  let ?loop = "invite_loop js ?ad yes (sk_lines sk) invite_ui_new"
  let ?first = "SendRequest 1 ''peer.invite'' [(''name'', ArgStr name), (''ttl'', ArgOptNat ttl)]"
  from assms(1) have "snd (invite_cmd js sk ask sockets name ttl yes) = ?first # snd ?loop"
    by (auto simp: invite_cmd_def split: sum.splits option.splits)
  with assms(1) obtain pre0 where pre: "pre = ?first # pre0" and loop: "snd ?loop = pre0 @ SendRequest 2 m args # post"
    by (auto simp: Cons_eq_append_conv)
  have k: "k = decisions pre0" using assms(2) by (simp add: pre decisions_def)
  have "k < length (pair_requests js (sk_lines sk)) \<and> answers js ?ad yes k data pre0 m args"
    using consented_loop [of js ?ad yes invite_ui_new "sk_lines sk"] loop assms(3) k
    by (simp add: consented_def invite_ui_new_def)
  then have "k < length (pair_requests js (sk_lines sk))" and "answers js ?ad yes k data ([?first] @ pre0) m args"
    by (blast, blast intro: answers_append)
  then show ?thesis
    unfolding answers_def assms(4) pre by (simp cong: if_cong split del: if_split)
qed

definition witness_json :: "string json_lib" where
  "witness_json = \<lparr>jl_render = (\<lambda>_ _ _. []),
     jl_reply = (\<lambda>_. Inr \<lparr>rp_id = 1, rp_result = None, rp_error = None, rp_event = Some ''pair_request'', rp_data = Some []\<rparr>),
     jl_null = [], jl_get = (\<lambda>_ k. Some k), jl_as_str = (\<lambda>k. Some (if k = ''node_id'' then hex [7, 8] else k)),
     jl_as_bool = (\<lambda>_. None), jl_as_u64 = (\<lambda>_. None), jl_show = id, jl_pretty = id\<rparr>"

definition witness_socket :: "ipc_lines \<Rightarrow> socket_io" where
  "witness_socket ls = \<lparr>sk_connect = (\<lambda>_. None), sk_send = (\<lambda>_. None), sk_lines = ls\<rparr>"

theorem decision_needs_consent_witness:
  "\<exists>shown. grouped_node_id (hex [7, 8]) = Some shown
     \<and> snd (invite_cmd witness_json (witness_socket [Inr ''x'']) (\<lambda>k node. if k = 0 \<and> node = hex [7, 8] then Inr True else Inl ''no'')
           [''s''] ''n'' None False) =
       [SendRequest 1 ''peer.invite'' [(''name'', ArgStr ''n''), (''ttl'', ArgOptNat None)],
        Println ''Pairing request from client:'', Println (''  '' @ shown), Asked True,
        SendRequest 2 ''peer.invite.decide'' [(''invite_id'', ArgStr ''invite_id''), (''accept'', ArgBool True)]]"
proof -
  let ?ask = "\<lambda>k node. if k = 0 \<and> node = hex [7, 8] then Inr True else Inl ''no'' :: (string, bool) result"
  let ?first = "SendRequest 1 ''peer.invite'' [(''name'', ArgStr ''n''), (''ttl'', ArgOptNat None)]"
  have eq: "snd (invite_cmd witness_json (witness_socket [Inr ''x'']) ?ask [''s''] ''n'' None False) =
      [?first, Println ''Pairing request from client:'', Println (''  '' @ grouped_hex [7, 8]), Asked True]
      @ SendRequest 2 ''peer.invite.decide'' [(''invite_id'', ArgStr ''invite_id''), (''accept'', ArgBool True)] # []"
    by (simp add: invite_cmd_def witness_socket_def ipc_connect_def witness_json_def map_err_def on_reply_def
        on_event_def on_pair_request_def get_str_def grouped_node_id_hex prompt_y_n_def invite_ui_new_def Let_def
        del: hex_Cons hex_Nil)
  have "get_str witness_json (pair_requests witness_json (sk_lines (witness_socket [Inr ''x''])) ! 0) ''node_id'' = Some (hex [7, 8])"
    by (simp add: pair_requests_def request_data_def witness_socket_def witness_json_def map_err_def get_str_def del: hex_Cons hex_Nil)
  with decision_needs_consent [OF eq HOL.refl HOL.refl HOL.refl] show ?thesis
    unfolding eq by (auto simp del: hex_Cons hex_Nil)
qed

text \<open>The command ends well only on the result of its own request, with one of the three statuses.\<close>

lemma invite_loop_ok:
  assumes "fst (invite_loop js ad yes ls ui) = InviteOk"
  shows "\<exists>l \<in> set ls. \<exists>r v. conn_reply js l = Inr r \<and> rp_id r = 1 \<and> rp_error r = None \<and> rp_result r = Some v
     \<and> get_str js v ''status'' \<in> {Some ''paired'', Some ''rejected'', Some ''expired''}"
  using assms
proof (induction js ad yes ls ui rule: invite_loop.induct)
  case (2 js ad yes l ls ui)
  then obtain r where r: "conn_reply js l = Inr r" by (cases "conn_reply js l") auto
  obtain stop out ui' where o: "on_reply js ad yes r ui = (stop, out, ui')" by (cases "on_reply js ad yes r ui")
  show ?case
  proof (cases stop)
    case None
    with 2 r o show ?thesis by auto
  next
    case (Some x)
    with 2(2) r o have "x = InviteOk" by simp
    with on_reply_ok [of js ad yes r ui] o Some r show ?thesis by auto
  qed
qed simp

text \<open>A request succeeds only with the result of the daemon's reply to it.\<close>

lemma await_reply_ok:
  "await_reply js ls = Inr v \<Longrightarrow>
     \<exists>l \<in> set ls. \<exists>r. conn_reply js l = Inr r \<and> rp_id r = 1 \<and> rp_error r = None \<and> rp_result r = Some v"
  by (induction js ls rule: await_reply.induct) (auto split: sum.splits if_splits option.splits)

end
