(* ===== verification/Status_Table.thy ===== *)
theory Status_Table
  imports Ipc_Proto
begin

text \<open>
  The table \<open>tmite admin status\<close> prints, from \<open>tmite/src/main.rs\<close>: one block of lines per
  peer, with the forwards it announced and the transport paths of its connection.  Widths count
  characters, not bytes.
\<close>

section \<open>Characters\<close>

definition ARROW :: string where
  "ARROW = [CHR 0xE2, CHR 0x86, CHR 0x92]"

definition ELLIPSIS :: string where
  "ELLIPSIS = [CHR 0xE2, CHR 0x80, CHR 0xA6]"

definition FILLED_DOT :: string where
  "FILLED_DOT = [CHR 0xE2, CHR 0x97, CHR 0x8F]"

definition EMPTY_DOT :: string where
  "EMPTY_DOT = [CHR 0xE2, CHR 0x97, CHR 0x8B]"

abbreviation is_cont :: "char \<Rightarrow> bool" where
  "is_cont c \<equiv> utf8_cont (code_of c)"

text \<open>\<open>chars().take(n)\<close>: continuation bytes go with the character before them.\<close>

fun char_take :: "nat \<Rightarrow> string \<Rightarrow> string" where
  "char_take n [] = []"
| "char_take n (c # cs) =
     (if is_cont c then c # char_take n cs
      else (case n of 0 \<Rightarrow> [] | Suc m \<Rightarrow> c # char_take m cs))"

text \<open>The formatting directive \<open>{:<w$}\<close>.\<close>

definition fmt_left :: "nat \<Rightarrow> string \<Rightarrow> string" where
  "fmt_left w s = s @ replicate (w - char_count s) (CHR '' '')"

section \<open>Rows\<close>

record status_row =
  sw_name :: string
  sw_node_id :: string
  sw_proxies :: "string list"
  sw_state :: "string list"

definition short_node_id8 :: "string \<Rightarrow> string" where
  "short_node_id8 node_id = char_take 8 node_id @ (if char_count node_id > 8 then ELLIPSIS else [])"

definition proxy_line :: "forward_info \<Rightarrow> string" where
  "proxy_line f =
     (if fi_live f > 0 then fi_local f @ '' '' @ ARROW @ '' '' @ fi_target f @ '' ('' @ show_nat (fi_live f) @ '')''
      else fi_local f @ '' '' @ ARROW @ '' '' @ fi_target f)"

definition state_line :: "path_info \<Rightarrow> string" where
  "state_line path =
     (let kind = (case pa_kind path of Direct \<Rightarrow> ''direct'' | Relay \<Rightarrow> ''relay'');
          addr = (case pa_addr path of Some addr \<Rightarrow> '' '' @ addr | None \<Rightarrow> []);
          rtt = (case pa_rtt_ms path of Some ms \<Rightarrow> '' ('' @ show_nat ms @ ''ms)'' | None \<Rightarrow> []);
          mark = (if pa_selected path then FILLED_DOT else EMPTY_DOT)
      in mark @ '' '' @ kind @ addr @ rtt)"

definition status_row_of :: "peer_session_info \<Rightarrow> status_row" where
  "status_row_of p =
     \<lparr>sw_name = psi_name p, sw_node_id = short_node_id8 (psi_node_id p),
      sw_proxies = (case psi_session p of
                      Some s \<Rightarrow> if si_forwards s \<noteq> [] then map proxy_line (si_forwards s) else [''-'']
                    | None \<Rightarrow> [''-'']),
      sw_state = (case psi_session p of
                    Some s \<Rightarrow> if si_paths s \<noteq> [] then map state_line (si_paths s) else [''-'']
                  | None \<Rightarrow> [''-''])\<rparr>"

section \<open>The table\<close>

definition line_or_dash :: "string list \<Rightarrow> nat \<Rightarrow> string" where
  "line_or_dash ls i = (if i < length ls then ls ! i else [])"

definition pad :: "string \<Rightarrow> nat \<Rightarrow> string" where
  "pad s width =
     (let len = char_count s in if len \<ge> width then s else s @ replicate (width - len) (CHR '' ''))"

definition col_width :: "string list \<Rightarrow> string \<Rightarrow> nat" where
  "col_width cells title = fold max (map char_count cells) (length title)"

definition row_lines :: "nat \<Rightarrow> nat \<Rightarrow> nat \<Rightarrow> status_row \<Rightarrow> string list" where
  "row_lines name_w node_w proxy_w row =
     map (\<lambda>i. fmt_left name_w (if i = 0 then sw_name row else []) @ ''  ''
             @ fmt_left node_w (if i = 0 then sw_node_id row else []) @ ''  ''
             @ fmt_left proxy_w (pad (line_or_dash (sw_proxies row) i) proxy_w) @ ''  ''
             @ line_or_dash (sw_state row) i)
       [0 ..< max (length (sw_proxies row)) (length (sw_state row))]"

definition print_sessions_table :: "sessions_result \<Rightarrow> string list" where
  "print_sessions_table result =
     (let rows = map status_row_of (ssr_peers result) in
      if rows = [] then [''no peers paired'']
      else
        (let name_w = col_width (map sw_name rows) ''NAME'';
             node_w = col_width (map sw_node_id rows) ''NODE ID'';
             proxy_w = col_width (concat (map sw_proxies rows)) ''PROXIES''
         in (fmt_left name_w ''NAME'' @ ''  '' @ fmt_left node_w ''NODE ID'' @ ''  '' @ fmt_left proxy_w ''PROXIES'' @ ''  STATE'')
            # concat (map (row_lines name_w node_w proxy_w) rows)))"

section \<open>Laws\<close>

lemma char_count_simps [simp]:
  "char_count [] = 0" "char_count (a @ b) = char_count a + char_count b"
  "char_count (c # s) = (if is_cont c then 0 else 1) + char_count s"
  by (simp_all add: char_count_def)

lemma char_count_spaces [simp]: "char_count (replicate n (CHR '' '')) = n"
  by (induction n) (simp_all add: utf8_cont_def)

lemma char_take_prefix: "\<exists>r. s = char_take n s @ r"
proof (induction s arbitrary: n)
  case (Cons c s)
  show ?case
  proof (cases "is_cont c")
    case True
    from Cons [of n] obtain r where "s = char_take n s @ r" ..
    with True show ?thesis by auto
  next
    case False
    show ?thesis
    proof (cases n)
      case (Suc m)
      from Cons [of m] obtain r where "s = char_take m s @ r" ..
      with False Suc show ?thesis by auto
    qed (use False in simp)
  qed
qed simp

lemma char_count_take: "char_count (char_take n s) = min n (char_count s)"
  by (induction n s rule: char_take.induct) (auto split: nat.split)

lemma char_take_all: "char_count s \<le> n \<Longrightarrow> char_take n s = s"
proof (induction n s rule: char_take.induct)
  case (2 n c cs)
  then show ?case by (cases n) (auto split: if_splits)
qed simp

lemma pad_fmt_left: "pad s w = fmt_left w s"
  by (simp add: pad_def fmt_left_def Let_def)

lemma char_count_fmt_left: "char_count (fmt_left w s) = max w (char_count s)"
  by (simp add: fmt_left_def)

lemma fold_max_ge:
  "(acc :: nat) \<le> fold max ns acc" "n \<in> set ns \<Longrightarrow> n \<le> fold max ns acc"
  by (induction ns arbitrary: acc n) (auto intro: order_trans [OF max.cobounded2] order_trans [OF max.cobounded1])

lemma col_width_ge:
  "length title \<le> col_width cells title" "c \<in> set cells \<Longrightarrow> char_count c \<le> col_width cells title"
  using fold_max_ge by (auto simp: col_width_def)

lemma char_count_title:
  "char_count title = length title \<Longrightarrow> char_count (fmt_left (col_width cells title) title) = col_width cells title"
  by (simp add: char_count_fmt_left col_width_ge(1) max_absorb1)

lemma char_count_line: "\<forall>l \<in> set ls. char_count l \<le> w \<Longrightarrow> char_count (line_or_dash ls i) \<le> w"
  by (simp add: line_or_dash_def)

text \<open>Every line of a row is its state column behind a prefix of one fixed width.\<close>

lemma row_lines_aligned:
  assumes "char_count (sw_name row) \<le> nw" "char_count (sw_node_id row) \<le> dw"
    and "\<forall>l \<in> set (sw_proxies row). char_count l \<le> pw" and "line \<in> set (row_lines nw dw pw row)"
  shows "\<exists>pre i. line = pre @ line_or_dash (sw_state row) i \<and> char_count pre = nw + dw + pw + 6"
proof -
  from assms(4) obtain i where line: "line = (fmt_left nw (if i = 0 then sw_name row else []) @ ''  ''
      @ fmt_left dw (if i = 0 then sw_node_id row else []) @ ''  ''
      @ fmt_left pw (pad (line_or_dash (sw_proxies row) i) pw) @ ''  '') @ line_or_dash (sw_state row) i"
    by (auto simp: row_lines_def)
  show ?thesis
    by (rule exI, rule exI, rule conjI, rule line)
       (use assms char_count_line [OF assms(3), of i] in \<open>auto simp: char_count_fmt_left pad_fmt_left utf8_cont_def max_def\<close>)
qed

lemma row_lines_complete:
  "i < length (sw_proxies row) \<Longrightarrow> \<exists>line \<in> set (row_lines nw dw pw row). \<exists>pre post. line = pre @ sw_proxies row ! i @ post"
  "i < length (sw_state row) \<Longrightarrow> \<exists>line \<in> set (row_lines nw dw pw row). \<exists>pre. line = pre @ sw_state row ! i"
proof -
  let ?line = "\<lambda>i. fmt_left nw (if i = 0 then sw_name row else []) @ ''  ''
      @ fmt_left dw (if i = 0 then sw_node_id row else []) @ ''  ''
      @ fmt_left pw (pad (line_or_dash (sw_proxies row) i) pw) @ ''  '' @ line_or_dash (sw_state row) i"
  show "\<exists>line \<in> set (row_lines nw dw pw row). \<exists>pre post. line = pre @ sw_proxies row ! i @ post" if "i < length (sw_proxies row)"
  proof (rule bexI)
    show "?line i \<in> set (row_lines nw dw pw row)" using that by (auto simp: row_lines_def)
    show "\<exists>pre post. ?line i = pre @ sw_proxies row ! i @ post"
      using that
      by (intro exI [of _ "fmt_left nw (if i = 0 then sw_name row else []) @ ''  ''
            @ fmt_left dw (if i = 0 then sw_node_id row else []) @ ''  ''"]
          exI [of _ "drop (length (sw_proxies row ! i)) (fmt_left pw (pad (sw_proxies row ! i) pw)) @ ''  '' @ line_or_dash (sw_state row) i"])
         (simp add: line_or_dash_def pad_fmt_left fmt_left_def)
  qed
  show "\<exists>line \<in> set (row_lines nw dw pw row). \<exists>pre. line = pre @ sw_state row ! i" if "i < length (sw_state row)"
  proof (rule bexI)
    show "?line i \<in> set (row_lines nw dw pw row)" using that by (auto simp: row_lines_def)
    show "\<exists>pre. ?line i = pre @ sw_state row ! i"
      using that
      by (intro exI [of _ "fmt_left nw (if i = 0 then sw_name row else []) @ ''  ''
            @ fmt_left dw (if i = 0 then sw_node_id row else []) @ ''  ''
            @ fmt_left pw (pad (line_or_dash (sw_proxies row) i) pw) @ ''  ''"]) (simp add: line_or_dash_def)
  qed
qed

section \<open>Properties\<close>

text \<open>The status table is aligned and complete: in every line the state column starts at the same
  character, each peer has as many lines as the longer of its two lists, and no forward and no path
  is left out.\<close>

lemma status_table_aligned:
  assumes "ssr_peers result \<noteq> []"
  shows "(\<exists>w. \<forall>line \<in> set (print_sessions_table result). \<exists>pre cell. line = pre @ cell \<and> char_count pre = w
       \<and> (cell = ''STATE'' \<or> (\<exists>p \<in> set (ssr_peers result). \<exists>i. cell = line_or_dash (sw_state (status_row_of p)) i)))
     \<and> length (print_sessions_table result) =
         1 + sum_list (map (\<lambda>p. max (length (sw_proxies (status_row_of p))) (length (sw_state (status_row_of p)))) (ssr_peers result))
     \<and> (\<forall>p \<in> set (ssr_peers result).
          (\<forall>l \<in> set (sw_proxies (status_row_of p)). \<exists>line \<in> set (print_sessions_table result). \<exists>pre post. line = pre @ l @ post)
          \<and> (\<forall>l \<in> set (sw_state (status_row_of p)). \<exists>line \<in> set (print_sessions_table result). \<exists>pre. line = pre @ l))"
proof -
  let ?rows = "map status_row_of (ssr_peers result)"
  let ?nw = "col_width (map sw_name ?rows) ''NAME''"
  let ?dw = "col_width (map sw_node_id ?rows) ''NODE ID''"
  let ?pw = "col_width (concat (map sw_proxies ?rows)) ''PROXIES''"
  let ?head = "fmt_left ?nw ''NAME'' @ ''  '' @ fmt_left ?dw ''NODE ID'' @ ''  '' @ fmt_left ?pw ''PROXIES'' @ ''  ''"
  have table: "print_sessions_table result = (?head @ ''STATE'') # concat (map (row_lines ?nw ?dw ?pw) ?rows)"
    using assms by (simp add: print_sessions_table_def Let_def)
  have "char_count ?head = ?nw + ?dw + ?pw + 6"
    by (simp add: char_count_title utf8_cont_def)
  moreover have "\<exists>pre i. line = pre @ line_or_dash (sw_state (status_row_of p)) i \<and> char_count pre = ?nw + ?dw + ?pw + 6"
    if "p \<in> set (ssr_peers result)" and "line \<in> set (row_lines ?nw ?dw ?pw (status_row_of p))" for p line
    using that by (intro row_lines_aligned) (auto intro!: col_width_ge(2))
  ultimately have "\<forall>line \<in> set (print_sessions_table result). \<exists>pre cell. line = pre @ cell \<and> char_count pre = ?nw + ?dw + ?pw + 6
       \<and> (cell = ''STATE'' \<or> (\<exists>p \<in> set (ssr_peers result). \<exists>i. cell = line_or_dash (sw_state (status_row_of p)) i))"
    unfolding table by (fastforce simp del: append_assoc append.simps)
  moreover have "length (concat (map (row_lines ?nw ?dw ?pw) ?rows)) =
      sum_list (map (\<lambda>p. max (length (sw_proxies (status_row_of p))) (length (sw_state (status_row_of p)))) (ssr_peers result))"
    by (simp add: length_concat row_lines_def comp_def)
  moreover have "\<exists>line \<in> set (print_sessions_table result). \<exists>pre post. line = pre @ l @ post"
    if "p \<in> set (ssr_peers result)" and "l \<in> set (sw_proxies (status_row_of p))" for p l
    using that row_lines_complete(1) [of _ "status_row_of p" ?nw ?dw ?pw] unfolding table by (fastforce simp: in_set_conv_nth)
  moreover have "\<exists>line \<in> set (print_sessions_table result). \<exists>pre. line = pre @ l"
    if "p \<in> set (ssr_peers result)" and "l \<in> set (sw_state (status_row_of p))" for p l
    using that row_lines_complete(2) [of _ "status_row_of p" ?nw ?dw ?pw] unfolding table by (fastforce simp: in_set_conv_nth)
  ultimately show ?thesis by (intro conjI) (blast, simp add: table, blast)
qed

lemma status_table_aligned_example:
  "length (print_sessions_table \<lparr>ssr_peers = [\<lparr>psi_name = ''a'', psi_node_id = ''ff'', psi_session = None\<rparr>]\<rparr>) = 2"
  using status_table_aligned [of "\<lparr>ssr_peers = [\<lparr>psi_name = ''a'', psi_node_id = ''ff'', psi_session = None\<rparr>]\<rparr>"]
  by (simp add: status_row_of_def)

end
