(* ===== verification/Client_Model.thy ===== *)
theory Client_Model
  imports Rust_Str "HOL-Library.Multiset" "HOL-Library.List_Lexorder" "HOL-Library.Char_ord" "HOL-Library.Product_Lexorder"
begin

text \<open>
  The client's view model, \<open>tmite-core/src/client/model.rs\<close>: what the terminal shows, how events
  change it, and the registry of proxied connections that emits those events.  Counters are 64-bit
  words; ids are issued in order.
\<close>

section \<open>Rows and events\<close>

datatype session_state = Dialing | Established | Reconnecting instant

record session_status =
  sst_state :: session_state
  sst_redials :: u64

record path_row =
  pr_remote_addr :: string
  pr_relay :: bool
  pr_selected :: bool
  pr_rtt :: "duration option"
  pr_tx_bytes :: u64
  pr_rx_bytes :: u64

record forward_row =
  fr_local :: string
  fr_target :: string

record conn_row =
  co_id :: u64
  co_peer :: string
  co_spec :: nat
  co_opened_at :: instant
  co_tx_bytes :: u64
  co_rx_bytes :: u64

datatype ui_event =
    EvServer string string
  | EvSessionState session_status
  | EvForwards "forward_row list"
  | EvStarted
  | EvPaths "path_row list"
  | EvConnectionOpened u64 string nat
  | EvConnectionClosed u64
  | EvConnectionBytes u64 u64 u64
  | EvNotice string

record connect_model =
  cm_server_name :: string
  cm_server_node :: string
  cm_session :: "session_status option"
  cm_started_at :: "instant option"
  cm_paths :: "path_row list"
  cm_forwards :: "forward_row list"
  cm_connections :: "conn_row list"
  cm_closed_total :: u64
  cm_total_tx :: u64
  cm_total_rx :: u64
  cm_status :: "(instant \<times> string) option"

definition connect_model_default :: connect_model where
  "connect_model_default =
     \<lparr>cm_server_name = [], cm_server_node = [], cm_session = None, cm_started_at = None, cm_paths = [],
      cm_forwards = [], cm_connections = [], cm_closed_total = 0, cm_total_tx = 0, cm_total_rx = 0,
      cm_status = None\<rparr>"

text \<open>The order of the paths: the selected one first, direct before relayed, then by address.\<close>

definition path_key :: "path_row \<Rightarrow> bool \<times> bool \<times> string" where
  "path_key p = (\<not> pr_selected p, pr_relay p, pr_remote_addr p)"

fun apply_event :: "instant \<Rightarrow> ui_event \<Rightarrow> connect_model \<Rightarrow> connect_model" where
  "apply_event now (EvServer name node) m = m\<lparr>cm_server_name := name, cm_server_node := node\<rparr>"
| "apply_event now (EvSessionState st) m = m\<lparr>cm_session := Some st\<rparr>"
| "apply_event now (EvForwards fs) m = m\<lparr>cm_forwards := fs\<rparr>"
| "apply_event now EvStarted m = m\<lparr>cm_started_at := Some now\<rparr>"
| "apply_event now (EvPaths ps) m = m\<lparr>cm_paths := sort_key path_key ps\<rparr>"
| "apply_event now (EvConnectionOpened i peer spec) m =
     (if spec < length (cm_forwards m)
      then m\<lparr>cm_connections := cm_connections m @
               [\<lparr>co_id = i, co_peer = peer, co_spec = spec, co_opened_at = now, co_tx_bytes = 0, co_rx_bytes = 0\<rparr>]\<rparr>
      else m)"
| "apply_event now (EvConnectionBytes i tx rx) m =
     m\<lparr>cm_connections := update_first (\<lambda>c. co_id c = i) (\<lambda>c. c\<lparr>co_tx_bytes := tx, co_rx_bytes := rx\<rparr>) (cm_connections m)\<rparr>"
| "apply_event now (EvConnectionClosed i) m =
     (let m' = (case List.find (\<lambda>c. co_id c = i) (cm_connections m) of
                  Some row \<Rightarrow> m\<lparr>cm_total_tx := cm_total_tx m + co_tx_bytes row,
                                cm_total_rx := cm_total_rx m + co_rx_bytes row\<rparr>
                | None \<Rightarrow> m)
      in m'\<lparr>cm_connections := filter (\<lambda>c. co_id c \<noteq> i) (cm_connections m'),
            cm_closed_total := cm_closed_total m' + 1\<rparr>)"
| "apply_event now (EvNotice msg) m = m\<lparr>cm_status := Some (now, msg)\<rparr>"

text \<open>Bumping the counter of a forward, out-of-range indices ignored.\<close>

definition bump :: "nat list \<Rightarrow> nat \<Rightarrow> nat list" where
  "bump counts i = (if i < length counts then counts[i := Suc (counts ! i)] else counts)"

definition active_per_forward :: "connect_model \<Rightarrow> nat list" where
  "active_per_forward m =
     foldl (\<lambda>counts c. bump counts (co_spec c)) (replicate (length (cm_forwards m)) 0) (cm_connections m)"

section \<open>The registry of connections\<close>

record conn_handle =
  ch_id :: u64
  ch_spec :: nat
  ch_peer :: string
  ch_tx :: u64
  ch_rx :: u64
  ch_started :: bool

text \<open>The handles in the map, and the events sent so far.\<close>

record conn_registry =
  cr_next_id :: u64
  cr_conns :: "(u64 \<times> conn_handle) list"
  cr_events :: "ui_event list"

definition registry_new :: conn_registry where
  "registry_new = \<lparr>cr_next_id = 0, cr_conns = [], cr_events = []\<rparr>"

definition registry_create :: "nat \<Rightarrow> string \<Rightarrow> conn_registry \<Rightarrow> u64 \<times> conn_registry" where
  "registry_create spec peer reg =
     (let i = cr_next_id reg in
      (i, reg\<lparr>cr_next_id := i + 1,
              cr_conns := hm_insert i \<lparr>ch_id = i, ch_spec = spec, ch_peer = peer, ch_tx = 0, ch_rx = 0, ch_started = False\<rparr>
                            (cr_conns reg)\<rparr>))"

definition registry_admit :: "u64 \<Rightarrow> conn_registry \<Rightarrow> conn_registry" where
  "registry_admit i reg =
     (case map_of (cr_conns reg) i of
        Some h \<Rightarrow>
          if ch_started h then reg
          else reg\<lparr>cr_conns := hm_insert i (h\<lparr>ch_started := True\<rparr>) (cr_conns reg),
                   cr_events := cr_events reg @ [EvConnectionOpened (ch_id h) (ch_peer h) (ch_spec h)]\<rparr>
      | None \<Rightarrow> reg)"

definition registry_close :: "u64 \<Rightarrow> conn_registry \<Rightarrow> conn_registry" where
  "registry_close i reg =
     (if map_of (cr_conns reg) i = None then reg
      else reg\<lparr>cr_conns := hm_remove i (cr_conns reg), cr_events := cr_events reg @ [EvConnectionClosed i]\<rparr>)"

definition registry_snapshot :: "conn_registry \<Rightarrow> (u64 \<times> u64 \<times> u64) list" where
  "registry_snapshot reg =
     map (\<lambda>(_, h). (ch_id h, ch_tx h, ch_rx h)) (filter (\<lambda>(_, h). ch_started h) (cr_conns reg))"

text \<open>The life of proxied connections: each is created, possibly admitted, and closed, in any
  interleaving.\<close>

datatype registry_op = RegCreate nat string | RegAdmit u64 | RegClose u64

fun registry_step :: "registry_op \<Rightarrow> conn_registry \<Rightarrow> conn_registry" where
  "registry_step (RegCreate spec peer) reg = snd (registry_create spec peer reg)"
| "registry_step (RegAdmit i) reg = registry_admit i reg"
| "registry_step (RegClose i) reg = registry_close i reg"

abbreviation replay :: "instant \<Rightarrow> ui_event list \<Rightarrow> connect_model \<Rightarrow> connect_model" where
  "replay now evs m \<equiv> fold (apply_event now) evs m"

section \<open>Laws\<close>

lemma sum_list_bump: "i < length cs \<Longrightarrow> sum_list (bump cs i) = Suc (sum_list cs)"
  by (induction cs arbitrary: i) (auto simp: bump_def nth_Cons split: nat.splits)

lemma length_bump [simp]: "length (bump cs i) = length cs"
  by (simp add: bump_def)

lemma sum_list_active:
  "\<forall>c \<in> set conns. co_spec c < length counts \<Longrightarrow>
     sum_list (foldl (\<lambda>counts c. bump counts (co_spec c)) counts conns) = sum_list counts + length conns"
  by (induction conns arbitrary: counts) (simp_all add: sum_list_bump)

lemma nth_active:
  "i < length counts \<Longrightarrow>
     foldl (\<lambda>counts c. bump counts (co_spec c)) counts conns ! i
       = counts ! i + length (filter (\<lambda>c. co_spec c = i) conns)"
  by (induction conns arbitrary: counts) (auto simp: bump_def nth_list_update)

text \<open>The registry and the model that has seen its events agree.\<close>

definition mirrors :: "conn_registry \<Rightarrow> connect_model \<Rightarrow> bool" where
  "mirrors reg m =
     (hm_wf (cr_conns reg)
      \<and> (\<forall>i h. map_of (cr_conns reg) i = Some h \<longrightarrow> ch_id h = i)
      \<and> distinct (map co_id (cm_connections m))
      \<and> (\<forall>i. i \<in> set (map co_id (cm_connections m)) \<longleftrightarrow> (\<exists>h. map_of (cr_conns reg) i = Some h \<and> ch_started h)))"

text \<open>Ids do not wrap while fewer than 2^64 connections are made: the next one is not in the map.\<close>

definition fresh_next :: "conn_registry \<Rightarrow> bool" where
  "fresh_next reg = (map_of (cr_conns reg) (cr_next_id reg) = None)"

lemma mirrors_create:
  assumes "mirrors reg m" and "fresh_next reg"
  shows "mirrors (snd (registry_create spec peer reg)) m"
  using assms by (auto simp: mirrors_def registry_create_def Let_def fresh_next_def hm_wf_insert)

lemma mirrors_admit:
  assumes "mirrors reg m" and spec: "\<And>i h. map_of (cr_conns reg) i = Some h \<Longrightarrow> ch_spec h < length (cm_forwards m)"
  shows "\<exists>evs. cr_events (registry_admit i reg) = cr_events reg @ evs \<and> mirrors (registry_admit i reg) (replay now evs m)
    \<and> cm_forwards (replay now evs m) = cm_forwards m"
proof (cases "map_of (cr_conns reg) i")
  case None
  with assms(1) show ?thesis by (auto simp: registry_admit_def intro: exI [of _ "[]"])
next
  case (Some h)
  show ?thesis
  proof (cases "ch_started h")
    case True
    with Some assms(1) show ?thesis by (auto simp: registry_admit_def intro: exI [of _ "[]"])
  next
    case False
    have id: "ch_id h = i" using assms(1) Some by (simp add: mirrors_def)
    have new: "i \<notin> co_id ` set (cm_connections m)" using assms(1) Some False by (auto simp: mirrors_def)
    with Some False assms(1) spec [OF Some] id show ?thesis
      by (intro exI [of _ "[EvConnectionOpened (ch_id h) (ch_peer h) (ch_spec h)]"])
         (auto simp: registry_admit_def mirrors_def hm_wf_insert)
  qed
qed

lemma closed_connections [simp]:
  "cm_connections (apply_event now (EvConnectionClosed i) m) = filter (\<lambda>c. co_id c \<noteq> i) (cm_connections m)"
  "cm_forwards (apply_event now (EvConnectionClosed i) m) = cm_forwards m"
  by (simp_all add: Let_def split: option.split)

lemma mirrors_close:
  assumes "mirrors reg m"
  shows "\<exists>evs. cr_events (registry_close i reg) = cr_events reg @ evs \<and> mirrors (registry_close i reg) (replay now evs m)
    \<and> cm_forwards (replay now evs m) = cm_forwards m"
proof (cases "map_of (cr_conns reg) i = None")
  case True
  with assms show ?thesis by (auto simp: registry_close_def intro: exI [of _ "[]"])
next
  case False
  have "mirrors (registry_close i reg) (apply_event now (EvConnectionClosed i) m)"
    using assms False
    by (auto simp: mirrors_def registry_close_def hm_wf_remove distinct_map_filter simp del: apply_event.simps)
  with False show ?thesis
    by (intro exI [of _ "[EvConnectionClosed i]"]) (simp add: registry_close_def del: apply_event.simps)
qed

fun registry_ops_ok :: "nat \<Rightarrow> registry_op list \<Rightarrow> conn_registry \<Rightarrow> bool" where
  "registry_ops_ok n [] reg = True"
| "registry_ops_ok n (op # ops) reg =
     ((case op of RegCreate spec peer \<Rightarrow> spec < n \<and> fresh_next reg | _ \<Rightarrow> True)
      \<and> registry_ops_ok n ops (registry_step op reg))"

definition registry_inv :: "instant \<Rightarrow> connect_model \<Rightarrow> conn_registry \<Rightarrow> bool" where
  "registry_inv now m0 reg =
     (mirrors reg (replay now (cr_events reg) m0)
      \<and> cm_forwards (replay now (cr_events reg) m0) = cm_forwards m0
      \<and> (\<forall>i h. map_of (cr_conns reg) i = Some h \<longrightarrow> ch_spec h < length (cm_forwards m0)))"

lemma registry_inv_create:
  assumes "registry_inv now m0 reg" and "spec < length (cm_forwards m0)" and "fresh_next reg"
  shows "registry_inv now m0 (snd (registry_create spec peer reg))"
  using assms mirrors_create [of reg "replay now (cr_events reg) m0" spec peer]
  by (auto simp: registry_inv_def registry_create_def Let_def)

lemma registry_inv_admit:
  assumes "registry_inv now m0 reg"
  shows "registry_inv now m0 (registry_admit i reg)"
proof -
  obtain evs where "cr_events (registry_admit i reg) = cr_events reg @ evs"
    and "mirrors (registry_admit i reg) (replay now evs (replay now (cr_events reg) m0))"
    and "cm_forwards (replay now evs (replay now (cr_events reg) m0)) = cm_forwards m0"
    using assms mirrors_admit [of reg "replay now (cr_events reg) m0" i now] unfolding registry_inv_def by auto
  moreover have "ch_spec h < length (cm_forwards m0)" if "map_of (cr_conns (registry_admit i reg)) j = Some h" for j h
    using that assms by (auto simp: registry_inv_def registry_admit_def split: option.splits if_splits)
  ultimately show ?thesis by (simp add: registry_inv_def)
qed

lemma registry_inv_close:
  assumes "registry_inv now m0 reg"
  shows "registry_inv now m0 (registry_close i reg)"
proof -
  obtain evs where "cr_events (registry_close i reg) = cr_events reg @ evs"
    and "mirrors (registry_close i reg) (replay now evs (replay now (cr_events reg) m0))"
    and "cm_forwards (replay now evs (replay now (cr_events reg) m0)) = cm_forwards m0"
    using assms mirrors_close [of reg "replay now (cr_events reg) m0" i now] unfolding registry_inv_def by auto
  moreover have "ch_spec h < length (cm_forwards m0)" if "map_of (cr_conns (registry_close i reg)) j = Some h" for j h
    using that assms by (auto simp: registry_inv_def registry_close_def split: if_splits)
  ultimately show ?thesis by (simp add: registry_inv_def)
qed

lemma registry_inv_run:
  "registry_inv now m0 reg \<Longrightarrow> registry_ops_ok (length (cm_forwards m0)) ops reg \<Longrightarrow>
     registry_inv now m0 (fold registry_step ops reg)"
proof (induction ops arbitrary: reg)
  case (Cons op ops)
  then show ?case
    by (cases op) (simp_all add: registry_inv_create registry_inv_admit registry_inv_close)
qed simp

section \<open>Properties\<close>

text \<open>The terminal shows what the registry holds: after any interleaving of connections that are
  accepted, admitted and closed, the model that has applied the emitted events lists exactly the
  admitted connections that are still open, each once.\<close>

lemma model_mirrors_registry:
  assumes "cm_connections m0 = []" and "registry_ops_ok (length (cm_forwards m0)) ops registry_new"
  shows "let reg = fold registry_step ops registry_new; m = fold (apply_event now) (cr_events reg) m0 in
     distinct (map co_id (cm_connections m))
     \<and> (\<forall>i. i \<in> set (map co_id (cm_connections m)) \<longleftrightarrow> (\<exists>h. map_of (cr_conns reg) i = Some h \<and> ch_started h))"
proof -
  have "registry_inv now m0 registry_new"
    using assms(1) by (simp add: registry_inv_def registry_new_def mirrors_def)
  from registry_inv_run [OF this assms(2)] show ?thesis
    by (simp add: registry_inv_def mirrors_def Let_def)
qed

lemma model_mirrors_registry_example:
  "let reg = fold registry_step [RegCreate 0 ''p'', RegAdmit 0] registry_new;
       m0 = connect_model_default\<lparr>cm_forwards := [\<lparr>fr_local = ''l'', fr_target = ''t''\<rparr>]\<rparr>
   in distinct (map co_id (cm_connections (fold (apply_event 0) (cr_events reg) m0)))"
  using model_mirrors_registry
    [of "connect_model_default\<lparr>cm_forwards := [\<lparr>fr_local = ''l'', fr_target = ''t''\<rparr>]\<rparr>"
        "[RegCreate 0 ''p'', RegAdmit 0]" 0]
  unfolding Let_def by (simp add: connect_model_default_def registry_new_def fresh_next_def)

text \<open>The counts per forward add up: if every listed connection belongs to a configured forward, the
  entry of a forward is the number of its connections and the entries sum to the number of all
  connections.\<close>

lemma active_per_forward_exact:
  assumes "\<forall>c \<in> set (cm_connections m). co_spec c < length (cm_forwards m)"
  shows "sum_list (active_per_forward m) = length (cm_connections m)
    \<and> (i < length (cm_forwards m) \<longrightarrow>
         active_per_forward m ! i = length (filter (\<lambda>c. co_spec c = i) (cm_connections m)))"
  using assms sum_list_active [of "cm_connections m" "replicate (length (cm_forwards m)) 0"]
    nth_active [of i "replicate (length (cm_forwards m)) 0" "cm_connections m"]
  by (simp add: active_per_forward_def sum_list_replicate)

text \<open>A path snapshot replaces the list with the same paths in order: the selected one first, direct
  paths before relayed ones, and then by address.\<close>

lemma paths_sorted:
  "mset (cm_paths (apply_event now (EvPaths ps) m)) = mset ps
   \<and> sorted_wrt (\<lambda>a b. (pr_selected a \<or> \<not> pr_selected b)
        \<and> (pr_selected a = pr_selected b \<longrightarrow> (\<not> pr_relay a \<or> pr_relay b)
             \<and> (pr_relay a = pr_relay b \<longrightarrow> pr_remote_addr a \<le> pr_remote_addr b)))
       (cm_paths (apply_event now (EvPaths ps) m))"
proof -
  have "sorted (map path_key (sort_key path_key ps))" by simp
  then have "sorted_wrt (\<lambda>a b. path_key a \<le> path_key b) (sort_key path_key ps)" by (simp add: sorted_map)
  then have "sorted_wrt (\<lambda>a b. (pr_selected a \<or> \<not> pr_selected b)
        \<and> (pr_selected a = pr_selected b \<longrightarrow> (\<not> pr_relay a \<or> pr_relay b)
             \<and> (pr_relay a = pr_relay b \<longrightarrow> pr_remote_addr a \<le> pr_remote_addr b))) (sort_key path_key ps)"
    by (rule sorted_wrt_mono_rel [rotated]) (auto simp: path_key_def less_eq_prod_def less_prod_def)
  then show ?thesis by simp
qed

end
