(* ===== verification/Frame.thy ===== *)
theory Frame
  imports Proto_Limits
begin

text \<open>
  The wire format of \<open>tmite-proto/src/frame.rs\<close> and its stream reader and writer,
  \<open>tmite-core/src/stream_io.rs\<close>: a control frame is one type byte, a big-endian 32-bit length
  and the payload.  Serialisation of payloads is \<open>serde_json\<close>, which is not part of the
  repository: it is a pair of functions that the definitions take as arguments.
\<close>

section \<open>Frames\<close>

type_synonym json_error = string

datatype frame_error =
    TooLarge nat nat
  | InvalidPayload json_error
  | InvalidHeader
  | UnexpectedType u8

text \<open>\<open>u32::to_be_bytes\<close> and \<open>u32::from_be_bytes\<close>.\<close>

definition u32_to_be_bytes :: "u32 \<Rightarrow> bytes" where
  "u32_to_be_bytes w =
     [word_of_nat (unat w div 16777216), word_of_nat (unat w div 65536),
      word_of_nat (unat w div 256), word_of_nat (unat w)]"

definition u32_from_be_bytes :: "u8 \<Rightarrow> u8 \<Rightarrow> u8 \<Rightarrow> u8 \<Rightarrow> u32" where
  "u32_from_be_bytes a b c d =
     word_of_nat (unat a * 16777216 + unat b * 65536 + unat c * 256 + unat d)"

definition frame_bytes :: "u8 \<Rightarrow> bytes \<Rightarrow> (frame_error, bytes) result" where
  "frame_bytes msg_type payload =
     (if length payload > MAX_CONTROL_FRAME
      then Inl (TooLarge (length payload) MAX_CONTROL_FRAME)
      else Inr (msg_type # u32_to_be_bytes (word_of_nat (length payload)) @ payload))"

definition encode_frame ::
  "('a \<Rightarrow> (json_error, bytes) result) \<Rightarrow> u8 \<Rightarrow> 'a \<Rightarrow> (frame_error, bytes) result" where
  "encode_frame to_vec msg_type payload =
     (case to_vec payload of
        Inl e \<Rightarrow> Inl (InvalidPayload e)
      | Inr json \<Rightarrow> frame_bytes msg_type json)"

record parsed_frame =
  pf_msg_type :: u8
  pf_payload :: bytes

definition parse_frame :: "bytes \<Rightarrow> (frame_error, parsed_frame) result" where
  "parse_frame buf =
     (case buf of
        t # b1 # b2 # b3 # b4 # rest \<Rightarrow>
          (let len = unat (u32_from_be_bytes b1 b2 b3 b4) in
           if len > MAX_CONTROL_FRAME then Inl (TooLarge len MAX_CONTROL_FRAME)
           else if length buf \<noteq> 5 + len then Inl InvalidHeader
           else Inr \<lparr>pf_msg_type = t, pf_payload = rest\<rparr>)
      | _ \<Rightarrow> Inl InvalidHeader)"

definition decode_payload ::
  "(bytes \<Rightarrow> (json_error, 'a) result) \<Rightarrow> bytes \<Rightarrow> (frame_error, 'a) result" where
  "decode_payload from_slice payload = map_err InvalidPayload (from_slice payload)"

definition max_frame_len :: nat where
  "max_frame_len = 5 + MAX_CONTROL_FRAME"

subsection \<open>Pairing frames\<close>

definition TYPE_VERSION :: u8 where "TYPE_VERSION = 0x01"
definition TYPE_PAIR_HELLO :: u8 where "TYPE_PAIR_HELLO = 0x02"
definition TYPE_PAIR_WAIT :: u8 where "TYPE_PAIR_WAIT = 0x03"
definition TYPE_PAIR_CONFIRM :: u8 where "TYPE_PAIR_CONFIRM = 0x04"
definition TYPE_PAIR_DENY :: u8 where "TYPE_PAIR_DENY = 0x05"

datatype pair_deny_reason = NameTaken | AdminDenied | Expired | ServerError | Busy

datatype pairing_frame =
    Version u16
  | PairHello string
  | PairWait
  | PairConfirm bytes string
  | PairDeny pair_deny_reason

fun pairing_msg_type :: "pairing_frame \<Rightarrow> u8" where
  "pairing_msg_type (Version _) = TYPE_VERSION"
| "pairing_msg_type (PairHello _) = TYPE_PAIR_HELLO"
| "pairing_msg_type PairWait = TYPE_PAIR_WAIT"
| "pairing_msg_type (PairConfirm _ _) = TYPE_PAIR_CONFIRM"
| "pairing_msg_type (PairDeny _) = TYPE_PAIR_DENY"

subsection \<open>Data frames\<close>

definition TYPE_FORWARD :: u8 where "TYPE_FORWARD = 0x01"
definition TYPE_OK :: u8 where "TYPE_OK = 0x02"
definition TYPE_DENY :: u8 where "TYPE_DENY = 0x03"
definition TYPE_VALIDATE :: u8 where "TYPE_VALIDATE = 0x04"
definition TYPE_SESSION :: u8 where "TYPE_SESSION = 0x05"

lemmas type_defs =
  TYPE_VERSION_def TYPE_PAIR_HELLO_def TYPE_PAIR_WAIT_def TYPE_PAIR_CONFIRM_def TYPE_PAIR_DENY_def
  TYPE_FORWARD_def TYPE_OK_def TYPE_DENY_def TYPE_VALIDATE_def TYPE_SESSION_def

datatype data_deny_reason =
    Unauthorized
  | TargetUnreachable string
  | DataServerError

record session_forward =
  sf_local :: string
  sf_target :: string

datatype data_frame =
    Forward string
  | Validate string
  | DataOk
  | Deny data_deny_reason
  | Session "session_forward list"

fun data_msg_type :: "data_frame \<Rightarrow> u8" where
  "data_msg_type (Forward _) = TYPE_FORWARD"
| "data_msg_type (Validate _) = TYPE_VALIDATE"
| "data_msg_type DataOk = TYPE_OK"
| "data_msg_type (Deny _) = TYPE_DENY"
| "data_msg_type (Session _) = TYPE_SESSION"

section \<open>Reading and writing frames on a stream\<close>

datatype frame_io_error =
    IoTimeout
  | IoEof
  | IoFrame frame_error
  | IoError string

text \<open>
  A receive stream: the bytes that arrive before the deadline, and what a read past them meets:
  the transport's error (a finished or reset stream), or nothing, in which case the read is still
  pending when the deadline passes.
\<close>

record recv_stream =
  rs_data :: bytes
  rs_end :: "string option"

datatype 'a poll = Ready 'a | Pending

definition read_exact :: "nat \<Rightarrow> recv_stream \<Rightarrow> (string, bytes) result poll \<times> recv_stream" where
  "read_exact n recv =
     (if n \<le> length (rs_data recv)
      then (Ready (Inr (take n (rs_data recv))), recv\<lparr>rs_data := drop n (rs_data recv)\<rparr>)
      else (case rs_end recv of
              Some e \<Rightarrow> (Ready (Inl e), recv\<lparr>rs_data := []\<rparr>)
            | None \<Rightarrow> (Pending, recv\<lparr>rs_data := []\<rparr>)))"

definition read_raw ::
  "recv_stream \<Rightarrow> (frame_io_error, u8 \<times> bytes) result poll \<times> recv_stream" where
  "read_raw recv =
     (case read_exact 5 recv of
        (Pending, r) \<Rightarrow> (Pending, r)
      | (Ready (Inl e), r) \<Rightarrow> (Ready (Inl (IoError e)), r)
      | (Ready (Inr header), r) \<Rightarrow>
          (let len = unat (u32_from_be_bytes (header ! 1) (header ! 2) (header ! 3) (header ! 4)) in
           if len > MAX_CONTROL_FRAME
           then (Ready (Inl (IoFrame (TooLarge len MAX_CONTROL_FRAME))), r)
           else (case read_exact len r of
                   (Pending, r') \<Rightarrow> (Pending, r')
                 | (Ready (Inl e), r') \<Rightarrow> (Ready (Inl (IoError e)), r')
                 | (Ready (Inr payload), r') \<Rightarrow> (Ready (Inr (header ! 0, payload)), r'))))"

definition read_frame ::
  "(bytes \<Rightarrow> (json_error, 'a) result) \<Rightarrow> recv_stream
     \<Rightarrow> (frame_io_error, u8 \<times> 'a) result \<times> recv_stream" where
  "read_frame from_slice recv =
     (case read_raw recv of
        (Pending, r) \<Rightarrow> (Inl IoTimeout, r)
      | (Ready (Inl e), r) \<Rightarrow> (Inl e, r)
      | (Ready (Inr (msg_type, payload)), r) \<Rightarrow>
          (case decode_payload from_slice payload of
             Inl e \<Rightarrow> (Inl (IoFrame e), r)
           | Inr parsed \<Rightarrow> (Inr (msg_type, parsed), r)))"

text \<open>A send stream: what was written, whether it was finished, and the error of its next write.\<close>

record send_stream =
  ss_written :: bytes
  ss_finished :: bool
  ss_error :: "string option"

definition write_frame ::
  "('a \<Rightarrow> (json_error, bytes) result) \<Rightarrow> send_stream \<Rightarrow> u8 \<Rightarrow> 'a
     \<Rightarrow> (frame_io_error, unit) result \<times> send_stream" where
  "write_frame to_vec send msg_type payload =
     (case encode_frame to_vec msg_type payload of
        Inl e \<Rightarrow> (Inl (IoFrame e), send)
      | Inr b \<Rightarrow>
          (case ss_error send of
             Some e \<Rightarrow> (Inl (IoError e), send)
           | None \<Rightarrow> (Inr (), send\<lparr>ss_written := ss_written send @ b\<rparr>)))"

definition expect_frame ::
  "(bytes \<Rightarrow> (json_error, 'a) result) \<Rightarrow> u8 \<Rightarrow> recv_stream
     \<Rightarrow> (frame_io_error, 'a) result \<times> recv_stream" where
  "expect_frame from_slice msg_type recv =
     (case read_frame from_slice recv of
        (Inl e, r) \<Rightarrow> (Inl e, r)
      | (Inr (t, payload), r) \<Rightarrow>
          if t \<noteq> msg_type then (Inl (IoFrame (UnexpectedType t)), r) else (Inr payload, r))"

section \<open>Laws of the codec\<close>

lemma unat_u32_word_of_nat: "n < 4294967296 \<Longrightarrow> unat (word_of_nat n :: u32) = n"
  by (simp add: unat_of_nat)

lemma unat_u32_lt: "unat (w :: u32) < 4294967296"
  using unsigned_less [of w] by simp

lemma u8_lt: "unat (b :: u8) < 256"
  using unsigned_less [of b] by simp

text \<open>Base-256 numerals in Horner form: the digits determine the number and back.\<close>

lemma horner_div: "(y :: nat) < 256 \<Longrightarrow> (x * 256 + y) div 256 = x"
  and horner_mod: "(y :: nat) < 256 \<Longrightarrow> (x * 256 + y) mod 256 = y"
  by simp_all

lemma be_sum_horner:
  fixes a b c d :: nat
  shows "a * 16777216 + b * 65536 + c * 256 + d = ((a * 256 + b) * 256 + c) * 256 + d"
  by simp

lemma div_65536: "(n :: nat) div 65536 = n div 256 div 256"
  and div_16777216: "(n :: nat) div 16777216 = n div 256 div 256 div 256"
  by (simp_all flip: div_mult2_eq)

lemma horner_digits:
  fixes n :: nat
  assumes "n < 4294967296"
  shows "((n div 16777216 mod 256 * 256 + n div 65536 mod 256) * 256 + n div 256 mod 256) * 256 + n mod 256 = n"
proof -
  have "n div 16777216 < 256" using assms by (simp add: less_mult_imp_div_less)
  then have "n div 16777216 mod 256 * 256 + n div 65536 mod 256 = n div 65536"
    using div_mult_mod_eq [of "n div 65536" 256] by (simp add: div_65536 div_16777216)
  moreover have "n div 65536 * 256 + n div 256 mod 256 = n div 256"
    using div_mult_mod_eq [of "n div 256" 256] by (simp add: div_65536)
  moreover have "n div 256 * 256 + n mod 256 = n"
    by (rule div_mult_mod_eq)
  ultimately show ?thesis by simp
qed

lemma be_sum_lt:
  "unat (a :: u8) * 16777216 + unat (b :: u8) * 65536 + unat (c :: u8) * 256 + unat (d :: u8)
     < 4294967296"
  using u8_lt [of a] u8_lt [of b] u8_lt [of c] u8_lt [of d] by linarith

lemma unat_from_be:
  "unat (u32_from_be_bytes a b c d) =
     ((unat a * 256 + unat b) * 256 + unat c) * 256 + unat d"
  unfolding u32_from_be_bytes_def
  by (subst unat_u32_word_of_nat [OF be_sum_lt]) (rule be_sum_horner)

lemma u32_be_roundtrip:
  assumes "u32_to_be_bytes w = [a, b, c, d]"
  shows "u32_from_be_bytes a b c d = w"
proof -
  from assms have "unat a = unat w div 16777216 mod 256" and "unat b = unat w div 65536 mod 256"
    and "unat c = unat w div 256 mod 256" and "unat d = unat w mod 256"
    unfolding u32_to_be_bytes_def by (auto simp only: list.inject unat_u8_word_of_nat)
  then have "unat (u32_from_be_bytes a b c d) = unat w"
    by (simp only: unat_from_be horner_digits [OF unat_u32_lt])
  then show ?thesis by (rule word_unat_eq_iff [THEN iffD2])
qed

lemma word_of_nat_u8_horner: "word_of_nat (k * 256 + unat b) = (b :: u8)"
  by (rule word_unat_eq_iff [THEN iffD2]) (simp only: unat_u8_word_of_nat horner_mod u8_lt)

lemma word_of_unat_u8: "word_of_nat (unat b) = (b :: u8)"
  using word_of_nat_u8_horner [of 0 b] by simp

lemma u32_be_roundtrip': "u32_to_be_bytes (u32_from_be_bytes a b c d) = [a, b, c, d]"
  unfolding u32_to_be_bytes_def unat_from_be
  by (simp only: div_65536 div_16777216 horner_div u8_lt word_of_nat_u8_horner word_of_unat_u8)

lemma length_u32_to_be_bytes [simp]: "length (u32_to_be_bytes w) = 4"
  by (simp add: u32_to_be_bytes_def)

lemma u32_to_be_bytes_cases:
  obtains a b c d where "u32_to_be_bytes w = [a, b, c, d]" and "u32_from_be_bytes a b c d = w"
  using u32_be_roundtrip by (auto simp: u32_to_be_bytes_def)

lemma unat_u32_small: "n \<le> MAX_CONTROL_FRAME \<Longrightarrow> unat (word_of_nat n :: u32) = n"
  by (simp add: unat_of_nat MAX_CONTROL_FRAME_def)

lemma frame_bytes_eqD:
  assumes "frame_bytes t p = Inr b"
  obtains b1 b2 b3 b4 where "b = t # b1 # b2 # b3 # b4 # p"
    and "unat (u32_from_be_bytes b1 b2 b3 b4) = length p" and "length p \<le> MAX_CONTROL_FRAME"
proof -
  obtain b1 b2 b3 b4 where
    be: "u32_to_be_bytes (word_of_nat (length p)) = [b1, b2, b3, b4]"
      "u32_from_be_bytes b1 b2 b3 b4 = word_of_nat (length p)"
    by (rule u32_to_be_bytes_cases)
  from assms have le: "length p \<le> MAX_CONTROL_FRAME"
    and b: "b = t # b1 # b2 # b3 # b4 # p"
    using be(1) by (auto simp: frame_bytes_def split: if_splits)
  show ?thesis
    by (rule that [OF b]) (simp_all add: be(2) unat_u32_small le)
qed

lemma frame_bytesI:
  assumes "unat (u32_from_be_bytes b1 b2 b3 b4) = length p" and "length p \<le> MAX_CONTROL_FRAME"
  shows "frame_bytes t p = Inr (t # b1 # b2 # b3 # b4 # p)"
proof -
  have "word_of_nat (length p) = u32_from_be_bytes b1 b2 b3 b4"
    by (rule word_unat_eq_iff [THEN iffD2]) (simp only: unat_u32_small assms)
  then show ?thesis
    using assms(2) by (simp add: frame_bytes_def u32_be_roundtrip')
qed

lemma length_frame_bytes: "frame_bytes t p = Inr b \<Longrightarrow> length b = 5 + length p"
  by (erule frame_bytes_eqD) simp

section \<open>Laws of the stream reader\<close>

lemma read_raw_written:
  assumes "frame_bytes t p = Inr b" and "rs_data recv = b @ rest"
  shows "read_raw recv = (Ready (Inr (t, p)), recv\<lparr>rs_data := rest\<rparr>)"
  using assms by (elim frame_bytes_eqD) (simp add: read_raw_def read_exact_def)

lemma take5_eq:
  assumes "5 \<le> length xs"
  obtains a b c d e where "take 5 xs = [a, b, c, d, e]" and "xs = [a, b, c, d, e] @ drop 5 xs"
proof -
  from assms obtain a b c d e ys where "xs = a # b # c # d # e # ys"
    by (auto simp: numeral_eq_Suc Suc_le_length_iff)
  then show ?thesis using that by simp
qed

lemma read_raw_ok:
  assumes "read_raw recv = (Ready (Inr (t, p)), r)"
  shows "\<exists>b. frame_bytes t p = Inr b \<and> rs_data recv = b @ rs_data r"
proof -
  from assms have five: "5 \<le> length (rs_data recv)"
    by (auto simp: read_raw_def read_exact_def split: if_splits option.splits)
  then obtain a b c d e where h: "take 5 (rs_data recv) = [a, b, c, d, e]"
    and eq: "rs_data recv = [a, b, c, d, e] @ drop 5 (rs_data recv)"
    by (rule take5_eq)
  let ?len = "unat (u32_from_be_bytes b c d e)"
  let ?rest = "drop 5 (rs_data recv)"
  from assms five h have len: "?len \<le> MAX_CONTROL_FRAME" "?len \<le> length ?rest"
    and parts: "t = a" "p = take ?len ?rest" "rs_data r = drop ?len ?rest"
    by (auto simp: read_raw_def read_exact_def Let_def split: if_splits option.splits)
  have "frame_bytes t p = Inr (a # b # c # d # e # p)"
    using len parts by (simp add: frame_bytesI)
  moreover have "rs_data recv = (a # b # c # d # e # p) @ rs_data r"
    by (subst eq) (simp add: parts del: drop_drop)
  ultimately show ?thesis by blast
qed

lemma read_exact_drop:
  "\<exists>k \<le> n. rs_data (snd (read_exact n recv)) = drop k (rs_data recv)"
proof (cases "n \<le> length (rs_data recv)")
  case False
  then have "rs_data (snd (read_exact n recv)) = drop (length (rs_data recv)) (rs_data recv)"
    by (auto simp: read_exact_def split: option.splits)
  with False show ?thesis using linorder_le_cases by blast
qed (auto simp: read_exact_def)

lemma read_raw_drop:
  "\<exists>k \<le> max_frame_len. rs_data (snd (read_raw recv)) = drop k (rs_data recv)"
proof -
  obtain x r where x: "read_exact 5 recv = (x, r)" by fastforce
  with read_exact_drop [of 5 recv] obtain k where k: "k \<le> 5" "rs_data r = drop k (rs_data recv)"
    by auto
  then have five: "k \<le> max_frame_len" by (simp add: max_frame_len_def)
  show ?thesis
  proof (cases "\<exists>h. x = Ready (Inr h) \<and>
      unat (u32_from_be_bytes (h ! 1) (h ! 2) (h ! 3) (h ! 4)) \<le> MAX_CONTROL_FRAME")
    case True
    then obtain h where h: "x = Ready (Inr h)" and
      le: "unat (u32_from_be_bytes (h ! 1) (h ! 2) (h ! 3) (h ! 4)) \<le> MAX_CONTROL_FRAME"
      by blast
    let ?len = "unat (u32_from_be_bytes (h ! 1) (h ! 2) (h ! 3) (h ! 4))"
    from read_exact_drop [of ?len r] obtain j where
      j: "j \<le> ?len" "rs_data (snd (read_exact ?len r)) = drop j (rs_data r)" by blast
    have "rs_data (snd (read_raw recv)) = rs_data (snd (read_exact ?len r))"
      using le by (auto simp: read_raw_def x h Let_def split: poll.splits sum.splits prod.splits)
    with j k have "rs_data (snd (read_raw recv)) = drop (j + k) (rs_data recv)" by simp
    moreover have "j + k \<le> max_frame_len" using j k le by (simp add: max_frame_len_def)
    ultimately show ?thesis by blast
  next
    case False
    then have "rs_data (snd (read_raw recv)) = rs_data r"
      by (auto simp: read_raw_def x Let_def split: poll.splits sum.splits)
    with k five show ?thesis by auto
  qed
qed

lemma snd_read_frame: "snd (read_frame f recv) = snd (read_raw recv)"
  by (auto simp: read_frame_def split: prod.splits poll.splits sum.splits)

subsection \<open>The framing contract\<close>

definition frame_enc :: "u8 \<times> bytes \<Rightarrow> bytes option" where
  "frame_enc m = (case frame_bytes (fst m) (snd m) of Inl _ \<Rightarrow> None | Inr b \<Rightarrow> Some b)"

definition frame_dec :: "bytes \<Rightarrow> ((u8 \<times> bytes) \<times> bytes) option" where
  "frame_dec b =
     (case read_raw \<lparr>rs_data = b, rs_end = None\<rparr> of
        (Ready (Inr m), r) \<Rightarrow> Some (m, rs_data r)
      | _ \<Rightarrow> None)"

lemma frame_enc_eq: "frame_enc (t, p) = Some b \<longleftrightarrow> frame_bytes t p = Inr b"
  by (auto simp: frame_enc_def split: sum.splits)

interpretation wire: framing frame_enc frame_dec
proof unfold_locales
  fix m :: "u8 \<times> bytes" and b rest
  assume "frame_enc m = Some b"
  then show "frame_dec (b @ rest) = Some (m, rest)"
    by (cases m) (simp add: frame_dec_def frame_enc_eq read_raw_written)
next
  fix m :: "u8 \<times> bytes" and b rest
  assume "frame_dec b = Some (m, rest)"
  then obtain r where "read_raw \<lparr>rs_data = b, rs_end = None\<rparr> = (Ready (Inr m), r)" and "rs_data r = rest"
    by (auto simp: frame_dec_def split: prod.splits poll.splits sum.splits)
  then show "\<exists>p. frame_enc m = Some p \<and> b = p @ rest"
    by (cases m) (fastforce simp: frame_enc_eq dest: read_raw_ok)
qed

section \<open>Properties\<close>

text \<open>C18: parsing is the exact inverse of building a frame: a buffer parses to a type and payload
  if and only if it is the frame built from them, so both directions round trip and no two
  buffers parse alike.\<close>

theorem parse_frame_iff:
  "parse_frame b = Inr pf \<longleftrightarrow> frame_bytes (pf_msg_type pf) (pf_payload pf) = Inr b"
proof
  assume "parse_frame b = Inr pf"
  then show "frame_bytes (pf_msg_type pf) (pf_payload pf) = Inr b"
    by (auto simp: parse_frame_def Let_def split: list.splits if_splits intro!: frame_bytesI)
next
  assume "frame_bytes (pf_msg_type pf) (pf_payload pf) = Inr b"
  then show "parse_frame b = Inr pf"
    by (elim frame_bytes_eqD) (simp add: parse_frame_def)
qed

text \<open>The errors of the frame parser, on every branch: fewer than five bytes are an invalid
  header; a declared length above 4096 is refused as too large whatever follows; otherwise a
  length that does not match the buffer is an invalid header.\<close>

lemma parse_frame_errors:
  "parse_frame b =
     (if length b < 5 then Inl InvalidHeader
      else let len = unat (u32_from_be_bytes (b ! 1) (b ! 2) (b ! 3) (b ! 4)) in
        if 4096 < len then Inl (TooLarge len 4096)
        else if length b \<noteq> 5 + len then Inl InvalidHeader
        else Inr \<lparr>pf_msg_type = b ! 0, pf_payload = drop 5 b\<rparr>)"
  by (auto simp: parse_frame_def MAX_CONTROL_FRAME_def Let_def split: list.splits)

text \<open>Frames written back to back on a stream are read back one by one, in order and with the
  bytes after them untouched.\<close>

lemma frames_read_in_order:
  "list_all2 (\<lambda>m b. frame_bytes (fst m) (snd m) = Inr b) ms bs \<Longrightarrow>
     dec_many frame_dec (length ms) (concat bs @ rest) = Some (ms, rest)"
  by (rule wire.dec_many_encoded) (simp add: list_all2_conv_all_nth frame_enc_def)

text \<open>C19: what \<open>write_frame\<close> puts on a stream, \<open>read_frame\<close> takes off it: type and
  payload come back and exactly the frame's bytes are consumed, for every payload whose
  serialisation the JSON library reads back.\<close>

theorem read_frame_of_write_frame:
  assumes "write_frame to_vec send t x = (Inr (), send')"
    and "\<And>json. to_vec x = Inr json \<Longrightarrow> from_slice json = Inr x"
  shows "\<exists>b. ss_written send' = ss_written send @ b \<and>
     read_frame from_slice \<lparr>rs_data = b @ rest, rs_end = e\<rparr> =
       (Inr (t, x), \<lparr>rs_data = rest, rs_end = e\<rparr>)"
proof -
  from assms(1) obtain json b where json: "to_vec x = Inr json" and b: "frame_bytes t json = Inr b"
    and w: "ss_written send' = ss_written send @ b"
    by (auto simp: write_frame_def encode_frame_def split: sum.splits option.splits)
  have "read_raw \<lparr>rs_data = b @ rest, rs_end = e\<rparr> = (Ready (Inr (t, json)), \<lparr>rs_data = rest, rs_end = e\<rparr>)"
    using read_raw_written [OF b, of "\<lparr>rs_data = b @ rest, rs_end = e\<rparr>" rest] by simp
  with json assms(2) w show ?thesis
    by (auto simp: read_frame_def decode_payload_def map_err_def)
qed

theorem read_frame_of_write_frame_witness:
  "\<exists>b. ss_written \<lparr>ss_written = [1, 0, 0, 0, 1, 65], ss_finished = False, ss_error = None\<rparr> = [] @ b \<and>
     read_frame (\<lambda>json. if json = [65] then Inr True else Inl ''bad'')
       \<lparr>rs_data = b @ [3], rs_end = None\<rparr> = (Inr (1, True), \<lparr>rs_data = [3], rs_end = None\<rparr>)"
  using read_frame_of_write_frame
    [of "\<lambda>x. if x then Inr [65] else Inl ''no''"
        "\<lparr>ss_written = [], ss_finished = False, ss_error = None\<rparr>" 1 True
        "\<lparr>ss_written = [1, 0, 0, 0, 1, 65], ss_finished = False, ss_error = None\<rparr>"
        "\<lambda>json. if json = [65] then Inr True else Inl ''bad''" "[3]" None]
  by (simp add: write_frame_def encode_frame_def frame_bytes_def MAX_CONTROL_FRAME_def
      u32_to_be_bytes_def)

text \<open>Whatever a peer sends, one call of the frame reader takes at most 4101 bytes off the
  stream, a prefix of what arrived, so a hostile length field never makes it buffer more.\<close>

lemma read_frame_bounded:
  "\<exists>k \<le> 4101. rs_data (snd (read_frame from_slice recv)) = drop k (rs_data recv)"
  using read_raw_drop [of recv]
  by (simp add: snd_read_frame max_frame_len_def MAX_CONTROL_FRAME_def)

end
