(* ===== verification/Client_Session.thy ===== *)
theory Client_Session
  imports Client_Model Frame Net
begin

text \<open>
  The client's session, \<open>tmite-core/src/client/session.rs\<close>: one pinned connection to the server,
  dialled when needed, announced with a SESSION hello and dropped after a connection-level failure.
  Any number of tasks call \<open>get\<close> and \<open>invalidate\<close> at once.  A \<open>get\<close> holds the lock of the connection to its
  end; an \<open>invalidate\<close> releases it before it publishes the status.  So each call is a task of several
  steps, and \<open>session_get\<close> is a call that runs alone.  What the network answers is an argument.
\<close>

section \<open>State\<close>

datatype session_error = SessUnreachable string | SessTimeout | SessNet net_error

text \<open>A connection as the library returns it: the authenticated remote node and a handle.\<close>

record client_conn =
  cc_remote :: string
  cc_handle :: nat

record client_session =
  cl_server_id :: string
  cl_hello :: bytes
  cl_conn :: "client_conn option"
  cl_status :: session_status
  cl_redials :: u64
  cl_was_established :: bool

definition session_new :: "string \<Rightarrow> bytes \<Rightarrow> client_session" where
  "session_new server_id hello =
     \<lparr>cl_server_id = server_id, cl_hello = hello, cl_conn = None,
      cl_status = \<lparr>sst_state = Dialing, sst_redials = 0\<rparr>, cl_redials = 0, cl_was_established = False\<rparr>"

text \<open>\<open>set_state\<close> reads the counter of re-dials and then replaces the published status, if it differs;
  the two happen one after the other.\<close>

definition publish :: "session_state \<Rightarrow> u64 \<Rightarrow> client_session \<Rightarrow> client_session" where
  "publish st redials s =
     (if sst_state (cl_status s) = st \<and> sst_redials (cl_status s) = redials then s
      else s\<lparr>cl_status := \<lparr>sst_state = st, sst_redials = redials\<rparr>\<rparr>)"

definition set_state :: "session_state \<Rightarrow> client_session \<Rightarrow> client_session" where
  "set_state st s = publish st (cl_redials s) s"

section \<open>Operations\<close>

text \<open>The outcomes of one dial: the connection attempt, after some time or never, then opening the
  control stream, writing the hello and reading the answer.\<close>

datatype connect_outcome = ConnectAfter duration "(string, client_conn) result" | ConnectNever

record session_io =
  so_connect :: connect_outcome
  so_open :: "string option"
  so_write :: "string option"
  so_reply :: "(frame_io_error, data_frame) result"

text \<open>\<open>so_reply\<close> is what \<open>expect_frame\<close> returns for the type OK.\<close>

definition send_hello :: "session_io \<Rightarrow> (frame_io_error, unit) result" where
  "send_hello io =
     (case so_open io of
        Some e \<Rightarrow> Inl (IoError e)
      | None \<Rightarrow>
          (case so_write io of
             Some e \<Rightarrow> Inl (IoError e)
           | None \<Rightarrow> (case so_reply io of Inl e \<Rightarrow> Inl e | Inr _ \<Rightarrow> Inr ())))"

text \<open>A dial; \<open>None\<close> is the panic of the identity assertion.\<close>

definition session_dial ::
  "(frame_io_error \<Rightarrow> string) \<Rightarrow> session_io \<Rightarrow> client_session \<Rightarrow> (session_error, client_conn) result option" where
  "session_dial show_err io s =
     (case so_connect io of
        ConnectNever \<Rightarrow> Some (Inl SessTimeout)
      | ConnectAfter d r \<Rightarrow>
          if EP_ONLINE_TIMEOUT < d then Some (Inl SessTimeout)
          else (case r of
                  Inl e \<Rightarrow> Some (Inl (SessUnreachable e))
                | Inr c \<Rightarrow>
                    if cc_remote c \<noteq> cl_server_id s then None
                    else (case send_hello io of
                            Inl e \<Rightarrow> Some (Inl (SessUnreachable (''session hello: '' @ show_err e)))
                          | Inr _ \<Rightarrow> Some (Inr c))))"

text \<open>\<open>get\<close> as it runs when no other task comes between, as at the start of the client.\<close>

definition count_redial :: "client_session \<Rightarrow> client_session" where
  "count_redial s = (if cl_was_established s then s\<lparr>cl_redials := cl_redials s + 1\<rparr> else s)"

definition session_get ::
  "(frame_io_error \<Rightarrow> string) \<Rightarrow> session_io \<Rightarrow> client_session
     \<Rightarrow> (session_error, client_conn) result option \<times> client_session" where
  "session_get show_err io s =
     (case cl_conn s of
        Some c \<Rightarrow> (Some (Inr c), s)
      | None \<Rightarrow>
          (let s2 = set_state Dialing (count_redial s)
           in case session_dial show_err io s2 of
                Some (Inr c) \<Rightarrow>
                  (Some (Inr c), (set_state Established (s2\<lparr>cl_was_established := True\<rparr>))\<lparr>cl_conn := Some c\<rparr>)
              | r \<Rightarrow> (r, s2)))"

section \<open>Tasks\<close>

text \<open>
  The session is shared by the tasks of the client, so calls of \<open>get\<close> and \<open>invalidate\<close> overlap.
  \<open>get\<close> holds the lock of the connection from its first line to its return; \<open>invalidate\<close> holds it only
  while it clears the connection, and publishes its state afterwards.  The counter of re-dials is
  changed only under the lock, so that \<open>get\<close> publishes the value it has just written.
\<close>

datatype session_pc =
    GetLock
  | GetCount
  | GetDialing
  | GetDial
  | GetMark client_conn
  | GetEstablished client_conn
  | GetStore client_conn
  | GetDone "(session_error, client_conn) result"
  | GetPanic
  | InvLock instant
  | InvLoad instant
  | InvPublish instant u64
  | InvDone

text \<open>One step of the task \<open>i\<close> on the session and the lock, which names the task that holds it.\<close>

inductive session_task ::
  "nat \<Rightarrow> client_session \<Rightarrow> nat option \<Rightarrow> session_pc \<Rightarrow> client_session \<Rightarrow> nat option \<Rightarrow> session_pc \<Rightarrow> bool" for i where
  hit: "cl_conn s = Some c \<Longrightarrow> session_task i s None GetLock s None (GetDone (Inr c))"
| miss: "cl_conn s = None \<Longrightarrow> session_task i s None GetLock s (Some i) GetCount"
| count: "session_task i s l GetCount (count_redial s) l GetDialing"
| dialing: "session_task i s l GetDialing (set_state Dialing s) l GetDial"
| dial_failed: "session_dial show_err io s = Some (Inl e) \<Longrightarrow> session_task i s l GetDial s None (GetDone (Inl e))"
| dial_panic: "session_dial show_err io s = None \<Longrightarrow> session_task i s l GetDial s None GetPanic"
| dial_ok: "session_dial show_err io s = Some (Inr c) \<Longrightarrow> session_task i s l GetDial s l (GetMark c)"
| mark: "session_task i s l (GetMark c) (s\<lparr>cl_was_established := True\<rparr>) l (GetEstablished c)"
| established: "session_task i s l (GetEstablished c) (set_state Established s) l (GetStore c)"
| store: "session_task i s l (GetStore c) (s\<lparr>cl_conn := Some c\<rparr>) None (GetDone (Inr c))"
| clear: "session_task i s None (InvLock now) (s\<lparr>cl_conn := None\<rparr>) None (InvLoad now)"
| load: "session_task i s l (InvLoad now) s l (InvPublish now (cl_redials s))"
| reconnecting: "session_task i s l (InvPublish now r) (publish (Reconnecting now) r s) l InvDone"

inductive_cases session_taskE: "session_task i s l pc s' l' pc'"

record session_system =
  sy_session :: client_session
  sy_lock :: "nat option"
  sy_tasks :: "session_pc list"

definition session_start :: "string \<Rightarrow> bytes \<Rightarrow> session_system" where
  "session_start server hello = \<lparr>sy_session = session_new server hello, sy_lock = None, sy_tasks = []\<rparr>"

text \<open>Calls begin at any time, and any task goes next.\<close>

inductive client_session_step :: "session_system \<Rightarrow> session_system \<Rightarrow> bool" where
  call_get: "client_session_step m (m\<lparr>sy_tasks := sy_tasks m @ [GetLock]\<rparr>)"
| call_invalidate: "client_session_step m (m\<lparr>sy_tasks := sy_tasks m @ [InvLock now]\<rparr>)"
| task: "i < length (sy_tasks m) \<Longrightarrow>
    session_task i (sy_session m) (sy_lock m) (sy_tasks m ! i) s' l' pc' \<Longrightarrow>
    client_session_step m \<lparr>sy_session = s', sy_lock = l', sy_tasks = (sy_tasks m)[i := pc']\<rparr>"

section \<open>Invariant\<close>

fun holding :: "session_pc \<Rightarrow> bool" where
  "holding GetCount = True"
| "holding GetDialing = True"
| "holding GetDial = True"
| "holding (GetMark _) = True"
| "holding (GetEstablished _) = True"
| "holding (GetStore _) = True"
| "holding _ = False"

text \<open>A task that is about to store a connection or to publish that it was dropped.\<close>

fun unsettled :: "session_pc \<Rightarrow> bool" where
  "unsettled (GetStore _) = True"
| "unsettled (InvLoad _) = True"
| "unsettled (InvPublish _ _) = True"
| "unsettled _ = False"

fun pc_ok :: "client_session \<Rightarrow> session_pc \<Rightarrow> bool" where
  "pc_ok s (GetMark c) = (cc_remote c = cl_server_id s)"
| "pc_ok s (GetEstablished c) = (cc_remote c = cl_server_id s \<and> cl_was_established s)"
| "pc_ok s (GetStore c) = (cc_remote c = cl_server_id s \<and> cl_was_established s)"
| "pc_ok s (GetDone (Inr c)) = (cc_remote c = cl_server_id s)"
| "pc_ok s (InvPublish now r) = (\<not> cl_was_established s \<longrightarrow> r = 0)"
| "pc_ok s _ = True"

definition conn_inv :: "client_session \<Rightarrow> bool" where
  "conn_inv s =
     ((\<forall>c. cl_conn s = Some c \<longrightarrow> cc_remote c = cl_server_id s)
      \<and> (\<not> cl_was_established s \<longrightarrow> cl_redials s = 0 \<and> sst_redials (cl_status s) = 0 \<and> cl_conn s = None))"

definition lock_inv :: "nat option \<Rightarrow> session_pc list \<Rightarrow> bool" where
  "lock_inv l ts = ((\<forall>i < length ts. holding (ts ! i) \<longleftrightarrow> l = Some i) \<and> (\<forall>i. l = Some i \<longrightarrow> i < length ts))"

definition session_inv :: "string \<Rightarrow> session_system \<Rightarrow> bool" where
  "session_inv server m =
     (let s = sy_session m; ts = sy_tasks m in
      cl_server_id s = server \<and> conn_inv s \<and> lock_inv (sy_lock m) ts
      \<and> (sy_lock m \<noteq> None \<longrightarrow> cl_conn s = None)
      \<and> (\<forall>i < length ts. pc_ok s (ts ! i))
      \<and> (sst_state (cl_status s) = Established \<longrightarrow> cl_conn s \<noteq> None \<or> (\<exists>i < length ts. unsettled (ts ! i))))"

lemma publish_fields [simp]:
  "cl_server_id (publish st r s) = cl_server_id s" "cl_conn (publish st r s) = cl_conn s"
  "cl_redials (publish st r s) = cl_redials s" "cl_was_established (publish st r s) = cl_was_established s"
  "cl_status (publish st r s) = \<lparr>sst_state = st, sst_redials = r\<rparr>"
  by (auto simp: publish_def)

lemma set_state_fields [simp]:
  "cl_server_id (set_state st s) = cl_server_id s" "cl_conn (set_state st s) = cl_conn s"
  "cl_redials (set_state st s) = cl_redials s" "cl_was_established (set_state st s) = cl_was_established s"
  "cl_status (set_state st s) = \<lparr>sst_state = st, sst_redials = cl_redials s\<rparr>"
  by (simp_all add: set_state_def)

lemma count_redial_fields [simp]:
  "cl_server_id (count_redial s) = cl_server_id s" "cl_conn (count_redial s) = cl_conn s"
  "cl_was_established (count_redial s) = cl_was_established s" "cl_status (count_redial s) = cl_status s"
  by (simp_all add: count_redial_def)

lemma session_dial_ok: "session_dial show_err io s = Some (Inr c) \<Longrightarrow> cc_remote c = cl_server_id s"
  by (auto simp: session_dial_def split: connect_outcome.splits if_splits sum.splits)

text \<open>What one step of a task does to each part of the invariant.\<close>

lemma task_server: "session_task i s l pc s' l' pc' \<Longrightarrow> cl_server_id s' = cl_server_id s"
  by (erule session_taskE) simp_all

lemma task_established: "session_task i s l pc s' l' pc' \<Longrightarrow> cl_was_established s \<Longrightarrow> cl_was_established s'"
  by (erule session_taskE) simp_all

lemma task_conn_inv:
  "session_task i s l pc s' l' pc' \<Longrightarrow> conn_inv s \<Longrightarrow> pc_ok s pc \<Longrightarrow> conn_inv s'"
  by (erule session_taskE) (auto simp: conn_inv_def count_redial_def)

lemma task_pc_ok: "session_task i s l pc s' l' pc' \<Longrightarrow> conn_inv s \<Longrightarrow> pc_ok s pc \<Longrightarrow> pc_ok s' pc'"
  by (erule session_taskE) (auto simp: conn_inv_def dest: session_dial_ok)

lemma other_pc_ok: "session_task i s l pc s' l' pc' \<Longrightarrow> pc_ok s x \<Longrightarrow> pc_ok s' x"
  using task_server [of i s l pc s' l' pc'] task_established [of i s l pc s' l' pc']
  by (cases "(s, x)" rule: pc_ok.cases) auto

lemma task_lock:
  "session_task i s l pc s' l' pc' \<Longrightarrow> (holding pc \<longleftrightarrow> l = Some i) \<Longrightarrow>
     (holding pc' \<longleftrightarrow> l' = Some i) \<and> (l' = l \<or> l = None \<and> l' = Some i \<or> l = Some i \<and> l' = None)"
  by (erule session_taskE) auto

lemma lock_inv_update:
  assumes "lock_inv l ts" and "i < length ts" and "session_task i s l (ts ! i) s' l' pc'"
  shows "lock_inv l' (ts[i := pc'])"
  using assms(1,2) task_lock [OF assms(3)] unfolding lock_inv_def by (auto simp: nth_list_update)

lemma task_lock_conn:
  "session_task i s l pc s' l' pc' \<Longrightarrow> (holding pc \<longleftrightarrow> l = Some i) \<Longrightarrow> (l \<noteq> None \<longrightarrow> cl_conn s = None) \<Longrightarrow>
     (l' \<noteq> None \<longrightarrow> cl_conn s' = None)"
  by (erule session_taskE) auto

lemma task_status:
  "session_task i s l pc s' l' pc' \<Longrightarrow> sst_state (cl_status s') = Established \<Longrightarrow>
     cl_conn s' \<noteq> None \<or> unsettled pc' \<or> sst_state (cl_status s) = Established \<and> \<not> unsettled pc \<and> cl_conn s' = cl_conn s"
  by (erule session_taskE) auto

lemma session_inv_task:
  assumes inv: "session_inv server m" and i: "i < length (sy_tasks m)"
    and step: "session_task i (sy_session m) (sy_lock m) (sy_tasks m ! i) s' l' pc'"
  shows "session_inv server \<lparr>sy_session = s', sy_lock = l', sy_tasks = (sy_tasks m)[i := pc']\<rparr>"
proof -
  let ?s = "sy_session m" and ?ts = "sy_tasks m"
  have old: "cl_server_id ?s = server" "conn_inv ?s" "lock_inv (sy_lock m) ?ts" "sy_lock m \<noteq> None \<longrightarrow> cl_conn ?s = None"
    "\<And>j. j < length ?ts \<Longrightarrow> pc_ok ?s (?ts ! j)"
    "sst_state (cl_status ?s) = Established \<longrightarrow> cl_conn ?s \<noteq> None \<or> (\<exists>j < length ?ts. unsettled (?ts ! j))"
    using inv by (auto simp: session_inv_def Let_def)
  have hold: "holding (?ts ! i) \<longleftrightarrow> sy_lock m = Some i" using old(3) i by (simp add: lock_inv_def)
  have "pc_ok s' (?ts[i := pc'] ! j)" if "j < length ?ts" for j
    using that old(5) [OF that] task_pc_ok [OF step old(2) old(5) [OF i]] other_pc_ok [OF step]
    by (cases "j = i") simp_all
  moreover have "cl_conn s' \<noteq> None \<or> (\<exists>j < length ?ts. unsettled (?ts[i := pc'] ! j))"
    if "sst_state (cl_status s') = Established"
    using task_status [OF step that] old(6) i by (metis nth_list_update)
  ultimately show ?thesis
    using task_server [OF step] task_conn_inv [OF step old(2) old(5) [OF i]] lock_inv_update [OF old(3) i step]
      task_lock_conn [OF step hold old(4)] old(1)
    by (auto simp: session_inv_def Let_def)
qed

lemma session_inv_call:
  assumes "session_inv server m" and "\<not> holding pc" and "pc_ok (sy_session m) pc"
  shows "session_inv server (m\<lparr>sy_tasks := sy_tasks m @ [pc]\<rparr>)"
  using assms unfolding session_inv_def lock_inv_def Let_def
  by (auto simp: nth_append less_Suc_eq)

interpretation csession: transition_system
  "\<lambda>m. \<exists>hello. m = session_start server hello" client_session_step "session_inv server" for server
proof unfold_locales
  fix m m' :: session_system
  show "\<exists>hello. m = session_start server hello \<Longrightarrow> session_inv server m"
    by (auto simp: session_inv_def session_start_def session_new_def conn_inv_def lock_inv_def)
  show "session_inv server m \<Longrightarrow> client_session_step m m' \<Longrightarrow> session_inv server m'"
    by (auto elim!: client_session_step.cases intro: session_inv_task session_inv_call)
qed

section \<open>Runs\<close>

abbreviation sys :: "client_session \<Rightarrow> nat option \<Rightarrow> session_pc list \<Rightarrow> session_system" where
  "sys s l ts \<equiv> \<lparr>sy_session = s, sy_lock = l, sy_tasks = ts\<rparr>"

lemma sys_task:
  assumes "session_task i s l pc s' l' pc'" and "i < length ts"
  shows "reaches client_session_step (sys s l (ts[i := pc])) (sys s' l' (ts[i := pc']))"
  using client_session_step.task [of i "sys s l (ts[i := pc])" s' l' pc'] assms by (auto intro: reaches_step)

text \<open>A call of \<open>get\<close> that nothing comes between does what \<open>session_get\<close> says.\<close>

lemma get_alone:
  assumes "session_get show_err io s = (Some r, s')" and i: "i < length ts"
  shows "reaches client_session_step (sys s None (ts[i := GetLock])) (sys s' None (ts[i := GetDone r]))"
proof (cases "cl_conn s")
  case (Some c)
  with assms show ?thesis by (auto simp: session_get_def intro: sys_task session_task.hit)
next
  case None
  let ?s1 = "count_redial s" and ?s2 = "set_state Dialing (count_redial s)"
  have "reaches client_session_step (sys s None (ts[i := GetLock])) (sys s (Some i) (ts[i := GetCount]))"
    using None i by (intro sys_task session_task.miss)
  also have "reaches client_session_step (sys s (Some i) (ts[i := GetCount])) (sys ?s1 (Some i) (ts[i := GetDialing]))"
    using i by (intro sys_task session_task.count)
  also have "reaches client_session_step (sys ?s1 (Some i) (ts[i := GetDialing])) (sys ?s2 (Some i) (ts[i := GetDial]))"
    using i by (intro sys_task session_task.dialing)
  also have "reaches client_session_step (sys ?s2 (Some i) (ts[i := GetDial])) (sys s' None (ts[i := GetDone r]))"
  proof (cases "session_dial show_err io ?s2")
    case (Some d)
    show ?thesis
    proof (cases d)
      case (Inl e)
      with Some None assms show ?thesis by (auto simp: session_get_def Let_def intro: sys_task session_task.dial_failed)
    next
      case (Inr c)
      let ?s3 = "?s2\<lparr>cl_was_established := True\<rparr>"
      have r: "r = Inr c" "s' = (set_state Established ?s3)\<lparr>cl_conn := Some c\<rparr>"
        using Some Inr None assms(1) by (simp_all add: session_get_def Let_def)
      have "reaches client_session_step (sys ?s2 (Some i) (ts[i := GetDial])) (sys ?s2 (Some i) (ts[i := GetMark c]))"
        using Some Inr i by (intro sys_task session_task.dial_ok) simp_all
      also have "reaches client_session_step (sys ?s2 (Some i) (ts[i := GetMark c])) (sys ?s3 (Some i) (ts[i := GetEstablished c]))"
        using i by (intro sys_task session_task.mark)
      also have "reaches client_session_step (sys ?s3 (Some i) (ts[i := GetEstablished c]))
          (sys (set_state Established ?s3) (Some i) (ts[i := GetStore c]))"
        using i by (intro sys_task session_task.established)
      also have "reaches client_session_step (sys (set_state Established ?s3) (Some i) (ts[i := GetStore c])) (sys s' None (ts[i := GetDone r]))"
        unfolding r using i by (intro sys_task session_task.store)
      finally show ?thesis .
    qed
  qed (use None assms in \<open>simp add: session_get_def Let_def\<close>)
  finally show ?thesis .
qed

definition witness_conn :: client_conn where
  "witness_conn = \<lparr>cc_remote = ''srv'', cc_handle = 1\<rparr>"

definition witness_session_io :: session_io where
  "witness_session_io = \<lparr>so_connect = ConnectAfter 5 (Inr witness_conn), so_open = None, so_write = None, so_reply = Inr DataOk\<rparr>"

definition witness_session :: "u64 \<Rightarrow> client_session" where
  "witness_session redials = (session_new ''srv'' [])\<lparr>cl_conn := Some witness_conn, cl_was_established := True,
     cl_redials := redials, cl_status := \<lparr>sst_state = Established, sst_redials = redials\<rparr>\<rparr>"

lemma witness_get:
  "session_get show_err witness_session_io (session_new ''srv'' []) = (Some (Inr witness_conn), witness_session 0)"
  "session_get show_err witness_session_io ((witness_session 0)\<lparr>cl_conn := None\<rparr>) = (Some (Inr witness_conn), witness_session 1)"
  by (simp_all add: session_get_def session_new_def session_dial_def send_hello_def witness_session_io_def witness_conn_def
      EP_ONLINE_TIMEOUT_def secs_def count_redial_def set_state_def publish_def Let_def witness_session_def)

section \<open>Properties\<close>

text \<open>C21: the client only ever talks to the server it paired with, however the calls of its tasks overlap:
  the cached connection and every connection a call returned are to the pinned node id; at most one
  task dials at a time; when no call is in the middle of a change, a status of established means that a
  connection is cached; and no re-dial is published before the first success.\<close>

theorem session_pinned:
  assumes "reaches client_session_step (session_start server hello) m"
  shows "(\<forall>c. cl_conn (sy_session m) = Some c \<longrightarrow> cc_remote c = server)
    \<and> (\<forall>c. GetDone (Inr c) \<in> set (sy_tasks m) \<longrightarrow> cc_remote c = server)
    \<and> (\<forall>i j. i < length (sy_tasks m) \<and> j < length (sy_tasks m)
         \<and> sy_tasks m ! i = GetDial \<and> sy_tasks m ! j = GetDial \<longrightarrow> i = j)
    \<and> ((\<forall>pc \<in> set (sy_tasks m). \<not> unsettled pc) \<and> sst_state (cl_status (sy_session m)) = Established \<longrightarrow>
         cl_conn (sy_session m) \<noteq> None)
    \<and> (\<not> cl_was_established (sy_session m) \<longrightarrow> sst_redials (cl_status (sy_session m)) = 0)"
proof -
  have inv: "session_inv server m" using csession.inv_reachable assms by blast
  have "cc_remote c = server" if "GetDone (Inr c) \<in> set (sy_tasks m)" for c
    using inv that by (auto simp: session_inv_def Let_def in_set_conv_nth dest!: spec)
  moreover have "i = j" if "i < length (sy_tasks m)" "j < length (sy_tasks m)" "sy_tasks m ! i = GetDial" "sy_tasks m ! j = GetDial" for i j
  proof -
    have "lock_inv (sy_lock m) (sy_tasks m)" using inv by (simp add: session_inv_def Let_def)
    with that show ?thesis unfolding lock_inv_def by (metis holding.simps(3) option.inject)
  qed
  ultimately show ?thesis
    using inv by (auto simp: session_inv_def conn_inv_def Let_def)
qed

theorem session_pinned_witness:
  "\<exists>m. reaches client_session_step (session_start ''srv'' []) m \<and> GetDone (Inr witness_conn) \<in> set (sy_tasks m)
     \<and> sst_state (cl_status (sy_session m)) = Established \<and> cl_conn (sy_session m) \<noteq> None \<and> cc_remote witness_conn = ''srv''"
proof -
  let ?m = "sys (witness_session 0) None [GetDone (Inr witness_conn)]"
  have "reaches client_session_step (session_start ''srv'' []) (sys (session_new ''srv'' []) None [GetLock])"
    using client_session_step.call_get [of "session_start ''srv'' []"] by (auto simp: session_start_def intro: reaches_step)
  also have "reaches client_session_step (sys (session_new ''srv'' []) None [GetLock]) ?m"
    using get_alone [OF witness_get(1), of 0 "[GetLock]"] by simp
  finally have r: "reaches client_session_step (session_start ''srv'' []) ?m" .
  from session_pinned [OF this] have "cc_remote witness_conn = ''srv''" "cl_conn (sy_session ?m) \<noteq> None"
    by (simp_all add: witness_session_def)
  with r show ?thesis by (intro exI [of _ ?m]) (simp add: witness_session_def)
qed

text \<open>The status can be left behind: a call of \<open>get\<close> that runs between the two halves of an invalidation
  caches a new connection and publishes that it is established, and the invalidation then publishes
  that the session is reconnecting, with an old count of re-dials.  Every call has ended, the
  connection is in use, and the terminal shows a client that reconnects.\<close>

lemma stale_reconnecting:
  "\<exists>m. reaches client_session_step (session_start ''srv'' []) m \<and> list_all (\<lambda>pc. pc = InvDone \<or> pc = GetDone (Inr witness_conn)) (sy_tasks m)
     \<and> cl_conn (sy_session m) = Some witness_conn
     \<and> cl_status (sy_session m) = \<lparr>sst_state = Reconnecting now, sst_redials = 0\<rparr> \<and> cl_redials (sy_session m) = 1"
proof -
  let ?done = "GetDone (Inr witness_conn)"
  let ?s0 = "witness_session 0" and ?s1 = "(witness_session 0)\<lparr>cl_conn := None\<rparr>" and ?s2 = "witness_session 1"
  let ?s3 = "publish (Reconnecting now) 0 ?s2"
  have "reaches client_session_step (session_start ''srv'' []) (sys (session_new ''srv'' []) None [GetLock])"
    using client_session_step.call_get [of "session_start ''srv'' []"] by (auto simp: session_start_def intro: reaches_step)
  also have "reaches client_session_step (sys (session_new ''srv'' []) None [GetLock]) (sys ?s0 None [?done])"
    using get_alone [OF witness_get(1), of 0 "[GetLock]"] by simp
  also have "reaches client_session_step (sys ?s0 None [?done]) (sys ?s0 None [?done, InvLock now])"
    using client_session_step.call_invalidate [of "sys ?s0 None [?done]" now] by (auto intro: reaches_step)
  also have "reaches client_session_step (sys ?s0 None [?done, InvLock now]) (sys ?s1 None [?done, InvLoad now])"
    using sys_task [OF session_task.clear [of 1 ?s0 now], of "[?done, InvLock now]"] by simp
  also have "reaches client_session_step (sys ?s1 None [?done, InvLoad now]) (sys ?s1 None [?done, InvPublish now 0])"
    using sys_task [OF session_task.load [of 1 ?s1 None now], of "[?done, InvLoad now]"] by (simp add: witness_session_def)
  also have "reaches client_session_step (sys ?s1 None [?done, InvPublish now 0]) (sys ?s1 None [?done, InvPublish now 0, GetLock])"
    using client_session_step.call_get [of "sys ?s1 None [?done, InvPublish now 0]"] by (auto intro: reaches_step)
  also have "reaches client_session_step (sys ?s1 None [?done, InvPublish now 0, GetLock]) (sys ?s2 None [?done, InvPublish now 0, ?done])"
    using get_alone [OF witness_get(2), of 2 "[?done, InvPublish now 0, GetLock]"] by (simp add: numeral_2_eq_2)
  also have "reaches client_session_step (sys ?s2 None [?done, InvPublish now 0, ?done]) (sys ?s3 None [?done, InvDone, ?done])"
    using sys_task [OF session_task.reconnecting [of 1 ?s2 None now 0], of "[?done, InvPublish now 0, ?done]"] by simp
  finally show ?thesis
    by (intro exI [of _ "sys ?s3 None [?done, InvDone, ?done]"]) (simp add: witness_session_def)
qed

text \<open>A cached connection is reused without dialling and without any change of state; once it has been
  cleared the next call dials, and a successful one caches the connection and counts as one re-dial
  if there had been one before.\<close>

lemma session_redial:
  assumes "cl_conn s = Some c" and "cl_was_established s"
    and "so_connect io = ConnectAfter d (Inr c')" and "d \<le> EP_ONLINE_TIMEOUT" and "cc_remote c' = cl_server_id s"
    and "send_hello io = Inr ()"
  shows "session_get show_err io' s = (Some (Inr c), s)
    \<and> (let (r, s') = session_get show_err io (s\<lparr>cl_conn := None\<rparr>)
       in r = Some (Inr c') \<and> cl_conn s' = Some c' \<and> cl_redials s' = cl_redials s + 1
          \<and> cl_status s' = \<lparr>sst_state = Established, sst_redials = cl_redials s + 1\<rparr>)"
  using assms by (simp add: session_get_def session_dial_def count_redial_def Let_def)

end
