(* ===== verification/Daemon_State.thy ===== *)
theory Daemon_State
  imports Proto_Limits Ipc_Proto
begin

text \<open>
  The daemon's authorisation state, \<open>tmite-core/src/daemon/state.rs\<close>: the peers and the access
  rules, kept in memory behind a lock and written to \<open>state.toml\<close> on every mutation.  Each
  operation holds the lock for its whole body, so it is one atomic function on the state.  The
  TOML library and the outcome of the file operations are arguments.
\<close>

section \<open>Data\<close>

datatype state_error =
    StIo io_error
  | StParse string
  | StSerialize string
  | StNameTaken string
  | StNotFound string
  | StPeerHasRules string
  | StPeerCap
  | StRuleCap

fun state_error_code :: "state_error \<Rightarrow> error_code" where
  "state_error_code (StNameTaken _) = CNameTaken"
| "state_error_code (StNotFound _) = NotFound"
| "state_error_code (StPeerHasRules _) = PeerHasRules"
| "state_error_code _ = Internal"

record peer =
  p_name :: string
  p_node_id :: string
  p_paired_at :: string
  p_last_seen :: string

record rule =
  r_peer :: string
  r_target :: string
  r_created_at :: string

record persisted_state =
  ps_version :: u32
  ps_peers :: "peer list"
  ps_rules :: "rule list"

definition persisted_default :: persisted_state where
  "persisted_default = \<lparr>ps_version = 1, ps_peers = [], ps_rules = []\<rparr>"

text \<open>
  The state with, beside the fields of the struct, the text of the file at its path (\<open>None\<close>
  while there is no file).
\<close>

record daemon_state =
  st_path :: string
  st_inner :: persisted_state
  st_file :: "string option"

text \<open>What the environment of one operation does: the TOML serialiser, the outcome of writing
  the temporary file and renaming it, and the clock.\<close>

record state_io =
  io_ser :: "persisted_state \<Rightarrow> (string, string) result"
  io_fs :: fs_outcome
  io_now :: string

section \<open>Loading and persisting\<close>

definition state_load ::
  "(string \<Rightarrow> (string, persisted_state) result) \<Rightarrow> string \<Rightarrow> (io_error, string) result
     \<Rightarrow> (state_error, daemon_state) result" where
  "state_load toml_de path file =
     (case file of
        Inr text \<Rightarrow>
          (case toml_de text of
             Inl e \<Rightarrow> Inl (StParse e)
           | Inr ps \<Rightarrow> Inr \<lparr>st_path = path, st_inner = ps, st_file = Some text\<rparr>)
      | Inl IoNotFound \<Rightarrow> Inr \<lparr>st_path = path, st_inner = persisted_default, st_file = None\<rparr>
      | Inl e \<Rightarrow> Inl (StIo e))"

definition persist_locked ::
  "state_io \<Rightarrow> daemon_state \<Rightarrow> (state_error, unit) result \<times> daemon_state" where
  "persist_locked io st =
     (case io_ser io (st_inner st) of
        Inl e \<Rightarrow> (Inl (StSerialize e), st)
      | Inr text \<Rightarrow>
          (case io_fs io of
             FsWriteErr e \<Rightarrow> (Inl (StIo e), st)
           | FsRenameErr e \<Rightarrow> (Inl (StIo e), st)
           | FsOk \<Rightarrow> (Inr (), st\<lparr>st_file := Some text\<rparr>)))"

section \<open>Queries\<close>

abbreviation peers_of :: "daemon_state \<Rightarrow> peer list" where
  "peers_of st \<equiv> ps_peers (st_inner st)"

abbreviation rules_of :: "daemon_state \<Rightarrow> rule list" where
  "rules_of st \<equiv> ps_rules (st_inner st)"

definition peer_by_node :: "daemon_state \<Rightarrow> string \<Rightarrow> peer option" where
  "peer_by_node st node_id_hex =
     List.find (\<lambda>p. eq_ignore_ascii_case (p_node_id p) node_id_hex) (peers_of st)"

definition peer_by_name :: "daemon_state \<Rightarrow> string \<Rightarrow> peer option" where
  "peer_by_name st name = List.find (\<lambda>p. p_name p = name) (peers_of st)"

definition is_name_free :: "daemon_state \<Rightarrow> string \<Rightarrow> bool" where
  "is_name_free st name = (\<not> list_ex (\<lambda>p. p_name p = name) (peers_of st))"

definition rule_allows :: "daemon_state \<Rightarrow> string \<Rightarrow> string \<Rightarrow> bool" where
  "rule_allows st peer_name target =
     list_ex (\<lambda>r. r_peer r = peer_name \<and> r_target r = target) (rules_of st)"

definition snapshot :: "daemon_state \<Rightarrow> peer list \<times> rule list" where
  "snapshot st = (peers_of st, rules_of st)"

section \<open>Mutations\<close>

abbreviation set_peers :: "peer list \<Rightarrow> daemon_state \<Rightarrow> daemon_state" where
  "set_peers ps st \<equiv> st\<lparr>st_inner := (st_inner st)\<lparr>ps_peers := ps\<rparr>\<rparr>"

abbreviation set_rules :: "rule list \<Rightarrow> daemon_state \<Rightarrow> daemon_state" where
  "set_rules rs st \<equiv> st\<lparr>st_inner := (st_inner st)\<lparr>ps_rules := rs\<rparr>\<rparr>"

definition add_peer ::
  "state_io \<Rightarrow> peer \<Rightarrow> daemon_state \<Rightarrow> (state_error, unit) result \<times> daemon_state" where
  "add_peer io p st =
     (if list_ex (\<lambda>q. p_name q = p_name p) (peers_of st) then (Inl (StNameTaken (p_name p)), st)
      else if length (peers_of st) \<ge> MAX_PEERS then (Inl StPeerCap, st)
      else persist_locked io (set_peers (peers_of st @ [p]) st))"

definition touch_last_seen :: "state_io \<Rightarrow> string \<Rightarrow> daemon_state \<Rightarrow> daemon_state" where
  "touch_last_seen io node_id_hex st =
     (let P = (\<lambda>p. eq_ignore_ascii_case (p_node_id p) node_id_hex) in
      if list_ex P (peers_of st)
      then snd (persist_locked io
             (set_peers (update_first P (\<lambda>p. p\<lparr>p_last_seen := io_now io\<rparr>) (peers_of st)) st))
      else st)"

definition add_rule ::
  "state_io \<Rightarrow> string \<Rightarrow> string \<Rightarrow> daemon_state \<Rightarrow> (state_error, nat) result \<times> daemon_state" where
  "add_rule io pname target st =
     (if \<not> list_ex (\<lambda>p. p_name p = pname) (peers_of st) then (Inl (StNotFound pname), st)
      else if length (rules_of st) \<ge> MAX_RULES then (Inl StRuleCap, st)
      else
        (case position (\<lambda>r. r_peer r = pname \<and> r_target r = target) (rules_of st) of
           Some existing \<Rightarrow> (Inr existing, st)
         | None \<Rightarrow>
             (let r = \<lparr>r_peer = pname, r_target = target, r_created_at = io_now io\<rparr> in
              case persist_locked io (set_rules (rules_of st @ [r]) st) of
                (Inl e, st') \<Rightarrow> (Inl e, st')
              | (Inr _, st') \<Rightarrow> (Inr (length (rules_of st') - 1), st'))))"

definition remove_rule ::
  "state_io \<Rightarrow> string \<Rightarrow> string \<Rightarrow> daemon_state \<Rightarrow> (state_error, bool) result \<times> daemon_state" where
  "remove_rule io pname target st =
     (if \<not> list_ex (\<lambda>p. p_name p = pname) (peers_of st) then (Inl (StNotFound pname), st)
      else
        (let rs = filter (\<lambda>r. \<not> (r_peer r = pname \<and> r_target r = target)) (rules_of st);
             removed = (length rs \<noteq> length (rules_of st));
             st' = set_rules rs st
         in if removed
            then (case persist_locked io st' of
                    (Inl e, st'') \<Rightarrow> (Inl e, st'')
                  | (Inr _, st'') \<Rightarrow> (Inr True, st''))
            else (Inr False, st')))"

definition remove_peer ::
  "state_io \<Rightarrow> string \<Rightarrow> bool \<Rightarrow> daemon_state \<Rightarrow> (state_error, bool) result \<times> daemon_state" where
  "remove_peer io name force st =
     (if \<not> list_ex (\<lambda>p. p_name p = name) (peers_of st) then (Inr False, st)
      else if list_ex (\<lambda>r. r_peer r = name) (rules_of st) \<and> \<not> force
        then (Inl (StPeerHasRules name), st)
      else
        (case persist_locked io
                (set_rules (filter (\<lambda>r. r_peer r \<noteq> name) (rules_of st))
                  (set_peers (filter (\<lambda>p. p_name p \<noteq> name) (peers_of st)) st)) of
           (Inl e, st') \<Rightarrow> (Inl e, st')
         | (Inr _, st') \<Rightarrow> (Inr True, st')))"

text \<open>The mutations as one alphabet, to speak about sequences of them.\<close>

datatype state_op =
    OpAddPeer peer
  | OpTouch string
  | OpAddRule string string
  | OpRemoveRule string string
  | OpRemovePeer string bool

fun state_step :: "state_io \<Rightarrow> state_op \<Rightarrow> daemon_state \<Rightarrow> daemon_state" where
  "state_step io (OpAddPeer p) st = snd (add_peer io p st)"
| "state_step io (OpTouch n) st = touch_last_seen io n st"
| "state_step io (OpAddRule p t) st = snd (add_rule io p t st)"
| "state_step io (OpRemoveRule p t) st = snd (remove_rule io p t st)"
| "state_step io (OpRemovePeer n f) st = snd (remove_peer io n f st)"

fun state_run :: "(state_io \<times> state_op) list \<Rightarrow> daemon_state \<Rightarrow> daemon_state" where
  "state_run [] st = st"
| "state_run ((io, op) # ops) st = state_run ops (state_step io op st)"

section \<open>Invariant\<close>

definition state_wf :: "persisted_state \<Rightarrow> bool" where
  "state_wf ps =
     (distinct (map p_name (ps_peers ps))
      \<and> length (ps_peers ps) \<le> MAX_PEERS
      \<and> distinct (map (\<lambda>r. (r_peer r, r_target r)) (ps_rules ps))
      \<and> length (ps_rules ps) \<le> MAX_RULES
      \<and> (\<forall>r \<in> set (ps_rules ps). r_peer r \<in> p_name ` set (ps_peers ps)))"

text \<open>The access relation the rules stand for.\<close>

definition acl :: "daemon_state \<Rightarrow> (string \<times> string) set" where
  "acl st = (\<lambda>r. (r_peer r, r_target r)) ` set (rules_of st)"

section \<open>Access history\<close>

text \<open>
  The abstract specification of the access rules: what one admin operation does to the relation
  \<open>who may reach what\<close>, and the relation after a sequence of them.
\<close>

datatype acl_event = Granted string string | Withdrawn string string | PeerGone string | NoAclChange

fun acl_apply :: "acl_event \<Rightarrow> (string \<Rightarrow> string \<Rightarrow> bool) \<Rightarrow> string \<Rightarrow> string \<Rightarrow> bool" where
  "acl_apply (Granted p t) A q u = (q = p \<and> u = t \<or> A q u)"
| "acl_apply (Withdrawn p t) A q u = (A q u \<and> \<not> (q = p \<and> u = t))"
| "acl_apply (PeerGone p) A q u = (A q u \<and> q \<noteq> p)"
| "acl_apply NoAclChange A q u = A q u"

fun acl_history :: "('op \<Rightarrow> 's \<Rightarrow> 's) \<Rightarrow> ('op \<Rightarrow> 's \<Rightarrow> acl_event) \<Rightarrow> 'op list \<Rightarrow> 's \<Rightarrow> acl_event list" where
  "acl_history step ev [] s = []"
| "acl_history step ev (op # ops) s = ev op s # acl_history step ev ops (step op s)"

fun persist_failed :: "state_error \<Rightarrow> bool" where
  "persist_failed (StIo _) = True"
| "persist_failed (StSerialize _) = True"
| "persist_failed _ = False"

text \<open>The event of a mutation, read off what it returned.\<close>

fun state_event :: "state_io \<times> state_op \<Rightarrow> daemon_state \<Rightarrow> acl_event" where
  "state_event (io, OpAddRule p t) st =
     (case fst (add_rule io p t st) of
        Inr _ \<Rightarrow> Granted p t
      | Inl e \<Rightarrow> if persist_failed e then Granted p t else NoAclChange)"
| "state_event (io, OpRemoveRule p t) st =
     (case fst (remove_rule io p t st) of
        Inr removed \<Rightarrow> if removed then Withdrawn p t else NoAclChange
      | Inl e \<Rightarrow> if persist_failed e then Withdrawn p t else NoAclChange)"
| "state_event (io, OpRemovePeer n f) st =
     (case fst (remove_peer io n f st) of
        Inr removed \<Rightarrow> if removed then PeerGone n else NoAclChange
      | Inl e \<Rightarrow> if persist_failed e then PeerGone n else NoAclChange)"
| "state_event (io, _) st = NoAclChange"

abbreviation io_step :: "state_io \<times> state_op \<Rightarrow> daemon_state \<Rightarrow> daemon_state" where
  "io_step x \<equiv> state_step (fst x) (snd x)"

lemma acl_apply_keep:
  "acl_apply e A p t \<Longrightarrow> e \<noteq> Granted p t \<Longrightarrow> A p t \<and> e \<noteq> Withdrawn p t \<and> e \<noteq> PeerGone p"
  by (cases e) auto

lemma acl_history_append:
  "acl_history step ev (xs @ ys) s = acl_history step ev xs s @ acl_history step ev ys (fold step xs s)"
  by (induction xs arbitrary: s) auto

text \<open>The contract of a rule store, as its clients (the data plane and the admin protocol) see it.\<close>

locale acl_store =
  fixes step :: "'op \<Rightarrow> 's \<Rightarrow> 's"
    and event :: "'op \<Rightarrow> 's \<Rightarrow> acl_event"
    and allows :: "'s \<Rightarrow> string \<Rightarrow> string \<Rightarrow> bool"
  assumes allows_step: "allows (step op s) p t = acl_apply (event op s) (allows s) p t"
begin

lemma allows_history:
  "allows (fold step ops s) p t = fold acl_apply (acl_history step event ops s) (allows s) p t"
proof (induction ops arbitrary: s)
  case (Cons op ops)
  have "allows (step op s) = acl_apply (event op s) (allows s)"
    by (intro ext) (rule allows_step)
  with Cons show ?case by simp
qed simp

lemma allows_needs_grant:
  assumes "allows (fold step ops s) p t" and "\<not> allows s p t"
  shows "\<exists>pre op post. ops = pre @ op # post \<and> event op (fold step pre s) = Granted p t
    \<and> (\<forall>e \<in> set (acl_history step event post (step op (fold step pre s))).
         e \<noteq> Withdrawn p t \<and> e \<noteq> PeerGone p)"
  using assms
proof (induction ops rule: rev_induct)
  case (snoc op ops)
  let ?s = "fold step ops s"
  show ?case
  proof (cases "event op ?s = Granted p t")
    case True
    then show ?thesis by (intro exI [of _ ops] exI [of _ op] exI [of _ "[]"]) simp
  next
    case False
    have "acl_apply (event op ?s) (allows ?s) p t"
      using snoc.prems(1) allows_step [of op ?s p t] by simp
    from acl_apply_keep [OF this False] have old: "allows ?s p t"
      and keep: "event op ?s \<noteq> Withdrawn p t" "event op ?s \<noteq> PeerGone p" by simp_all
    from snoc.IH [OF old snoc.prems(2)] obtain pre op' post where
      split: "ops = pre @ op' # post" and ev: "event op' (fold step pre s) = Granted p t"
      and none: "\<forall>e \<in> set (acl_history step event post (step op' (fold step pre s))).
         e \<noteq> Withdrawn p t \<and> e \<noteq> PeerGone p" by blast
    show ?thesis
      by (intro exI [of _ pre] exI [of _ op'] exI [of _ "post @ [op]"])
         (use split ev none keep in \<open>simp add: acl_history_append ball_Un\<close>)
  qed
qed simp

end

section \<open>Laws of the operations\<close>

lemma persist_frame [simp]:
  "st_inner (snd (persist_locked io st)) = st_inner st"
  "st_path (snd (persist_locked io st)) = st_path st"
  by (auto simp: persist_locked_def split: sum.splits fs_outcome.splits)

lemma persist_eq_frame:
  "persist_locked io st = (x, st') \<Longrightarrow> st_inner st' = st_inner st"
  using persist_frame(1) [of io st] by simp

lemma persist_ok:
  "persist_locked io st = (Inr u, st') \<Longrightarrow>
     \<exists>text. io_ser io (st_inner st) = Inr text \<and> st' = st\<lparr>st_file := Some text\<rparr>"
  by (auto simp: persist_locked_def split: sum.splits fs_outcome.splits)

lemma persist_err:
  "persist_locked io st = (Inl e, st') \<Longrightarrow> st' = st"
  by (auto simp: persist_locked_def split: sum.splits fs_outcome.splits)

lemma list_ex_peer_name: "list_ex (\<lambda>p. p_name p = n) ps \<longleftrightarrow> n \<in> p_name ` set ps"
  by (auto simp: list_ex_iff)

lemma list_ex_rule:
  "list_ex (\<lambda>r. r_peer r = p \<and> r_target r = t) rs \<longleftrightarrow> (p, t) \<in> (\<lambda>r. (r_peer r, r_target r)) ` set rs"
  by (auto simp: list_ex_iff)

text \<open>The state each mutation leaves, whatever persisting it returned.\<close>

lemma snd_persist_then [simp]:
  "snd (case persist_locked io st of (Inl e, st') \<Rightarrow> (Inl e, st') | (Inr _, st') \<Rightarrow> (Inr (f st'), st'))
     = snd (persist_locked io st)"
  by (cases "persist_locked io st"; cases "fst (persist_locked io st)") auto

lemma snd_add_peer:
  "snd (add_peer io p st) =
     (if p_name p \<in> p_name ` set (peers_of st) \<or> length (peers_of st) \<ge> MAX_PEERS then st
      else snd (persist_locked io (set_peers (peers_of st @ [p]) st)))"
  by (simp add: add_peer_def list_ex_peer_name)

lemma snd_add_rule:
  "snd (add_rule io p t st) =
     (if p \<notin> p_name ` set (peers_of st) \<or> length (rules_of st) \<ge> MAX_RULES \<or> (p, t) \<in> acl st then st
      else snd (persist_locked io
             (set_rules (rules_of st @ [\<lparr>r_peer = p, r_target = t, r_created_at = io_now io\<rparr>]) st)))"
proof (cases "position (\<lambda>r. r_peer r = p \<and> r_target r = t) (rules_of st)")
  case None
  then have "(p, t) \<notin> acl st" by (simp add: acl_def list_ex_rule position_None_iff)
  with None show ?thesis by (simp add: add_rule_def Let_def list_ex_peer_name)
next
  case (Some i)
  then have "(p, t) \<in> acl st" by (auto simp: acl_def dest!: position_Some_ex simp flip: list_ex_rule)
  with Some show ?thesis by (simp add: add_rule_def list_ex_peer_name)
qed

lemma filter_same_length: "length (filter P xs) = length xs \<Longrightarrow> filter P xs = xs"
  by (metis length_filter_less_iff filter_True list_ex_iff)

lemma snd_remove_rule:
  "snd (remove_rule io p t st) =
     (let rs = filter (\<lambda>r. \<not> (r_peer r = p \<and> r_target r = t)) (rules_of st) in
      if p \<notin> p_name ` set (peers_of st) \<or> length rs = length (rules_of st) then st
      else snd (persist_locked io (set_rules rs st)))"
proof (cases "length (filter (\<lambda>r. \<not> (r_peer r = p \<and> r_target r = t)) (rules_of st)) = length (rules_of st)")
  case True
  then show ?thesis
    using filter_same_length [OF True] by (simp add: remove_rule_def list_ex_peer_name)
qed (simp add: remove_rule_def Let_def list_ex_peer_name)

lemma snd_remove_peer:
  "snd (remove_peer io n f st) =
     (if n \<notin> p_name ` set (peers_of st) \<or> (\<exists>r \<in> set (rules_of st). r_peer r = n) \<and> \<not> f then st
      else snd (persist_locked io
             (set_rules (filter (\<lambda>r. r_peer r \<noteq> n) (rules_of st))
               (set_peers (filter (\<lambda>p. p_name p \<noteq> n) (peers_of st)) st))))"
  by (auto simp: remove_peer_def list_ex_peer_name list_ex_iff)

text \<open>In memory.\<close>

lemma inner_add_peer:
  "st_inner (snd (add_peer io p st)) =
     (if p_name p \<in> p_name ` set (peers_of st) \<or> length (peers_of st) \<ge> MAX_PEERS then st_inner st
      else (st_inner st)\<lparr>ps_peers := peers_of st @ [p]\<rparr>)"
  by (simp add: snd_add_peer)

lemma inner_touch:
  "\<exists>f. st_inner (touch_last_seen io n st) =
     (st_inner st)\<lparr>ps_peers := update_first (\<lambda>p. eq_ignore_ascii_case (p_node_id p) n) f (peers_of st)\<rparr>
     \<and> (\<forall>p. p_name (f p) = p_name p \<and> p_node_id (f p) = p_node_id p)"
  by (rule exI [of _ "\<lambda>p. p\<lparr>p_last_seen := io_now io\<rparr>"])
     (simp add: touch_last_seen_def Let_def update_first_id)

lemma inner_add_rule:
  "st_inner (snd (add_rule io p t st)) =
     (if p \<notin> p_name ` set (peers_of st) \<or> length (rules_of st) \<ge> MAX_RULES \<or> (p, t) \<in> acl st
      then st_inner st
      else (st_inner st)\<lparr>ps_rules := rules_of st @ [\<lparr>r_peer = p, r_target = t, r_created_at = io_now io\<rparr>]\<rparr>)"
  by (simp add: snd_add_rule)

lemma inner_remove_rule:
  "st_inner (snd (remove_rule io p t st)) =
     (if p \<notin> p_name ` set (peers_of st) then st_inner st
      else (st_inner st)\<lparr>ps_rules := filter (\<lambda>r. \<not> (r_peer r = p \<and> r_target r = t)) (rules_of st)\<rparr>)"
proof (cases "length (filter (\<lambda>r. \<not> (r_peer r = p \<and> r_target r = t)) (rules_of st)) = length (rules_of st)")
  case True
  then show ?thesis
    using filter_same_length [OF True] by (simp add: snd_remove_rule)
qed (simp add: snd_remove_rule Let_def)

lemma inner_remove_peer:
  "st_inner (snd (remove_peer io n f st)) =
     (if n \<notin> p_name ` set (peers_of st) \<or> (\<exists>r \<in> set (rules_of st). r_peer r = n) \<and> \<not> f then st_inner st
      else (st_inner st)\<lparr>ps_peers := filter (\<lambda>p. p_name p \<noteq> n) (peers_of st),
                         ps_rules := filter (\<lambda>r. r_peer r \<noteq> n) (rules_of st)\<rparr>)"
  by (auto simp: snd_remove_peer)

lemmas inner_ops = inner_add_peer inner_add_rule inner_remove_rule inner_remove_peer

subsection \<open>The invariant is kept\<close>

lemma wf_default: "state_wf persisted_default"
  by (simp add: state_wf_def persisted_default_def)

lemma wf_add_peer [inv_intro]: "state_wf (st_inner st) \<Longrightarrow> state_wf (st_inner (snd (add_peer io p st)))"
  by (auto simp: inner_add_peer state_wf_def)

lemma wf_touch [inv_intro]: "state_wf (st_inner st) \<Longrightarrow> state_wf (st_inner (touch_last_seen io n st))"
proof -
  assume wf: "state_wf (st_inner st)"
  obtain f where f: "st_inner (touch_last_seen io n st) = (st_inner st)\<lparr>ps_peers :=
      update_first (\<lambda>p. eq_ignore_ascii_case (p_node_id p) n) f (peers_of st)\<rparr>"
    and nm: "\<forall>p. p_name (f p) = p_name p"
    using inner_touch [of io n st] by blast
  have "map p_name (update_first (\<lambda>p. eq_ignore_ascii_case (p_node_id p) n) f (peers_of st))
      = map p_name (peers_of st)"
    using nm by simp
  then have "p_name ` set (update_first (\<lambda>p. eq_ignore_ascii_case (p_node_id p) n) f (peers_of st))
      = p_name ` set (peers_of st)"
    by (metis list.set_map)
  with wf f nm show ?thesis by (simp add: state_wf_def)
qed

lemma wf_add_rule [inv_intro]: "state_wf (st_inner st) \<Longrightarrow> state_wf (st_inner (snd (add_rule io p t st)))"
  by (auto simp: inner_add_rule state_wf_def acl_def)

lemma wf_remove_rule [inv_intro]:
  "state_wf (st_inner st) \<Longrightarrow> state_wf (st_inner (snd (remove_rule io p t st)))"
  by (auto simp: inner_remove_rule state_wf_def distinct_map_filter intro: le_trans [OF length_filter_le])

lemma wf_remove_peer [inv_intro]:
  "state_wf (st_inner st) \<Longrightarrow> state_wf (st_inner (snd (remove_peer io n f st)))"
  by (auto simp: inner_remove_peer state_wf_def distinct_map_filter intro: le_trans [OF length_filter_le])

lemma wf_state_step: "state_wf (st_inner st) \<Longrightarrow> state_wf (st_inner (state_step io op st))"
  by (cases op) (simp_all add: inv_intro)

lemma wf_state_run: "state_wf (st_inner st) \<Longrightarrow> state_wf (st_inner (state_run ops st))"
  by (induction ops st rule: state_run.induct) (simp_all add: wf_state_step)

subsection \<open>The contract holds\<close>

lemma rule_allows_iff: "rule_allows st p t \<longleftrightarrow> (p, t) \<in> acl st"
  by (simp add: rule_allows_def acl_def list_ex_rule)

lemma persist_result_cases:
  assumes "persist_locked io st = (Inl e, st')"
  shows "persist_failed e"
  using assms by (auto simp: persist_locked_def split: sum.splits fs_outcome.splits)

lemma fst_add_rule:
  "(case fst (add_rule io p t st) of Inr _ \<Rightarrow> True | Inl e \<Rightarrow> persist_failed e) \<longleftrightarrow>
     p \<in> p_name ` set (peers_of st) \<and> length (rules_of st) < MAX_RULES"
  by (auto simp: add_rule_def Let_def list_ex_peer_name dest: persist_result_cases
      split: option.splits prod.splits sum.splits)

lemma fst_remove_rule:
  "(case fst (remove_rule io p t st) of Inr b \<Rightarrow> b | Inl e \<Rightarrow> persist_failed e) \<longleftrightarrow>
     p \<in> p_name ` set (peers_of st) \<and> (p, t) \<in> acl st"
  by (auto simp: remove_rule_def Let_def list_ex_peer_name length_filter_less_iff list_ex_rule acl_def
      dest: persist_result_cases split: prod.splits sum.splits)

lemma fst_remove_peer:
  "(case fst (remove_peer io n f st) of Inr b \<Rightarrow> b | Inl e \<Rightarrow> persist_failed e) \<longleftrightarrow>
     n \<in> p_name ` set (peers_of st) \<and> ((\<exists>r \<in> set (rules_of st). r_peer r = n) \<longrightarrow> f)"
  by (auto simp: remove_peer_def list_ex_peer_name list_ex_iff
      dest: persist_result_cases split: prod.splits sum.splits)

lemma acl_touch: "acl (touch_last_seen io n st) = acl st"
  using inner_touch [of io n st] by (auto simp: acl_def)

lemma acl_add_peer: "acl (snd (add_peer io p st)) = acl st"
  by (simp add: acl_def inner_add_peer)

lemma acl_add_rule:
  "acl (snd (add_rule io p t st)) =
     (if p \<in> p_name ` set (peers_of st) \<and> length (rules_of st) < MAX_RULES
      then insert (p, t) (acl st) else acl st)"
  by (auto simp: acl_def inner_add_rule)

lemma acl_remove_rule:
  "acl (snd (remove_rule io p t st)) =
     (if p \<in> p_name ` set (peers_of st) then acl st - {(p, t)} else acl st)"
proof -
  have "{r \<in> set (rules_of st). \<not> (r_peer r = p \<and> r_target r = t)} =
      {r \<in> set (rules_of st). (r_peer r, r_target r) \<noteq> (p, t)}" by simp
  then show ?thesis
    unfolding acl_def by (simp add: inner_remove_rule) blast
qed

lemma acl_remove_peer:
  "acl (snd (remove_peer io n f st)) =
     (if n \<in> p_name ` set (peers_of st) \<and> ((\<exists>r \<in> set (rules_of st). r_peer r = n) \<longrightarrow> f)
      then {x \<in> acl st. fst x \<noteq> n} else acl st)"
  unfolding acl_def by (auto simp: inner_remove_peer)

lemmas acl_ops = acl_add_peer acl_touch acl_add_rule acl_remove_rule acl_remove_peer

interpretation rules: acl_store io_step state_event rule_allows
proof
  fix x :: "state_io \<times> state_op" and st p t
  obtain io op where x: "x = (io, op)" by (cases x)
  show "rule_allows (io_step x st) p t = acl_apply (state_event x st) (rule_allows st) p t"
  proof (cases op)
    case (OpAddPeer q)
    then show ?thesis by (simp add: x rule_allows_iff acl_ops)
  next
    case (OpTouch n)
    then show ?thesis by (simp add: x rule_allows_iff acl_ops)
  next
    case (OpAddRule q u)
    have "state_event x st =
        (if q \<in> p_name ` set (peers_of st) \<and> length (rules_of st) < MAX_RULES then Granted q u else NoAclChange)"
      using fst_add_rule [of io q u st] OpAddRule x by (auto split: sum.splits)
    then show ?thesis
      using OpAddRule x by (auto simp: rule_allows_iff acl_ops)
  next
    case (OpRemoveRule q u)
    have "state_event x st =
        (if q \<in> p_name ` set (peers_of st) \<and> (q, u) \<in> acl st then Withdrawn q u else NoAclChange)"
      using fst_remove_rule [of io q u st] OpRemoveRule x by (auto split: sum.splits)
    then show ?thesis
      using OpRemoveRule x by (auto simp: rule_allows_iff acl_ops)
  next
    case (OpRemovePeer n f)
    have "state_event x st =
        (if n \<in> p_name ` set (peers_of st) \<and> ((\<exists>r \<in> set (rules_of st). r_peer r = n) \<longrightarrow> f)
         then PeerGone n else NoAclChange)"
      using fst_remove_peer [of io n f st] OpRemovePeer x by (auto split: sum.splits)
    then show ?thesis
      using OpRemovePeer x by (auto simp: rule_allows_iff acl_ops)
  qed
qed

lemma state_run_fold: "state_run ops st = fold io_step ops st"
  by (induction ops st rule: state_run.induct) simp_all

subsection \<open>Durability\<close>

text \<open>What a restarted daemon reads: the file's text, or that there is none.\<close>

definition read_state_file :: "daemon_state \<Rightarrow> (io_error, string) result" where
  "read_state_file st = (case st_file st of Some text \<Rightarrow> Inr text | None \<Rightarrow> Inl IoNotFound)"

definition in_sync :: "(string \<Rightarrow> (string, persisted_state) result) \<Rightarrow> daemon_state \<Rightarrow> bool" where
  "in_sync de st =
     (case st_file st of Some text \<Rightarrow> de text = Inr (st_inner st) | None \<Rightarrow> st_inner st = persisted_default)"

text \<open>Every mutation of the sequence could be serialised, written and renamed.\<close>

fun persists :: "(persisted_state \<Rightarrow> (string, string) result) \<Rightarrow> (state_io \<times> state_op) list \<Rightarrow> daemon_state \<Rightarrow> bool" where
  "persists ser [] st = True"
| "persists ser ((io, op) # ops) st =
     (io_ser io = ser \<and> io_fs io = FsOk \<and> is_ok (ser (st_inner (state_step io op st)))
      \<and> persists ser ops (state_step io op st))"

lemma in_sync_load:
  "in_sync de st \<Longrightarrow> map_err (\<lambda>e. e) (state_load de (st_path st) (read_state_file st)) = Inr st"
  by (auto simp: in_sync_def state_load_def read_state_file_def map_err_def split: option.splits)

lemma in_sync_persist:
  assumes "io_fs io = FsOk" and "is_ok (io_ser io (st_inner st))"
    and "\<And>x t. io_ser io x = Inr t \<Longrightarrow> de t = Inr x"
  shows "in_sync de (snd (persist_locked io st))"
  using assms by (auto simp: persist_locked_def in_sync_def is_ok_def split: sum.splits)

lemma step_persisted_or_same:
  "state_step io op st = st \<or> (\<exists>st'. state_step io op st = snd (persist_locked io st') \<and> st_path st' = st_path st)"
proof (cases op)
  case (OpAddPeer p)
  then show ?thesis by (auto simp: snd_add_peer)
next
  case (OpTouch n)
  then show ?thesis by (auto simp: touch_last_seen_def Let_def)
next
  case (OpAddRule p t)
  then show ?thesis by (auto simp: snd_add_rule)
next
  case (OpRemoveRule p t)
  then show ?thesis by (auto simp: snd_remove_rule Let_def)
next
  case (OpRemovePeer n f)
  then show ?thesis by (auto simp: snd_remove_peer)
qed

lemma in_sync_step:
  assumes "in_sync de st" and "io_fs io = FsOk" and "is_ok (io_ser io (st_inner (state_step io op st)))"
    and "\<And>x t. io_ser io x = Inr t \<Longrightarrow> de t = Inr x"
  shows "in_sync de (state_step io op st)"
  using step_persisted_or_same [of io op st]
proof
  assume "\<exists>st'. state_step io op st = snd (persist_locked io st') \<and> st_path st' = st_path st"
  then obtain st' where st': "state_step io op st = snd (persist_locked io st')" by blast
  with assms(3) have "is_ok (io_ser io (st_inner st'))" by simp
  then show ?thesis
    unfolding st' using assms(2,4) by (intro in_sync_persist)
qed (use assms in simp)

lemma st_path_step: "st_path (state_step io op st) = st_path st"
  using step_persisted_or_same [of io op st] by auto

lemma persists_sync:
  assumes "in_sync de st" and "persists ser ops st"
    and "\<And>x t. ser x = Inr t \<Longrightarrow> de t = Inr x"
  shows "in_sync de (state_run ops st)"
  using assms
proof (induction ops st rule: state_run.induct)
  case (2 io op ops st)
  have "in_sync de (state_step io op st)"
    by (rule in_sync_step) (use 2 in \<open>auto simp: is_ok_def\<close>)
  with 2 show ?case by simp
qed simp

section \<open>Properties\<close>

text \<open>C9: whatever sequence of pairings, grants, revocations, removals and activity updates the
  daemon performs, and whatever the file system answers, the state stays well formed: peer names
  are unique, every rule belongs to a registered peer, no rule is stored twice, and there are at
  most 256 peers and 1024 rules.\<close>

theorem state_run_wf:
  assumes "state_wf (st_inner st)"
  shows "state_wf (st_inner (state_run ops st))"
  using assms by (rule wf_state_run)

theorem state_run_wf_witness:
  "state_wf (st_inner (state_run
     [(\<lparr>io_ser = (\<lambda>_. Inl ''e''), io_fs = FsOk, io_now = ''t''\<rparr>, OpAddRule ''a'' ''h:1'')]
     \<lparr>st_path = ''p'', st_inner = persisted_default, st_file = None\<rparr>))"
  by (rule state_run_wf) (simp add: wf_default)

text \<open>C10: the access rules implement their abstract history exactly: after any sequence of
  operations, whatever their file operations returned, a peer may reach a target if and only if
  that is what the grants, revocations and peer removals, applied in order, say.\<close>

theorem rule_allows_history:
  "rule_allows (state_run ops st) p t =
     fold acl_apply (acl_history io_step state_event ops st) (rule_allows st) p t"
  unfolding state_run_fold by (rule rules.allows_history)

text \<open>No access without a grant: if a peer may reach a target that it could not reach before
  a sequence of operations, then the sequence contains an \<open>add_rule\<close> for exactly that
  peer and target, and nothing after it revoked the rule or removed the peer.\<close>

lemma access_needs_grant:
  assumes "rule_allows (state_run ops st) p t" and "\<not> rule_allows st p t"
  shows "\<exists>pre io post. ops = pre @ (io, OpAddRule p t) # post
    \<and> (\<forall>e \<in> set (acl_history io_step state_event post (state_run (pre @ [(io, OpAddRule p t)]) st)).
         e \<noteq> Withdrawn p t \<and> e \<noteq> PeerGone p)"
proof -
  obtain pre x post where ops: "ops = pre @ x # post"
    and ev: "state_event x (fold io_step pre st) = Granted p t"
    and none: "\<forall>e \<in> set (acl_history io_step state_event post (io_step x (fold io_step pre st))).
      e \<noteq> Withdrawn p t \<and> e \<noteq> PeerGone p"
    using rules.allows_needs_grant [of ops st p t] assms unfolding state_run_fold by blast
  obtain io op where x: "x = (io, op)" by (cases x)
  have "op = OpAddRule p t"
    using ev unfolding x by (cases op) (auto split: sum.splits if_splits)
  then show ?thesis
    using ops none x by (auto simp: state_run_fold)
qed

text \<open>C11: durability: if every file operation of a sequence of mutations succeeded, a daemon
  restarted afterwards loads exactly the state the old one had in memory, for any TOML library
  that reads back what it wrote.\<close>

theorem state_survives_restart:
  assumes "persists ser ops st" and "in_sync de st"
    and "\<And>x t. ser x = Inr t \<Longrightarrow> de t = Inr x"
  shows "state_load de (st_path st) (read_state_file (state_run ops st)) = Inr (state_run ops st)"
proof -
  have "in_sync de (state_run ops st)"
    using assms by (intro persists_sync)
  moreover have "st_path (state_run ops st) = st_path st"
    by (induction ops st rule: state_run.induct) (simp_all add: st_path_step)
  ultimately show ?thesis
    using in_sync_load [of de "state_run ops st"] by (simp add: map_err_def split: sum.splits)
qed

definition witness_state :: persisted_state where
  "witness_state = \<lparr>ps_version = 1, ps_peers =
     [\<lparr>p_name = ''a'', p_node_id = ''ff'', p_paired_at = ''t'', p_last_seen = ''t''\<rparr>], ps_rules = []\<rparr>"

theorem state_survives_restart_witness:
  "let ser = (\<lambda>x. if x = witness_state then Inr ''A'' else Inl ''no'');
       de = (\<lambda>t. if t = ''A'' then Inr witness_state else Inl ''bad'');
       st = \<lparr>st_path = ''p'', st_inner = persisted_default, st_file = None\<rparr>;
       ops = [(\<lparr>io_ser = ser, io_fs = FsOk, io_now = ''t''\<rparr>,
               OpAddPeer \<lparr>p_name = ''a'', p_node_id = ''ff'', p_paired_at = ''t'', p_last_seen = ''t''\<rparr>)]
   in state_load de ''p'' (read_state_file (state_run ops st)) = Inr (state_run ops st)"
  unfolding Let_def
  by (rule state_survives_restart [of "\<lambda>x. if x = witness_state then Inr ''A'' else Inl ''no''"
        _ "\<lparr>st_path = ''p'', st_inner = persisted_default, st_file = None\<rparr>", simplified])
     (simp_all add: add_peer_def persist_locked_def persisted_default_def witness_state_def
        in_sync_def is_ok_def MAX_PEERS_def split: if_splits)

text \<open>A granted rule is in force at the index returned, the peers and the other rules with
  their indices are untouched, and granting it again changes nothing and returns the same index,
  except that a table which has just become full answers \<open>RuleCap\<close> even for a rule it holds.\<close>

lemma add_rule_granted:
  assumes "add_rule io p t st = (Inr i, st')"
  shows "i < length (rules_of st') \<and> r_peer (rules_of st' ! i) = p \<and> r_target (rules_of st' ! i) = t
    \<and> peers_of st' = peers_of st
    \<and> (rules_of st' = rules_of st \<or> i = length (rules_of st) \<and> take i (rules_of st') = rules_of st)
    \<and> add_rule io' p t st' = (if length (rules_of st') = MAX_RULES then Inl StRuleCap else Inr i, st')"
proof (cases "position (\<lambda>r. r_peer r = p \<and> r_target r = t) (rules_of st)")
  case None
  then have "list_all (\<lambda>r. \<not> (r_peer r = p \<and> r_target r = t)) (rules_of st)"
    by (simp add: position_None_iff list_ex_iff list_all_iff)
  then have pos: "position (\<lambda>r. r_peer r = p \<and> r_target r = t)
      (rules_of st @ [\<lparr>r_peer = p, r_target = t, r_created_at = now\<rparr>]) = Some (length (rules_of st))" for now
    by (simp add: position_Some_iff nth_append list_all_length)
  from None assms have new: "i = length (rules_of st)" "length (rules_of st) < MAX_RULES"
    "list_ex (\<lambda>q. p_name q = p) (peers_of st)"
    "st_inner st' = (st_inner st)\<lparr>ps_rules := rules_of st @ [\<lparr>r_peer = p, r_target = t, r_created_at = io_now io\<rparr>]\<rparr>"
    by (auto simp: add_rule_def Let_def split: if_splits prod.splits sum.splits dest!: persist_eq_frame)
  then have "add_rule io' p t st' = (if length (rules_of st') = MAX_RULES then Inl StRuleCap else Inr i, st')"
    by (simp add: add_rule_def pos)
  with new show ?thesis by simp
next
  case (Some j)
  with assms have "st' = st" and "i = j" and "length (rules_of st) < MAX_RULES"
    by (auto simp: add_rule_def split: if_splits)
  moreover have "add_rule io' p t st = (Inr j, st)"
    using assms Some by (auto simp: add_rule_def split: if_splits)
  ultimately show ?thesis
    using position_lt [OF Some] position_sat [OF Some] by simp
qed

text \<open>C34: removing a peer takes all of its rules with it: afterwards the name is free and reaches
  nothing, every other peer and its access are as before, and without \<open>force\<close> it only
  succeeds for a peer that had no rule.\<close>

theorem remove_peer_cascades:
  assumes "remove_peer io n f st = (Inr True, st')"
  shows "is_name_free st' n \<and> \<not> is_name_free st n \<and> \<not> rule_allows st' n t
    \<and> (rule_allows st n t \<longrightarrow> f)
    \<and> (m \<noteq> n \<longrightarrow> peer_by_name st' m = peer_by_name st m \<and> rule_allows st' m t = rule_allows st m t)"
proof -
  have inner: "peers_of st' = filter (\<lambda>p. p_name p \<noteq> n) (peers_of st)"
    "rules_of st' = filter (\<lambda>r. r_peer r \<noteq> n) (rules_of st)"
    using assms by (auto simp: remove_peer_def split: if_splits prod.splits sum.splits dest!: persist_eq_frame)
  have "List.find (\<lambda>p. p_name p = m) (filter (\<lambda>p. p_name p \<noteq> n) ps) = List.find (\<lambda>p. p_name p = m) ps"
    if "m \<noteq> n" for ps
    using that by (induction ps) auto
  moreover have "\<not> is_name_free st n \<and> (rule_allows st n t \<longrightarrow> f)"
    using assms by (auto simp: remove_peer_def is_name_free_def rule_allows_def list_ex_iff split: if_splits)
  ultimately show ?thesis
    using inner by (auto simp: is_name_free_def rule_allows_def peer_by_name_def list_ex_iff)
qed

theorem remove_peer_cascades_witness:
  "let st = \<lparr>st_path = ''p'', st_inner = witness_state\<lparr>ps_rules :=
              [\<lparr>r_peer = ''a'', r_target = ''h:1'', r_created_at = ''t''\<rparr>]\<rparr>, st_file = None\<rparr>;
       io = \<lparr>io_ser = (\<lambda>_. Inr ''B''), io_fs = FsOk, io_now = ''t''\<rparr>
   in rule_allows st ''a'' ''h:1'' \<and> \<not> rule_allows (snd (remove_peer io ''a'' True st)) ''a'' ''h:1''"
  using remove_peer_cascades
    [of "\<lparr>io_ser = (\<lambda>_. Inr ''B''), io_fs = FsOk, io_now = ''t''\<rparr>" "''a''" True
        "\<lparr>st_path = ''p'', st_inner = witness_state\<lparr>ps_rules :=
              [\<lparr>r_peer = ''a'', r_target = ''h:1'', r_created_at = ''t''\<rparr>]\<rparr>, st_file = None\<rparr>"
        "snd (remove_peer \<lparr>io_ser = (\<lambda>_. Inr ''B''), io_fs = FsOk, io_now = ''t''\<rparr> ''a'' True
          \<lparr>st_path = ''p'', st_inner = witness_state\<lparr>ps_rules :=
              [\<lparr>r_peer = ''a'', r_target = ''h:1'', r_created_at = ''t''\<rparr>]\<rparr>, st_file = None\<rparr>)"
        "''h:1''"]
  by (simp add: remove_peer_def persist_locked_def witness_state_def rule_allows_def)

text \<open>A new peer is found by its node id in any letter case, unless that node was already
  registered under an older name, which then keeps answering for it.\<close>

lemma peer_by_node_after_add:
  assumes "add_peer io p st = (Inr (), st')" and "eq_ignore_ascii_case (p_node_id p) node"
  shows "peer_by_node st' node = (case peer_by_node st node of Some q \<Rightarrow> Some q | None \<Rightarrow> Some p)"
proof -
  from assms(1) have "peers_of st' = peers_of st @ [p]"
    using inner_add_peer [of io p st]
    by (auto simp: add_peer_def list_ex_peer_name split: if_splits)
  with assms(2) show ?thesis
    by (auto simp: peer_by_node_def find_append split: option.splits)
qed

lemma eq_FF: "eq_ignore_ascii_case ''ff'' ''FF''"
  by code_simp

text \<open>A pairing whose state file could not be written is reported as an error, yet the peer
  is in memory: it is found by its node id, its name is taken and rules can be granted to it,
  until the next restart, when it is gone.\<close>

lemma failed_persist_still_registers:
  assumes "is_name_free st (p_name p)" and "length (peers_of st) < MAX_PEERS"
    and "peer_by_node st (p_node_id p) = None" and "io_fs io = FsRenameErr e"
    and "io_ser io ((st_inner st)\<lparr>ps_peers := peers_of st @ [p]\<rparr>) = Inr text"
  shows "fst (add_peer io p st) = Inl (StIo e)
    \<and> peer_by_node (snd (add_peer io p st)) (p_node_id p) = Some p
    \<and> st_file (snd (add_peer io p st)) = st_file st"
  using assms
  by (simp add: add_peer_def is_name_free_def persist_locked_def peer_by_node_def find_append)

lemma failed_persist_still_registers_example:
  "let p = \<lparr>p_name = ''a'', p_node_id = ''ff'', p_paired_at = ''t'', p_last_seen = ''t''\<rparr>;
       st = \<lparr>st_path = ''p'', st_inner = persisted_default, st_file = None\<rparr>;
       io = \<lparr>io_ser = (\<lambda>_. Inr ''A''), io_fs = FsRenameErr IoNotFound, io_now = ''t''\<rparr>
   in fst (add_peer io p st) = Inl (StIo IoNotFound)
      \<and> peer_by_node (snd (add_peer io p st)) ''ff'' = Some p
      \<and> st_file (snd (add_peer io p st)) = None"
  using failed_persist_still_registers
    [of "\<lparr>st_path = ''p'', st_inner = persisted_default, st_file = None\<rparr>"
        "\<lparr>p_name = ''a'', p_node_id = ''ff'', p_paired_at = ''t'', p_last_seen = ''t''\<rparr>"
        "\<lparr>io_ser = (\<lambda>_. Inr ''A''), io_fs = FsRenameErr IoNotFound, io_now = ''t''\<rparr>"
        IoNotFound "''A''"]
  by (simp add: is_name_free_def persisted_default_def MAX_PEERS_def peer_by_node_def)

end
