(* ===== verification/Sessions.thy ===== *)
theory Sessions
  imports Ipc_Proto Rust_Str
begin

text \<open>
  The registry of live data-plane connections, \<open>tmite-core/src/daemon/sessions.rs\<close>.  Entries
  are shared through \<open>Arc\<close> and compared by address, so they live in a heap and the registry
  maps a node id to an address.  Node ids are ASCII hex, for which \<open>to_lowercase\<close> is the
  ASCII one.  The paths of a connection are what the QUIC library reports when asked.
\<close>

section \<open>Counting live streams\<close>

text \<open>The contract of a counter of live streams per target, and what it counts over any interleaving
  of streams that open and close.\<close>

datatype live_event = StreamOpen string | StreamClose string

fun opens :: "string \<Rightarrow> live_event list \<Rightarrow> nat" where
  "opens t [] = 0"
| "opens t (StreamOpen u # evs) = (if u = t then 1 else 0) + opens t evs"
| "opens t (StreamClose u # evs) = opens t evs"

fun closes :: "string \<Rightarrow> live_event list \<Rightarrow> nat" where
  "closes t [] = 0"
| "closes t (StreamOpen u # evs) = closes t evs"
| "closes t (StreamClose u # evs) = (if u = t then 1 else 0) + closes t evs"

text \<open>Every close of the target has an open stream to close, starting with \<open>n\<close> of them.\<close>

fun matched :: "string \<Rightarrow> nat \<Rightarrow> live_event list \<Rightarrow> bool" where
  "matched t n [] = True"
| "matched t n (StreamOpen u # evs) = matched t (if u = t then Suc n else n) evs"
| "matched t n (StreamClose u # evs) =
     (if u = t then 0 < n \<and> matched t (n - 1) evs else matched t n evs)"

fun run_live :: "(string \<Rightarrow> 's \<Rightarrow> 's) \<Rightarrow> (string \<Rightarrow> 's \<Rightarrow> 's) \<Rightarrow> live_event list \<Rightarrow> 's \<Rightarrow> 's" where
  "run_live incr decr [] s = s"
| "run_live incr decr (StreamOpen t # evs) s = run_live incr decr evs (incr t s)"
| "run_live incr decr (StreamClose t # evs) s = run_live incr decr evs (decr t s)"

locale live_counter =
  fixes incr :: "string \<Rightarrow> 's \<Rightarrow> 's"
    and decr :: "string \<Rightarrow> 's \<Rightarrow> 's"
    and cnt :: "'s \<Rightarrow> string \<Rightarrow> nat"
    and ok :: "'s \<Rightarrow> bool"
  assumes cnt_incr: "ok s \<Longrightarrow> cnt (incr t s) u = (if u = t then Suc (cnt s u) else cnt s u)"
    and cnt_decr: "ok s \<Longrightarrow> cnt (decr t s) u = (if u = t then cnt s u - 1 else cnt s u)"
    and ok_incr: "ok s \<Longrightarrow> ok (incr t s)"
    and ok_decr: "ok s \<Longrightarrow> ok (decr t s)"
begin

lemma cnt_run:
  "ok s \<Longrightarrow> matched t (cnt s t) evs \<Longrightarrow>
     cnt (run_live incr decr evs s) t + closes t evs = cnt s t + opens t evs"
proof (induction evs arbitrary: s)
  case (Cons e evs)
  show ?case
  proof (cases e)
    case (StreamOpen u)
    with Cons.prems Cons.IH [of "incr u s"] show ?thesis
      by (auto simp: cnt_incr ok_incr split: if_splits)
  next
    case (StreamClose u)
    with Cons.prems Cons.IH [of "decr u s"] show ?thesis
      by (auto simp: cnt_decr ok_decr split: if_splits)
  qed
qed simp

lemma ok_run: "ok s \<Longrightarrow> ok (run_live incr decr evs s)"
proof (induction evs arbitrary: s)
  case (Cons e evs)
  then show ?case by (cases e) (simp_all add: ok_incr ok_decr)
qed simp

end

section \<open>Entries\<close>

record announced_forward =
  af_local :: string
  af_target :: string

text \<open>One path of a connection as the library reports it.\<close>

record conn_path =
  cp_is_relay :: bool
  cp_remote_addr :: string
  cp_is_selected :: bool
  cp_rtt_ms :: nat

record session_entry =
  sn_peer_name :: string
  sn_node_id :: string
  sn_connected_at :: instant
  sn_conn :: nat
  sn_forwards :: "announced_forward list"
  sn_live :: "(string \<times> nat) list"

definition session_entry_new :: "string \<Rightarrow> string \<Rightarrow> nat \<Rightarrow> instant \<Rightarrow> session_entry" where
  "session_entry_new peer_name node_id conn now =
     \<lparr>sn_peer_name = peer_name, sn_node_id = node_id, sn_connected_at = now, sn_conn = conn,
      sn_forwards = [], sn_live = []\<rparr>"

definition entry_set_forwards :: "announced_forward list \<Rightarrow> session_entry \<Rightarrow> session_entry" where
  "entry_set_forwards fwds e = e\<lparr>sn_forwards := fwds\<rparr>"

definition forward_open :: "string \<Rightarrow> session_entry \<Rightarrow> session_entry" where
  "forward_open target e =
     e\<lparr>sn_live := hm_insert target
         ((case map_of (sn_live e) target of Some n \<Rightarrow> n | None \<Rightarrow> 0) + 1) (sn_live e)\<rparr>"

definition forward_close :: "string \<Rightarrow> session_entry \<Rightarrow> session_entry" where
  "forward_close target e =
     (case map_of (sn_live e) target of
        None \<Rightarrow> e
      | Some n \<Rightarrow>
          let n' = n - 1 in
          if n' = 0 then e\<lparr>sn_live := hm_remove target (sn_live e)\<rparr>
          else e\<lparr>sn_live := hm_insert target n' (sn_live e)\<rparr>)"

definition live_count :: "session_entry \<Rightarrow> string \<Rightarrow> nat" where
  "live_count e target = (case map_of (sn_live e) target of Some n \<Rightarrow> n | None \<Rightarrow> 0)"

definition path_snapshot :: "conn_path \<Rightarrow> path_info" where
  "path_snapshot p =
     \<lparr>pa_kind = (if cp_is_relay p then Relay else Direct), pa_addr = Some (cp_remote_addr p),
      pa_selected = cp_is_selected p, pa_rtt_ms = Some (min (cp_rtt_ms p) (2 ^ 64 - 1))\<rparr>"

definition entry_snapshot :: "(nat \<Rightarrow> conn_path list) \<Rightarrow> instant \<Rightarrow> session_entry \<Rightarrow> session_info" where
  "entry_snapshot paths_of now e =
     \<lparr>si_connected_secs = (now - sn_connected_at e) div 1000,
      si_forwards = map (\<lambda>f. \<lparr>fi_local = af_local f, fi_target = af_target f,
                             fi_live = live_count e (af_target f)\<rparr>) (sn_forwards e),
      si_paths = map path_snapshot (paths_of (sn_conn e))\<rparr>"

section \<open>The registry\<close>

type_synonym addr = nat

record sessions =
  ss_heap :: "addr \<Rightarrow> session_entry option"
  ss_inner :: "(string \<times> addr) list"

definition sessions_new :: sessions where
  "sessions_new = \<lparr>ss_heap = (\<lambda>_. None), ss_inner = []\<rparr>"

text \<open>\<open>Arc::new\<close> at an unused address.\<close>

definition alloc_entry :: "addr \<Rightarrow> session_entry \<Rightarrow> sessions \<Rightarrow> sessions" where
  "alloc_entry a e s = s\<lparr>ss_heap := (ss_heap s)(a \<mapsto> e)\<rparr>"

text \<open>A mutation of a shared entry through its address.\<close>

definition update_entry :: "addr \<Rightarrow> (session_entry \<Rightarrow> session_entry) \<Rightarrow> sessions \<Rightarrow> sessions" where
  "update_entry a f s = s\<lparr>ss_heap := (ss_heap s)(a := map_option f (ss_heap s a))\<rparr>"

definition node_key :: "sessions \<Rightarrow> addr \<Rightarrow> string" where
  "node_key s a = (case ss_heap s a of Some e \<Rightarrow> to_ascii_lowercase (sn_node_id e) | None \<Rightarrow> [])"

definition register :: "addr \<Rightarrow> sessions \<Rightarrow> sessions" where
  "register a s = s\<lparr>ss_inner := hm_insert (node_key s a) a (ss_inner s)\<rparr>"

definition unregister :: "addr \<Rightarrow> sessions \<Rightarrow> sessions" where
  "unregister a s =
     (if map_of (ss_inner s) (node_key s a) = Some a
      then s\<lparr>ss_inner := hm_remove (node_key s a) (ss_inner s)\<rparr> else s)"

definition peer_snapshot ::
  "(nat \<Rightarrow> conn_path list) \<Rightarrow> instant \<Rightarrow> sessions \<Rightarrow> string \<Rightarrow> session_info option" where
  "peer_snapshot paths_of now s node_id_hex =
     (case map_of (ss_inner s) (to_ascii_lowercase node_id_hex) of
        None \<Rightarrow> None
      | Some a \<Rightarrow> map_option (entry_snapshot paths_of now) (ss_heap s a))"

text \<open>The life of connections as the accept loops drive it: each registers its own entry once,
  updates it while it lives and unregisters it at the end, in any interleaving.\<close>

datatype session_event =
    SessRegister addr session_entry
  | SessUpdate addr "session_entry \<Rightarrow> session_entry"
  | SessUnregister addr

fun session_step :: "session_event \<Rightarrow> sessions \<Rightarrow> sessions" where
  "session_step (SessRegister a e) s = register a (alloc_entry a e s)"
| "session_step (SessUpdate a f) s = update_entry a f s"
| "session_step (SessUnregister a) s = unregister a s"

text \<open>The events are possible: an address is fresh when its entry is created, an entry keeps its
  node id, and an entry is updated or unregistered only after its creation.\<close>

fun event_ok :: "session_event \<Rightarrow> sessions \<Rightarrow> bool" where
  "event_ok (SessRegister a e) s = (ss_heap s a = None)"
| "event_ok (SessUpdate a f) s = (case ss_heap s a of Some e \<Rightarrow> sn_node_id (f e) = sn_node_id e | None \<Rightarrow> False)"
| "event_ok (SessUnregister a) s = (ss_heap s a \<noteq> None)"

fun events_ok :: "session_event list \<Rightarrow> sessions \<Rightarrow> bool" where
  "events_ok [] s = True"
| "events_ok (ev # evs) s = (event_ok ev s \<and> events_ok evs (session_step ev s))"

text \<open>The connection a node should be reported under: the last one registered for it, until that
  one is unregistered.\<close>

fun current_conn :: "session_event list \<Rightarrow> string \<Rightarrow> addr option \<Rightarrow> addr option" where
  "current_conn [] k c = c"
| "current_conn (SessRegister a e # evs) k c =
     current_conn evs k (if to_ascii_lowercase (sn_node_id e) = k then Some a else c)"
| "current_conn (SessUpdate a f # evs) k c = current_conn evs k c"
| "current_conn (SessUnregister a # evs) k c = current_conn evs k (if c = Some a then None else c)"

section \<open>Laws\<close>

definition live_ok :: "session_entry \<Rightarrow> bool" where
  "live_ok e = (hm_wf (sn_live e) \<and> (\<forall>n \<in> ran (map_of (sn_live e)). 0 < n))"

lemma live_ok_open: "live_ok e \<Longrightarrow> live_ok (forward_open t e)"
  by (auto simp: live_ok_def forward_open_def hm_wf_insert ran_def split: if_splits option.splits)

lemma live_ok_close: "live_ok e \<Longrightarrow> live_ok (forward_close t e)"
  by (auto simp: live_ok_def forward_close_def Let_def hm_wf_insert hm_wf_remove ran_def
      split: if_splits option.splits)

interpretation live: live_counter forward_open forward_close live_count live_ok
proof unfold_locales
  fix e t u
  assume ok: "live_ok e"
  show "live_count (forward_open t e) u = (if u = t then Suc (live_count e u) else live_count e u)"
    by (auto simp: live_count_def forward_open_def split: option.splits)
  show "live_count (forward_close t e) u = (if u = t then live_count e u - 1 else live_count e u)"
    by (auto simp: live_count_def forward_close_def Let_def split: option.splits)
qed (simp_all add: live_ok_open live_ok_close)

definition reg_inv :: "sessions \<Rightarrow> bool" where
  "reg_inv s = (hm_wf (ss_inner s) \<and>
     (\<forall>k a. map_of (ss_inner s) k = Some a \<longrightarrow> ss_heap s a \<noteq> None \<and> node_key s a = k))"

lemma node_key_inner [simp]: "node_key (s\<lparr>ss_inner := m\<rparr>) a = node_key s a"
  by (simp add: node_key_def)

lemma reg_invI:
  assumes "hm_wf (ss_inner s)"
    and "\<And>k a. map_of (ss_inner s) k = Some a \<Longrightarrow> ss_heap s a \<noteq> None \<and> node_key s a = k"
  shows "reg_inv s"
  using assms unfolding reg_inv_def by blast

lemma reg_invD:
  assumes "reg_inv s"
  shows "hm_wf (ss_inner s)"
    and "map_of (ss_inner s) k = Some a \<Longrightarrow> ss_heap s a \<noteq> None"
    and "map_of (ss_inner s) k = Some a \<Longrightarrow> node_key s a = k"
  using assms unfolding reg_inv_def by blast+

lemma reg_inv_register:
  assumes "reg_inv s" and "ss_heap s a = None"
  shows "reg_inv (register a (alloc_entry a e s))"
proof (rule reg_invI)
  fix k b
  assume *: "map_of (ss_inner (register a (alloc_entry a e s))) k = Some b"
  show "ss_heap (register a (alloc_entry a e s)) b \<noteq> None \<and> node_key (register a (alloc_entry a e s)) b = k"
  proof (cases "k = to_ascii_lowercase (sn_node_id e)")
    case True
    with * show ?thesis by (simp add: register_def alloc_entry_def node_key_def)
  next
    case False
    with * have "map_of (ss_inner s) k = Some b" by (simp add: register_def alloc_entry_def node_key_def)
    with reg_invD(2,3) [OF assms(1), of k b] assms(2) show ?thesis
      by (cases "b = a") (auto simp: register_def alloc_entry_def node_key_def)
  qed
qed (simp add: register_def alloc_entry_def hm_wf_insert reg_invD(1) [OF assms(1)])

lemma reg_inv_update:
  assumes "reg_inv s" and "ss_heap s a = Some e" and "sn_node_id (f e) = sn_node_id e"
  shows "reg_inv (update_entry a f s)"
proof -
  have "node_key (update_entry a f s) b = node_key s b" for b
    using assms(2,3) by (simp add: node_key_def update_entry_def)
  then show ?thesis
    using reg_invD [OF assms(1)] assms(2) by (intro reg_invI) (auto simp: update_entry_def)
qed

lemma reg_inv_unregister:
  assumes "reg_inv s"
  shows "reg_inv (unregister a s)"
proof (rule reg_invI)
  fix k b
  assume "map_of (ss_inner (unregister a s)) k = Some b"
  then have "map_of (ss_inner s) k = Some b" by (simp add: unregister_def split: if_splits)
  with reg_invD(2,3) [OF assms, of k b]
  show "ss_heap (unregister a s) b \<noteq> None \<and> node_key (unregister a s) b = k"
    by (simp add: unregister_def)
qed (simp add: unregister_def hm_wf_remove reg_invD(1) [OF assms])

lemma reg_inv_step: "reg_inv s \<Longrightarrow> event_ok ev s \<Longrightarrow> reg_inv (session_step ev s)"
  by (cases ev) (auto simp: reg_inv_register reg_inv_update reg_inv_unregister split: option.splits)

lemma current_step:
  assumes "reg_inv s" and "event_ok ev s"
  shows "map_of (ss_inner (session_step ev s)) k = current_conn [ev] k (map_of (ss_inner s) k)"
proof (cases ev)
  case (SessRegister a e)
  then show ?thesis by (simp add: register_def alloc_entry_def node_key_def)
next
  case (SessUpdate a f)
  then show ?thesis by (simp add: update_entry_def)
next
  case (SessUnregister a)
  have key: "k = node_key s a" if "map_of (ss_inner s) k = Some a"
    using that assms(1) by (simp add: reg_inv_def)
  show ?thesis
  proof (cases "map_of (ss_inner s) (node_key s a) = Some a")
    case True
    with SessUnregister key show ?thesis by (cases "k = node_key s a") (auto simp: unregister_def)
  next
    case False
    with key have "map_of (ss_inner s) k \<noteq> Some a" by blast
    with SessUnregister False show ?thesis by (simp add: unregister_def)
  qed
qed

lemma current_conn_Cons: "current_conn (ev # evs) k c = current_conn evs k (current_conn [ev] k c)"
  by (cases ev) simp_all

lemma registry_refines:
  "reg_inv s \<Longrightarrow> events_ok evs s \<Longrightarrow>
     map_of (ss_inner (fold session_step evs s)) k = current_conn evs k (map_of (ss_inner s) k)"
proof (induction evs arbitrary: s)
  case (Cons ev evs)
  then show ?case
    by (subst current_conn_Cons) (simp add: reg_inv_step current_step)
qed simp

section \<open>Properties\<close>

text \<open>Over every interleaving of streams on one connection, the live count of a target is the
  number of its streams that opened less those that closed, so the status view neither loses nor
  keeps streams.\<close>

lemma live_count_exact:
  assumes "matched t 0 evs"
  shows "live_count (run_live forward_open forward_close evs (session_entry_new p n c now)) t
           + closes t evs = opens t evs"
proof -
  have "live_ok (session_entry_new p n c now)" and "live_count (session_entry_new p n c now) t = 0"
    by (simp_all add: live_ok_def session_entry_new_def live_count_def)
  with live.cnt_run [of "session_entry_new p n c now" t evs] assms show ?thesis by simp
qed

lemma live_count_exact_example:
  "live_count (run_live forward_open forward_close
      [StreamOpen ''a'', StreamOpen ''a'', StreamClose ''a''] (session_entry_new [] [] 0 0)) ''a'' + 1 = 2"
  using live_count_exact [of "''a''" "[StreamOpen ''a'', StreamOpen ''a'', StreamClose ''a'']" "[]" "[]" 0 0]
  by simp

text \<open>C35: the registry reports a node under its newest connection: after any interleaving of
  connections that register, change and unregister, the entry of a node is the last one registered
  for it, unless that very connection has unregistered; an old connection winding down never
  removes its replacement.\<close>

theorem registry_current:
  assumes "events_ok evs sessions_new"
  shows "map_of (ss_inner (fold session_step evs sessions_new)) k = current_conn evs k None"
  using registry_refines [of sessions_new evs k] assms
  by (simp add: reg_inv_def sessions_new_def)

theorem registry_current_witness:
  "map_of (ss_inner (fold session_step
      [SessRegister 1 (session_entry_new ''p'' ''A'' 10 0), SessRegister 2 (session_entry_new ''p'' ''a'' 11 5),
       SessUnregister 1] sessions_new)) ''a'' = Some 2"
proof -
  have "to_ascii_lowercase ''A'' = ''a''" and "to_ascii_lowercase ''a'' = ''a''" by code_simp+
  then show ?thesis
    using registry_current
      [of "[SessRegister 1 (session_entry_new ''p'' ''A'' 10 0), SessRegister 2 (session_entry_new ''p'' ''a'' 11 5),
         SessUnregister 1]" "''a''"]
    by (simp add: session_entry_new_def sessions_new_def register_def alloc_entry_def)
qed

end
