(* ===== verification/Notify.thy ===== *)
theory Notify
  imports Fsio Proto_Limits
begin

text \<open>
  Push notifications, \<open>tmite-core/src/daemon/notify.rs\<close>: the configuration file, the events and
  their messages, the per-subject cooldown and the drain loop that consumes the event channel.  The
  TOML library, the file system, the host name and the ntfy server are arguments.
\<close>

section \<open>Configuration\<close>

definition COOLDOWN :: duration where
  "COOLDOWN = secs 60"

definition SEND_TIMEOUT :: duration where
  "SEND_TIMEOUT = secs 10"

definition NTFY_CONFIG_FILE :: string where
  "NTFY_CONFIG_FILE = ''ntfy.toml''"

definition DEFAULT_NTFY_SERVER :: string where
  "DEFAULT_NTFY_SERVER = ''https://ntfy.sh''"

text \<open>\<open>node_label\<close>: the host name, or the program's name when it cannot be read.\<close>

definition node_label :: "string option \<Rightarrow> string" where
  "node_label host = (case host of Some n \<Rightarrow> n | None \<Rightarrow> ''tmite'')"

datatype ntfy_error = NtIo io_error | NtToml string | NtTomlSer string

record ntfy_config =
  nc_topic :: string
  nc_server :: "string option"

definition ntfy_path :: "string \<Rightarrow> string" where
  "ntfy_path data_dir = path_join data_dir NTFY_CONFIG_FILE"

definition ntfy_load ::
  "(string \<Rightarrow> (string, ntfy_config) result) \<Rightarrow> (io_error, string) result \<Rightarrow> (ntfy_error, ntfy_config option) result" where
  "ntfy_load toml_de file =
     (case file of
        Inr text \<Rightarrow> (case toml_de text of Inl e \<Rightarrow> Inl (NtToml e) | Inr c \<Rightarrow> Inr (Some c))
      | Inl IoNotFound \<Rightarrow> Inr None
      | Inl e \<Rightarrow> Inl (NtIo e))"

text \<open>The outcomes of saving: the directory, opening the temporary file, then serialising, writing
  and renaming.\<close>

definition ntfy_save ::
  "(ntfy_config \<Rightarrow> (string, string) result) \<Rightarrow> io_error option \<Rightarrow> io_error option \<Rightarrow> fs_outcome
     \<Rightarrow> ntfy_config \<Rightarrow> string option \<Rightarrow> (ntfy_error, unit) result \<times> string option" where
  "ntfy_save toml_ser mkdir open_tmp fs c file =
     (case mkdir of
        Some e \<Rightarrow> (Inl (NtIo e), file)
      | None \<Rightarrow>
          (case open_tmp of
             Some e \<Rightarrow> (Inl (NtIo e), file)
           | None \<Rightarrow>
               (case toml_ser c of
                  Inl e \<Rightarrow> (Inl (NtTomlSer e), file)
                | Inr text \<Rightarrow>
                    (case fs of
                       FsWriteErr e \<Rightarrow> (Inl (NtIo e), file)
                     | FsRenameErr e \<Rightarrow> (Inl (NtIo e), file)
                     | FsOk \<Rightarrow> (Inr (), Some text)))))"

definition ntfy_remove :: "io_error option \<Rightarrow> string option \<Rightarrow> (ntfy_error, bool) result \<times> string option" where
  "ntfy_remove err file =
     (case err of
        Some e \<Rightarrow> (if e = IoNotFound then Inr False else Inl (NtIo e), file)
      | None \<Rightarrow> (case file of Some _ \<Rightarrow> (Inr True, None) | None \<Rightarrow> (Inr False, None)))"

definition server_url :: "ntfy_config \<Rightarrow> string" where
  "server_url c = (case nc_server c of Some s \<Rightarrow> s | None \<Rightarrow> DEFAULT_NTFY_SERVER)"

definition starts_with :: "string \<Rightarrow> string \<Rightarrow> bool" where
  "starts_with s p = (take (length p) s = p)"

text \<open>\<open>{:?}\<close> of a string: quoted, with the ASCII escapes; printable non-ASCII characters stay.\<close>

definition debug_char :: "char \<Rightarrow> string" where
  "debug_char c =
     (if c = CHR 0x22 then [CHR 0x5C, CHR 0x22]
      else if c = CHR 0x5C then [CHR 0x5C, CHR 0x5C]
      else if c = CHR 0x0A then [CHR 0x5C, CHR ''n'']
      else if c = CHR 0x0D then [CHR 0x5C, CHR ''r'']
      else if c = CHR 0x09 then [CHR 0x5C, CHR ''t'']
      else if c = CHR 0x00 then [CHR 0x5C, CHR ''0'']
      else if code_of c < 16 then CHR 0x5C # ''u{'' @ [hex_digit (code_of c)] @ ''}''
      else if code_of c < 32 \<or> code_of c = 127
        then CHR 0x5C # ''u{'' @ [hex_digit (code_of c div 16), hex_digit (code_of c mod 16)] @ ''}''
      else [c])"

definition debug_str :: "string \<Rightarrow> string" where
  "debug_str s = [CHR 0x22] @ concat (map debug_char s) @ [CHR 0x22]"

definition validate_server_url :: "string \<Rightarrow> (string, unit) result" where
  "validate_server_url url =
     (if starts_with url ''http://'' \<or> starts_with url ''https://'' then Inr ()
      else Inl (''server must be an http(s) URL, got '' @ debug_str url))"

definition generate_topic :: "bytes \<Rightarrow> string" where
  "generate_topic random16 = hex random16"

section \<open>Events\<close>

datatype notification =
    PeerConnected (n_name: string) (n_node_id: string)
  | PeerRejected (n_node_id: string)
  | PairRequested (n_name: string) (n_node_id: string)
  | PeerRegistered (n_name: string) (n_node_id: string)
  | InviteCreated (n_name: string) (n_invite_id: string) (n_ttl_secs: nat)
  | InviteExpiredN (n_invite_id: string)
  | RuleAdded (n_peer: string) (n_target: string)
  | RuleRevoked (n_peer: string) (n_target: string)

datatype notif_kind =
    KPeerConnected | KPeerRejected | KPairRequested | KPeerRegistered
  | KInviteCreated | KInviteExpired | KRuleAdded | KRuleRevoked

fun notif_kind_of :: "notification \<Rightarrow> notif_kind" where
  "notif_kind_of (PeerConnected _ _) = KPeerConnected"
| "notif_kind_of (PeerRejected _) = KPeerRejected"
| "notif_kind_of (PairRequested _ _) = KPairRequested"
| "notif_kind_of (PeerRegistered _ _) = KPeerRegistered"
| "notif_kind_of (InviteCreated _ _ _) = KInviteCreated"
| "notif_kind_of (InviteExpiredN _) = KInviteExpired"
| "notif_kind_of (RuleAdded _ _) = KRuleAdded"
| "notif_kind_of (RuleRevoked _ _) = KRuleRevoked"

fun notif_key :: "notification \<Rightarrow> string" where
  "notif_key (PeerConnected name _) = name"
| "notif_key (PairRequested name _) = name"
| "notif_key (PeerRegistered name _) = name"
| "notif_key (PeerRejected node_id) = node_id"
| "notif_key (InviteCreated _ invite_id _) = invite_id"
| "notif_key (InviteExpiredN invite_id) = invite_id"
| "notif_key (RuleAdded peer target) = peer @ ''/'' @ target"
| "notif_key (RuleRevoked peer target) = peer @ ''/'' @ target"

text \<open>The first characters of a UTF-8 string: \<open>chars().take(n)\<close>.\<close>

fun take_chars :: "nat \<Rightarrow> string \<Rightarrow> string" where
  "take_chars n [] = []"
| "take_chars n (c # cs) =
     (if utf8_cont (code_of c) then c # take_chars n cs
      else (case n of 0 \<Rightarrow> [] | Suc m \<Rightarrow> c # take_chars m cs))"

definition ellipsis :: string where
  "ellipsis = [CHR 0xE2, CHR 0x80, CHR 0xA6]"

definition short_node_id :: "string \<Rightarrow> string" where
  "short_node_id node_id =
     (if char_count node_id > 8 then take_chars 8 node_id @ ellipsis else take_chars 8 node_id)"

datatype priority = PriorityDefault | PriorityHigh

record payload =
  pl_topic :: string
  pl_priority :: priority
  pl_title :: string
  pl_message :: string
  pl_tags :: "string list"

fun notif_payload :: "string \<Rightarrow> string \<Rightarrow> notification \<Rightarrow> payload" where
  "notif_payload node topic (PeerConnected name _) =
     \<lparr>pl_topic = topic, pl_priority = PriorityDefault, pl_title = node @ '': peer connected'',
      pl_message = ''peer '' @ debug_str name @ '' connected to the daemon'', pl_tags = [''bell'']\<rparr>"
| "notif_payload node topic (PeerRejected node_id) =
     \<lparr>pl_topic = topic, pl_priority = PriorityHigh, pl_title = node @ '': connection rejected'',
      pl_message = ''unknown node '' @ short_node_id node_id @ '' tried to connect'',
      pl_tags = [''warning'', ''key'']\<rparr>"
| "notif_payload node topic (PairRequested name node_id) =
     \<lparr>pl_topic = topic, pl_priority = PriorityDefault, pl_title = node @ '': pairing request'',
      pl_message = ''client '' @ short_node_id node_id @ '' wants to pair as '' @ debug_str name
        @ ''; approve on the daemon host'', pl_tags = [''key'']\<rparr>"
| "notif_payload node topic (PeerRegistered name node_id) =
     \<lparr>pl_topic = topic, pl_priority = PriorityDefault, pl_title = node @ '': new peer'',
      pl_message = ''peer '' @ debug_str name @ '' ('' @ short_node_id node_id @ '') registered'',
      pl_tags = [''white_check_mark'']\<rparr>"
| "notif_payload node topic (InviteCreated name _ ttl_secs) =
     \<lparr>pl_topic = topic, pl_priority = PriorityDefault, pl_title = node @ '': invite created'',
      pl_message = ''invite for '' @ debug_str name @ '' created (valid '' @ show_nat ttl_secs @ ''s)'',
      pl_tags = [''link'']\<rparr>"
| "notif_payload node topic (InviteExpiredN _) =
     \<lparr>pl_topic = topic, pl_priority = PriorityDefault, pl_title = node @ '': invite expired'',
      pl_message = ''an invite expired without a pairing'', pl_tags = [''hourglass'']\<rparr>"
| "notif_payload node topic (RuleAdded peer target) =
     \<lparr>pl_topic = topic, pl_priority = PriorityDefault, pl_title = node @ '': rule added'',
      pl_message = ''peer '' @ debug_str peer @ '' may now reach '' @ target, pl_tags = [''unlock'']\<rparr>"
| "notif_payload node topic (RuleRevoked peer target) =
     \<lparr>pl_topic = topic, pl_priority = PriorityDefault, pl_title = node @ '': rule revoked'',
      pl_message = ''peer '' @ debug_str peer @ '' can no longer reach '' @ target, pl_tags = [''lock'']\<rparr>"

section \<open>The channel\<close>

text \<open>The sending side: the queue while the drain task lives, nothing for a disabled notifier.\<close>

record notifier =
  nf_tx :: "notification list option"

definition notifier_channel :: notifier where
  "notifier_channel = \<lparr>nf_tx = Some []\<rparr>"

definition notifier_disabled :: notifier where
  "notifier_disabled = \<lparr>nf_tx = None\<rparr>"

definition notify :: "notification \<Rightarrow> notifier \<Rightarrow> notifier" where
  "notify n nf = nf\<lparr>nf_tx := map_option (\<lambda>q. q @ [n]) (nf_tx nf)\<rparr>"

section \<open>Cooldown and drain loop\<close>

record cooldown =
  cd_window :: duration
  cd_last :: "((notif_kind \<times> string) \<times> instant) list"

definition cooldown_new :: "duration \<Rightarrow> cooldown" where
  "cooldown_new w = \<lparr>cd_window = w, cd_last = []\<rparr>"

definition admit :: "instant \<Rightarrow> notif_kind \<Rightarrow> string \<Rightarrow> cooldown \<Rightarrow> bool \<times> cooldown" where
  "admit now k key cd =
     (case map_of (cd_last cd) (k, key) of
        Some t \<Rightarrow> if now - t < cd_window cd then (False, cd)
                  else (True, cd\<lparr>cd_last := hm_insert (k, key) now (cd_last cd)\<rparr>)
      | None \<Rightarrow> (True, cd\<lparr>cd_last := hm_insert (k, key) now (cd_last cd)\<rparr>))"

text \<open>One event of the channel with the time it is taken off and what the configuration file holds
  then.  The outcome of a post is only logged.\<close>

record drain_event =
  de_now :: instant
  de_notification :: notification
  de_config :: "(ntfy_error, ntfy_config option) result"

definition drain_one :: "string \<Rightarrow> drain_event \<Rightarrow> cooldown \<Rightarrow> (ntfy_config \<times> payload) option \<times> cooldown" where
  "drain_one node ev cd =
     (let n = de_notification ev in
      case admit (de_now ev) (notif_kind_of n) (notif_key n) cd of
        (False, cd') \<Rightarrow> (None, cd')
      | (True, cd') \<Rightarrow>
          (case de_config ev of
             Inr (Some c) \<Rightarrow> (Some (c, notif_payload node (nc_topic c) n), cd')
           | Inr None \<Rightarrow> (None, cd')
           | Inl _ \<Rightarrow> (None, cd')))"

text \<open>The loop: for each event, in order, what it posted.\<close>

fun drain :: "string \<Rightarrow> drain_event list \<Rightarrow> cooldown \<Rightarrow> (ntfy_config \<times> payload) option list" where
  "drain node [] cd = []"
| "drain node (ev # evs) cd = (let (post, cd') = drain_one node ev cd in post # drain node evs cd')"

text \<open>The server's answer to one post, after some time or never; \<open>build_err\<close> is the failure to
  set up the dispatcher for the server's URL.\<close>

datatype send_outcome = SendAfter duration "(string, unit) result" | SendNever

definition sink_post :: "string option \<Rightarrow> send_outcome \<Rightarrow> (string, unit) result" where
  "sink_post build_err out =
     (case build_err of
        Some e \<Rightarrow> Inl e
      | None \<Rightarrow>
          (case out of
             SendAfter d r \<Rightarrow> if d \<le> SEND_TIMEOUT then r else Inl ''send timed out''
           | SendNever \<Rightarrow> Inl ''send timed out''))"

definition test_payload :: "string \<Rightarrow> ntfy_config \<Rightarrow> string \<Rightarrow> payload" where
  "test_payload node c message =
     \<lparr>pl_topic = nc_topic c, pl_priority = PriorityDefault, pl_title = node @ '': test'',
      pl_message = message, pl_tags = [''white_check_mark'']\<rparr>"

section \<open>Laws\<close>

abbreviation subject :: "drain_event \<Rightarrow> notif_kind \<times> string" where
  "subject ev \<equiv> (notif_kind_of (de_notification ev), notif_key (de_notification ev))"

lemma admit_window [simp]: "cd_window (snd (admit now k key cd)) = cd_window cd"
  by (simp add: admit_def split: option.splits)

lemma admit_iff:
  "fst (admit now k key cd) \<longleftrightarrow> (\<forall>t. map_of (cd_last cd) (k, key) = Some t \<longrightarrow> cd_window cd \<le> now - t)"
  by (auto simp: admit_def split: option.splits)

lemma admit_last:
  "map_of (cd_last (snd (admit now k key cd))) =
     (if fst (admit now k key cd) then (map_of (cd_last cd))((k, key) \<mapsto> now) else map_of (cd_last cd))"
  by (auto simp: admit_def split: option.splits)

lemma drain_one_cd:
  "snd (drain_one node ev cd) = snd (admit (de_now ev) (fst (subject ev)) (snd (subject ev)) cd)"
  by (simp add: drain_one_def Let_def split: prod.splits bool.splits sum.splits option.splits)

lemma drain_one_post:
  "fst (drain_one node ev cd) \<noteq> None \<Longrightarrow> fst (admit (de_now ev) (fst (subject ev)) (snd (subject ev)) cd)"
  by (auto simp: drain_one_def Let_def split: prod.splits bool.splits)

lemma drain_Cons: "drain node (ev # evs) cd = fst (drain_one node ev cd) # drain node evs (snd (drain_one node ev cd))"
  by (simp add: case_prod_unfold Let_def)

lemma length_drain [simp]: "length (drain node evs cd) = length evs"
  by (induction evs arbitrary: cd) (simp_all add: drain_Cons del: drain.simps(2))

definition drain_cd :: "string \<Rightarrow> drain_event list \<Rightarrow> cooldown \<Rightarrow> cooldown" where
  "drain_cd node evs cd = fold (\<lambda>ev cd. snd (drain_one node ev cd)) evs cd"

lemma drain_nth:
  "i < length evs \<Longrightarrow> drain node evs cd ! i = fst (drain_one node (evs ! i) (drain_cd node (take i evs) cd))"
proof (induction evs arbitrary: i cd)
  case (Cons ev evs)
  then show ?case by (cases i) (simp_all add: drain_Cons drain_cd_def del: drain.simps(2))
qed simp

lemma drain_cd_Suc:
  "i < length evs \<Longrightarrow> drain_cd node (take (Suc i) evs) cd = snd (drain_one node (evs ! i) (drain_cd node (take i evs) cd))"
  by (simp add: drain_cd_def take_Suc_conv_app_nth)

lemma drain_cd_window [simp]: "cd_window (drain_cd node evs cd) = cd_window cd"
  unfolding drain_cd_def by (induction evs arbitrary: cd) (simp_all add: drain_one_cd)

text \<open>Once a subject was recorded at some time, the record never moves back.\<close>

lemma last_mono:
  assumes "sorted (map de_now evs)" and "i \<le> j" and "j \<le> length evs"
    and "map_of (cd_last (drain_cd node (take i evs) cd)) k = Some t"
    and "\<forall>m. i \<le> m \<and> m < length evs \<longrightarrow> t \<le> de_now (evs ! m)"
  shows "\<exists>t' \<ge> t. map_of (cd_last (drain_cd node (take j evs) cd)) k = Some t'"
  using assms(2,3)
proof (induction j)
  case (Suc j)
  show ?case
  proof (cases "i = Suc j")
    case False
    with Suc obtain t' where "t' \<ge> t" "map_of (cd_last (drain_cd node (take j evs) cd)) k = Some t'" by auto
    moreover have "t \<le> de_now (evs ! j)" using assms(5) Suc False by simp
    ultimately show ?thesis
      using Suc.prems by (auto simp: drain_cd_Suc drain_one_cd admit_last)
  qed (use assms(4) in auto)
qed (use assms(4) in auto)

lemma posts_spaced:
  assumes "sorted (map de_now evs)" and "i < j" and "j < length evs" and "subject (evs ! i) = subject (evs ! j)"
    and "drain node evs cd ! i \<noteq> None" and "drain node evs cd ! j \<noteq> None"
  shows "cd_window cd \<le> de_now (evs ! j) - de_now (evs ! i)"
proof -
  let ?cd = "\<lambda>m. drain_cd node (take m evs) cd"
  have i: "i < length evs" using assms by simp
  have "map_of (cd_last (?cd (Suc i))) (subject (evs ! i)) = Some (de_now (evs ! i))"
    using assms(5) drain_one_post [of node "evs ! i" "?cd i"] i
    by (simp add: drain_nth drain_cd_Suc drain_one_cd admit_last)
  moreover have "\<forall>m. Suc i \<le> m \<and> m < length evs \<longrightarrow> de_now (evs ! i) \<le> de_now (evs ! m)"
    using assms(1) by (auto simp: sorted_iff_nth_mono)
  ultimately obtain t' where "de_now (evs ! i) \<le> t'"
    and "map_of (cd_last (?cd j)) (subject (evs ! j)) = Some t'"
    using last_mono [OF assms(1), of "Suc i" j node cd "subject (evs ! j)" "de_now (evs ! i)"] assms(2-4) by auto
  moreover have "fst (admit (de_now (evs ! j)) (fst (subject (evs ! j))) (snd (subject (evs ! j))) (?cd j))"
    using assms(6) drain_one_post [of node "evs ! j" "?cd j"] assms(3) by (simp add: drain_nth)
  ultimately show ?thesis by (auto simp: admit_iff)
qed

section \<open>Properties\<close>

text \<open>However events arrive, two notifications about the same subject are posted at least a
  minute apart, so a reconnecting peer or a reject loop cannot flood the topic.\<close>

lemma notifications_spaced:
  assumes "sorted (map de_now evs)" and "i < j" and "j < length evs"
    and "notif_kind_of (de_notification (evs ! i)) = notif_kind_of (de_notification (evs ! j))"
    and "notif_key (de_notification (evs ! i)) = notif_key (de_notification (evs ! j))"
    and "drain node evs (cooldown_new COOLDOWN) ! i \<noteq> None"
    and "drain node evs (cooldown_new COOLDOWN) ! j \<noteq> None"
  shows "60000 \<le> de_now (evs ! j) - de_now (evs ! i)"
  using posts_spaced [OF assms(1-3) _ assms(6,7)] assms(4,5)
  by (simp add: cooldown_new_def COOLDOWN_def secs_def)

lemma notifications_spaced_example:
  "(60000::nat) \<le>
     de_now ([\<lparr>de_now = 5, de_notification = PeerRejected ''a'', de_config = Inr (Some \<lparr>nc_topic = ''t'', nc_server = None\<rparr>)\<rparr>,
       \<lparr>de_now = 60005, de_notification = PeerRejected ''a'', de_config = Inr (Some \<lparr>nc_topic = ''t'', nc_server = None\<rparr>)\<rparr>] ! 1)
     - de_now ([\<lparr>de_now = 5, de_notification = PeerRejected ''a'', de_config = Inr (Some \<lparr>nc_topic = ''t'', nc_server = None\<rparr>)\<rparr>,
       \<lparr>de_now = 60005, de_notification = PeerRejected ''a'', de_config = Inr (Some \<lparr>nc_topic = ''t'', nc_server = None\<rparr>)\<rparr>] ! 0)"
  by (rule notifications_spaced [where node = "''h''"])
     (simp_all add: drain_one_def admit_def cooldown_new_def COOLDOWN_def secs_def)

text \<open>An event that arrives while notifications are disabled still takes its subject's cooldown
  slot: if they are enabled within the next minute, the next event of that subject is not posted
  although nothing was ever sent about it.\<close>

lemma disabled_event_starts_cooldown:
  assumes "de_config ev = Inr None" and "subject ev' = subject ev"
    and "de_now ev' - de_now ev < 60000" and "cd = cooldown_new COOLDOWN"
  shows "drain node [ev, ev'] cd = [None, None]"
  using assms
  by (auto simp: drain_one_def Let_def admit_def cooldown_new_def COOLDOWN_def secs_def split: prod.splits)

lemma disabled_event_starts_cooldown_example:
  "drain ''h'' [\<lparr>de_now = 0, de_notification = PeerRejected ''a'', de_config = Inr None\<rparr>,
     \<lparr>de_now = 1000, de_notification = PeerRejected ''a'', de_config = Inr (Some \<lparr>nc_topic = ''t'', nc_server = None\<rparr>)\<rparr>]
     (cooldown_new COOLDOWN) = [None, None]"
  by (rule disabled_event_starts_cooldown) simp_all

end
