(* ===== verification/Pump.thy ===== *)
theory Pump
  imports Prelude
begin

text \<open>
  The byte relay of the data plane, \<open>pump\<close>, \<open>pump_counted\<close> and \<open>relay\<close> of
  \<open>tmite-core/src/daemon/main_ep.rs\<close>.  A reader is the sequence of things that arrive on it,
  each after a delay, and stalls when the sequence ends; a writer keeps what was written and may
  start to fail at some byte.
\<close>

section \<open>Streams\<close>

datatype read_event =
    RData duration bytes
  | REof duration
  | RErr duration io_error

record writer =
  wr_out :: bytes
  wr_fail :: "(nat \<times> io_error) option"
  wr_flush_fail :: "(nat \<times> io_error) option"

text \<open>\<open>write_all\<close>: all the bytes, or as many as the writer takes and the error.\<close>

definition write_all :: "bytes \<Rightarrow> writer \<Rightarrow> io_error option \<times> writer" where
  "write_all bs w =
     (case wr_fail w of
        Some (n, e) \<Rightarrow>
          if length (wr_out w @ bs) \<le> n then (None, w\<lparr>wr_out := wr_out w @ bs\<rparr>)
          else (Some e, w\<lparr>wr_out := wr_out w @ take (n - length (wr_out w)) bs\<rparr>)
      | None \<Rightarrow> (None, w\<lparr>wr_out := wr_out w @ bs\<rparr>))"

definition flush :: "writer \<Rightarrow> io_error option" where
  "flush w =
     (case wr_flush_fail w of
        Some (n, e) \<Rightarrow> if n \<le> length (wr_out w) then Some e else None
      | None \<Rightarrow> None)"

datatype pump_result = PumpOk | PumpErr io_error | PumpPending

section \<open>Copying one direction\<close>

definition BUF :: nat where
  "BUF = 8192"

text \<open>One read with the optional deadline: the bytes (none at the end of the stream), what stays to
  be read, or an error; \<open>None\<close> when nothing ever arrives and there is no deadline.\<close>

definition idle_error :: io_error where
  "idle_error = IoOther ''idle timeout''"

abbreviation late :: "duration \<Rightarrow> duration \<Rightarrow> bool" where
  "late idle d \<equiv> idle \<noteq> 0 \<and> idle < d"

fun read_some ::
  "duration \<Rightarrow> read_event list \<Rightarrow> ((io_error, bytes) result \<times> read_event list) option" where
  "read_some idle [] = (if idle = 0 then None else Some (Inl idle_error, []))"
| "read_some idle (RData d bs # evs) =
     (if late idle d then Some (Inl idle_error, RData d bs # evs)
      else Some (Inr (take BUF bs),
             if drop BUF bs = [] then evs else RData 0 (drop BUF bs) # evs))"
| "read_some idle (REof d # evs) =
     (if late idle d then Some (Inl idle_error, REof d # evs) else Some (Inr [], REof d # evs))"
| "read_some idle (RErr d e # evs) =
     (if late idle d then Some (Inl idle_error, RErr d e # evs) else Some (Inl e, evs))"

fun pending_bytes :: "read_event list \<Rightarrow> nat" where
  "pending_bytes [] = 0"
| "pending_bytes (RData d bs # evs) = length bs + pending_bytes evs"
| "pending_bytes (_ # evs) = pending_bytes evs"

lemma BUF_pos [simp]: "0 < BUF"
  by (simp add: BUF_def)

lemma read_some_shrinks:
  "read_some idle evs = Some (Inr bs, evs') \<Longrightarrow> bs \<noteq> [] \<Longrightarrow> pending_bytes evs' < pending_bytes evs"
  by (cases "(idle, evs)" rule: read_some.cases)
     (auto simp: not_le split: if_splits)

text \<open>The loop of \<open>pump\<close>, which is \<open>pump_counted\<close> without the counter: both read, write
  and flush in the same order.\<close>

function pump :: "duration \<Rightarrow> read_event list \<Rightarrow> writer \<Rightarrow> pump_result \<times> writer" where
  "pump idle evs w =
     (case read_some idle evs of
        None \<Rightarrow> (PumpPending, w)
      | Some (Inl e, _) \<Rightarrow> (PumpErr e, w)
      | Some (Inr bs, evs') \<Rightarrow>
          if bs = [] then (PumpOk, w)
          else (case write_all bs w of
                  (Some e, w') \<Rightarrow> (PumpErr e, w')
                | (None, w') \<Rightarrow>
                    (case flush w' of
                       Some e \<Rightarrow> (PumpErr e, w')
                     | None \<Rightarrow> pump idle evs' w')))"
  by pat_completeness auto
termination
  by (relation "measure (\<lambda>(idle, evs, w). pending_bytes evs)") (auto intro: read_some_shrinks)

function pump_counted ::
  "duration \<Rightarrow> read_event list \<Rightarrow> writer \<Rightarrow> u64 \<Rightarrow> pump_result \<times> writer \<times> u64" where
  "pump_counted idle evs w counter =
     (case read_some idle evs of
        None \<Rightarrow> (PumpPending, w, counter)
      | Some (Inl e, _) \<Rightarrow> (PumpErr e, w, counter)
      | Some (Inr bs, evs') \<Rightarrow>
          if bs = [] then (PumpOk, w, counter)
          else let counter' = counter + word_of_nat (length bs) in
               (case write_all bs w of
                  (Some e, w') \<Rightarrow> (PumpErr e, w', counter')
                | (None, w') \<Rightarrow>
                    (case flush w' of
                       Some e \<Rightarrow> (PumpErr e, w', counter')
                     | None \<Rightarrow> pump_counted idle evs' w' counter')))"
  by pat_completeness auto
termination
  by (relation "measure (\<lambda>(idle, evs, w, c). pending_bytes evs)") (auto intro: read_some_shrinks)

declare pump.simps [simp del] pump_counted.simps [simp del]

text \<open>What a source sends before it ends.\<close>

fun sent :: "read_event list \<Rightarrow> bytes" where
  "sent [] = []"
| "sent (RData d bs # evs) = (if bs = [] then [] else bs @ sent evs)"
| "sent (_ # evs) = []"

text \<open>Whether it ends, with an end of stream and no stretch of silence beyond the deadline.\<close>

fun ends :: "duration \<Rightarrow> read_event list \<Rightarrow> bool" where
  "ends idle [] = False"
| "ends idle (RData d bs # evs) = (\<not> late idle d \<and> (bs = [] \<or> ends idle evs))"
| "ends idle (REof d # evs) = (\<not> late idle d)"
| "ends idle (RErr d e # evs) = False"

section \<open>Both directions\<close>

text \<open>
  \<open>relay\<close>: the two directions run side by side; each one that is done propagates the end of its
  source, whatever its result, and the relay returns when both are done.
\<close>

record relay_out =
  ro_up :: pump_result
  ro_down :: pump_result
  ro_tcp :: writer
  ro_tcp_shutdown :: bool
  ro_stream :: writer
  ro_stream_finished :: bool

definition relay :: "duration \<Rightarrow> read_event list \<Rightarrow> read_event list \<Rightarrow> writer \<Rightarrow> writer \<Rightarrow> relay_out" where
  "relay idle recv tcp_read tcp_write send =
     (let (up, tcp') = pump idle recv tcp_write;
          (down, send') = pump idle tcp_read send
      in \<lparr>ro_up = up, ro_down = down, ro_tcp = tcp', ro_tcp_shutdown = (up \<noteq> PumpPending),
          ro_stream = send', ro_stream_finished = (down \<noteq> PumpPending)\<rparr>)"

definition relay_returns :: "relay_out \<Rightarrow> bool" where
  "relay_returns r = (ro_up r \<noteq> PumpPending \<and> ro_down r \<noteq> PumpPending)"

section \<open>Laws\<close>

lemma write_all_ok: "write_all bs w = (None, w') \<Longrightarrow> w' = w\<lparr>wr_out := wr_out w @ bs\<rparr>"
  by (auto simp: write_all_def split: option.splits if_splits)

lemma write_all_err:
  "write_all bs w = (Some e, w') \<Longrightarrow> \<exists>k \<le> length bs. wr_out w' = wr_out w @ take k bs"
  by (auto simp: write_all_def split: option.splits if_splits)
     (metis nat_le_linear take_all_iff dual_order.refl)

lemma read_some_data:
  "read_some idle evs = Some (Inr bs, evs') \<Longrightarrow> bs \<noteq> [] \<Longrightarrow>
     sent evs = bs @ sent evs' \<and> (ends idle evs \<longleftrightarrow> ends idle evs')"
proof (cases "(idle, evs)" rule: read_some.cases)
  case (2 idle' d bs0 evs0)
  assume "read_some idle evs = Some (Inr bs, evs')" and "bs \<noteq> []"
  with 2 show ?thesis
    using append_take_drop_id [of BUF bs0]
    by (auto split: if_splits simp flip: append_assoc)
qed (auto split: if_splits)

lemma read_some_eof: "read_some idle evs = Some (Inr [], evs') \<Longrightarrow> sent evs = [] \<and> ends idle evs"
  using BUF_pos by (cases "(idle, evs)" rule: read_some.cases) (auto split: if_splits simp del: BUF_pos)

lemma read_some_stop:
  "read_some idle evs = None \<or> read_some idle evs = Some (Inl e, evs') \<Longrightarrow> \<not> ends idle evs"
  by (cases "(idle, evs)" rule: read_some.cases) (auto split: if_splits)

text \<open>One turn of the loop: it stops with a result, or goes on with less to read.\<close>

definition pump_turn ::
  "duration \<Rightarrow> read_event list \<Rightarrow> writer \<Rightarrow> (pump_result \<times> writer) + (read_event list \<times> writer)" where
  "pump_turn idle evs w =
     (case read_some idle evs of
        None \<Rightarrow> Inl (PumpPending, w)
      | Some (Inl e, _) \<Rightarrow> Inl (PumpErr e, w)
      | Some (Inr bs, evs') \<Rightarrow>
          if bs = [] then Inl (PumpOk, w)
          else (case write_all bs w of
                  (Some e, w') \<Rightarrow> Inl (PumpErr e, w')
                | (None, w') \<Rightarrow> (case flush w' of Some e \<Rightarrow> Inl (PumpErr e, w') | None \<Rightarrow> Inr (evs', w'))))"

lemma pump_unfold:
  "pump idle evs w = (case pump_turn idle evs w of Inl x \<Rightarrow> x | Inr (evs', w') \<Rightarrow> pump idle evs' w')"
  by (subst pump.simps)
     (simp add: pump_turn_def split: option.splits sum.splits prod.splits)

lemma pump_turn_go:
  assumes "pump_turn idle evs w = Inr (evs', w')"
  shows "\<exists>bs. bs \<noteq> [] \<and> sent evs = bs @ sent evs' \<and> w' = w\<lparr>wr_out := wr_out w @ bs\<rparr>
    \<and> (ends idle evs \<longleftrightarrow> ends idle evs') \<and> pending_bytes evs' < pending_bytes evs
    \<and> read_some idle evs = Some (Inr bs, evs')"
proof -
  from assms obtain bs where "read_some idle evs = Some (Inr bs, evs')" "bs \<noteq> []" "write_all bs w = (None, w')"
    by (auto simp: pump_turn_def split: option.splits sum.splits prod.splits if_splits)
  then show ?thesis
    using read_some_data [of idle evs bs evs'] read_some_shrinks [of idle evs bs evs'] write_all_ok [of bs w w']
    by blast
qed

lemma pump_turn_stop:
  assumes "pump_turn idle evs w = Inl (r, w')"
  shows "\<exists>k. wr_out w' = wr_out w @ take k (sent evs)"
    and "r = PumpOk \<Longrightarrow> w' = w \<and> sent evs = [] \<and> ends idle evs"
    and "wr_fail w = None \<Longrightarrow> wr_flush_fail w = None \<Longrightarrow> ends idle evs \<Longrightarrow> r = PumpOk"
proof -
  show "r = PumpOk \<Longrightarrow> w' = w \<and> sent evs = [] \<and> ends idle evs"
    using assms read_some_eof [of idle evs]
    by (auto simp: pump_turn_def split: option.splits sum.splits prod.splits if_splits)
  show "r = PumpOk" if "wr_fail w = None" "wr_flush_fail w = None" "ends idle evs"
    using assms that read_some_stop [of idle evs]
    by (auto simp: pump_turn_def write_all_def flush_def split: option.splits sum.splits prod.splits if_splits)
  show "\<exists>k. wr_out w' = wr_out w @ take k (sent evs)"
  proof (cases "w' = w")
    case True
    then show ?thesis by (simp add: exI [of _ 0])
  next
    case False
    then obtain bs evs' we where bs: "read_some idle evs = Some (Inr bs, evs')" "bs \<noteq> []" "write_all bs w = (we, w')"
      using assms by (auto simp: pump_turn_def split: option.splits sum.splits prod.splits if_splits)
    have "\<exists>k \<le> length bs. wr_out w' = wr_out w @ take k bs"
    proof (cases we)
      case None
      with bs(3) have "wr_out w' = wr_out w @ bs" by (auto dest: write_all_ok)
      then show ?thesis by (intro exI [of _ "length bs"]) simp
    qed (use bs(3) write_all_err in blast)
    then obtain k where "k \<le> length bs" "wr_out w' = wr_out w @ take k bs" by blast
    moreover have "sent evs = bs @ sent evs'" using read_some_data [OF bs(1,2)] by simp
    ultimately show ?thesis by (intro exI [of _ k]) simp
  qed
qed

text \<open>Induction along the turns of the loop.\<close>

lemma pump_induct [case_names stop go]:
  assumes "\<And>evs w r w'. pump_turn idle evs w = Inl (r, w') \<Longrightarrow> P evs w (r, w')"
    and "\<And>evs w evs' w'. pump_turn idle evs w = Inr (evs', w') \<Longrightarrow> P evs' w' (pump idle evs' w')
           \<Longrightarrow> P evs w (pump idle evs' w')"
  shows "P evs w (pump idle evs w)"
proof (induction "pending_bytes evs" arbitrary: evs w rule: less_induct)
  case less
  show ?case
  proof (cases "pump_turn idle evs w")
    case (Inl x)
    then show ?thesis using assms(1) [of evs w "fst x" "snd x"] by (simp add: pump_unfold [of idle evs w])
  next
    case (Inr y)
    then obtain evs' w' where y: "pump_turn idle evs w = Inr (evs', w')" by (cases y) auto
    then show ?thesis
      using less [of evs' w'] pump_turn_go [OF y] assms(2) [OF y] by (auto simp: pump_unfold [of idle evs w])
  qed
qed

lemma pump_prefix: "\<exists>k. wr_out (snd (pump idle evs w)) = wr_out w @ take k (sent evs)"
proof (induction rule: pump_induct [where P = "\<lambda>evs w r. \<exists>k. wr_out (snd r) = wr_out w @ take k (sent evs)"])
  case (stop evs w r w')
  then show ?case using pump_turn_stop(1) by simp
next
  case (go evs w evs' w')
  then obtain bs k where "sent evs = bs @ sent evs'" "wr_out w' = wr_out w @ bs"
    and "wr_out (snd (pump idle evs' w')) = wr_out w' @ take k (sent evs')"
    using pump_turn_go [OF go(1)] by fastforce
  then show ?case by (intro exI [of _ "length bs + k"]) simp
qed

lemma pump_ok_all:
  "fst (pump idle evs w) = PumpOk \<longrightarrow> snd (pump idle evs w) = w\<lparr>wr_out := wr_out w @ sent evs\<rparr> \<and> ends idle evs"
proof (induction rule: pump_induct [where
      P = "\<lambda>evs w r. fst r = PumpOk \<longrightarrow> snd r = w\<lparr>wr_out := wr_out w @ sent evs\<rparr> \<and> ends idle evs"])
  case (stop evs w r w')
  then show ?case using pump_turn_stop(2) [OF stop(1)] by auto
next
  case (go evs w evs' w')
  then show ?case using pump_turn_go [OF go(1)] by auto
qed

text \<open>Whether a writer takes some more bytes: writing and flushing them, if there are any, does not fail.\<close>

definition takes :: "writer \<Rightarrow> bytes \<Rightarrow> bool" where
  "takes w bs =
     (bs = []
      \<or> (case wr_fail w of Some (n, _) \<Rightarrow> length (wr_out w) + length bs \<le> n | None \<Rightarrow> True)
        \<and> (case wr_flush_fail w of Some (n, _) \<Rightarrow> length (wr_out w) + length bs < n | None \<Rightarrow> True))"

lemma takes_append:
  assumes "bs \<noteq> []"
  shows "takes w (bs @ cs) \<longleftrightarrow>
     write_all bs w = (None, w\<lparr>wr_out := wr_out w @ bs\<rparr>) \<and> flush (w\<lparr>wr_out := wr_out w @ bs\<rparr>) = None
     \<and> takes (w\<lparr>wr_out := wr_out w @ bs\<rparr>) cs"
  using assms by (auto simp: takes_def write_all_def flush_def split: option.splits)

lemma pump_turn_takes:
  assumes "pump_turn idle evs w = Inl (r, w')" and "ends idle evs" and "takes w (sent evs)"
  shows "r = PumpOk"
proof -
  from assms(2) obtain bs evs' where bs: "read_some idle evs = Some (Inr bs, evs')"
    using read_some_stop [of idle evs] by (cases "read_some idle evs") (metis surj_pair sum.exhaust)+
  show ?thesis
  proof (cases "bs = []")
    case True
    with assms(1) bs show ?thesis by (simp add: pump_turn_def)
  next
    case False
    then have "sent evs = bs @ sent evs'" using read_some_data [OF bs] by simp
    with assms(1,3) bs False show ?thesis by (simp add: takes_append pump_turn_def)
  qed
qed

lemma pump_turn_go_takes:
  assumes "pump_turn idle evs w = Inr (evs', w')"
  shows "takes w (sent evs) \<longleftrightarrow> takes w' (sent evs')"
proof -
  from assms obtain bs where bs: "read_some idle evs = Some (Inr bs, evs')" "bs \<noteq> []" "write_all bs w = (None, w')" "flush w' = None"
    by (auto simp: pump_turn_def split: option.splits sum.splits prod.splits if_splits)
  with read_some_data [OF bs(1,2)] write_all_ok [OF bs(3)] show ?thesis by (simp add: takes_append)
qed

lemma pump_ok_iff: "fst (pump idle evs w) = PumpOk \<longleftrightarrow> ends idle evs \<and> takes w (sent evs)"
proof (induction rule: pump_induct [where P = "\<lambda>evs w r. fst r = PumpOk \<longleftrightarrow> ends idle evs \<and> takes w (sent evs)"])
  case (stop evs w r w')
  then show ?case using pump_turn_stop(2) [OF stop(1)] pump_turn_takes [OF stop(1)] by (auto simp: takes_def)
next
  case (go evs w evs' w')
  then show ?case using pump_turn_go [OF go(1)] pump_turn_go_takes [OF go(1)] by auto
qed

lemma pump_ends_ok:
  "wr_fail w = None \<and> wr_flush_fail w = None \<and> ends idle evs \<longrightarrow> fst (pump idle evs w) = PumpOk"
  by (simp add: pump_ok_iff takes_def)

lemma pump_pending: "fst (pump idle evs w) = PumpPending \<longrightarrow> idle = 0"
proof (induction rule: pump_induct [where P = "\<lambda>evs w r. fst r = PumpPending \<longrightarrow> idle = 0"])
  case (stop evs w r w')
  have "read_some idle evs = None \<Longrightarrow> idle = 0"
    by (cases "(idle, evs)" rule: read_some.cases) (auto split: if_splits)
  with stop show ?case by (auto simp: pump_turn_def split: option.splits sum.splits prod.splits if_splits)
qed

text \<open>The counting loop does what the plain one does.\<close>

lemma pump_counted_pump:
  "pump idle evs w = (fst (pump_counted idle evs w c), fst (snd (pump_counted idle evs w c)))"
proof (induction idle evs w c rule: pump_counted.induct)
  case (1 idle evs w c)
  show ?case
    by (subst pump.simps, subst (1 2) pump_counted.simps)
       (use 1 in \<open>auto simp: Let_def split: option.splits sum.splits prod.splits\<close>)
qed

lemma pump_counted_count:
  "fst (pump_counted idle evs w c) = PumpOk \<Longrightarrow>
     snd (snd (pump_counted idle evs w c)) = c + word_of_nat (length (sent evs))"
proof (induction idle evs w c rule: pump_counted.induct)
  case (1 idle evs w c)
  show ?case
  proof (cases "pump_turn idle evs w")
    case (Inl x)
    then have "fst x = PumpOk \<Longrightarrow> sent evs = []"
      using pump_turn_stop(2) [of idle evs w "fst x" "snd x"] by (cases x) simp
    with Inl 1(2) show ?thesis
      by (subst pump_counted.simps, subst (asm) pump_counted.simps)
         (auto simp: pump_turn_def Let_def split: option.splits sum.splits prod.splits if_splits)
  next
    case (Inr y)
    obtain evs' w' where y: "y = (evs', w')" by (cases y)
    obtain bs where bs: "bs \<noteq> []" "sent evs = bs @ sent evs'" "read_some idle evs = Some (Inr bs, evs')"
      using pump_turn_go [of idle evs w evs' w'] Inr y by blast
    have wf: "write_all bs w = (None, w')" "flush w' = None"
      using Inr y bs by (auto simp: pump_turn_def split: prod.splits option.splits)
    let ?c = "c + word_of_nat (length bs)"
    have eq: "pump_counted idle evs w c = pump_counted idle evs' w' ?c"
      by (subst pump_counted.simps) (simp add: bs wf)
    have "fst (pump_counted idle evs' w' ?c) = PumpOk" using 1(2) eq by simp
    from 1(1) [OF bs(3) HOL.refl HOL.refl bs(1) HOL.refl wf(1) [symmetric] HOL.refl wf(2) this] show ?thesis
      by (simp add: eq bs(2))
  qed
qed

section \<open>Properties\<close>



text \<open>The counting copy used by the client does exactly what the plain one does, and when it
  succeeds its counter has grown by the number of bytes delivered, modulo 2^64.\<close>

lemma pump_counted_correct:
  assumes "pump_counted idle evs w c = (r, w', c')"
  shows "pump idle evs w = (r, w') \<and> (r = PumpOk \<longrightarrow> c' = c + word_of_nat (length (wr_out w') - length (wr_out w)))"
  using pump_counted_pump [of idle evs w c] pump_counted_count [of idle evs w c] pump_ok_all [of idle evs w] assms
  by auto

text \<open>Half-close: when one side has ended its stream, the other side sees the end after all the
  bytes, whatever the opposite direction is doing, and a direction that is still open is not
  closed; the relay returns once both directions are done.\<close>

lemma relay_half_close:
  "let r = relay idle recv tcp_read tcp_write send in
     (ends idle recv \<and> wr_fail tcp_write = None \<and> wr_flush_fail tcp_write = None \<longrightarrow>
        ro_tcp_shutdown r \<and> wr_out (ro_tcp r) = wr_out tcp_write @ sent recv)
     \<and> (ends idle tcp_read \<and> wr_fail send = None \<and> wr_flush_fail send = None \<longrightarrow>
        ro_stream_finished r \<and> wr_out (ro_stream r) = wr_out send @ sent tcp_read)
     \<and> (ro_up r = PumpPending \<longrightarrow> \<not> ro_tcp_shutdown r)
     \<and> (ro_down r = PumpPending \<longrightarrow> \<not> ro_stream_finished r)
     \<and> (relay_returns r \<longleftrightarrow> ro_tcp_shutdown r \<and> ro_stream_finished r)"
  using pump_ends_ok [of tcp_write idle recv] pump_ok_all [of idle recv tcp_write]
    pump_ends_ok [of send idle tcp_read] pump_ok_all [of idle tcp_read send]
  by (auto simp: relay_def relay_returns_def Let_def case_prod_unfold)

lemma relay_half_close_example:
  "let r = relay 0 [RData 5 [1], REof 7] [RData 9 [2]]
       \<lparr>wr_out = [], wr_fail = None, wr_flush_fail = None\<rparr> \<lparr>wr_out = [], wr_fail = None, wr_flush_fail = None\<rparr>
   in ro_tcp_shutdown r \<and> wr_out (ro_tcp r) = [1]"
  using relay_half_close [of 0 "[RData 5 [1], REof 7]" "[RData 9 [2]]"
      "\<lparr>wr_out = [], wr_fail = None, wr_flush_fail = None\<rparr>" "\<lparr>wr_out = [], wr_fail = None, wr_flush_fail = None\<rparr>"]
  by (simp add: Let_def)

end
