(* ===== verification/Main_Ep.thy ===== *)
theory Main_Ep
  imports Frame Daemon_State Sessions Notify Net Pump
begin

text \<open>
  The daemon's data plane, \<open>tmite-core/src/daemon/main_ep.rs\<close>: authentication of connections,
  the handler of one stream with its access check, dial and relay, and the target syntax.  A handler
  is a function from what its calls return to the list of its effects in order; the byte relay is
  the theory \<open>Pump\<close>.
\<close>

section \<open>Targets\<close>

definition valid_target :: "string \<Rightarrow> bool" where
  "valid_target target =
     (if target = [] \<or> length target > MAX_TARGET_LEN then False
      else if has_whitespace target then False
      else (case rsplit_once (CHR '':'') target of
              None \<Rightarrow> False
            | Some (host, port) \<Rightarrow>
                host \<noteq> [] \<and> CHR '':'' \<notin> set host \<and> port \<noteq> [] \<and> parse_u16 port \<noteq> None))"

section \<open>The handler of a connection\<close>

record data_plane =
  dp_state :: daemon_state
  dp_sessions :: sessions
  dp_notifier :: notifier
  dp_reject_delay :: reject_delay
  dp_idle_timeout :: duration

definition data_plane_new :: "daemon_state \<Rightarrow> sessions \<Rightarrow> duration \<Rightarrow> notifier \<Rightarrow> data_plane" where
  "data_plane_new st ses idle nf =
     \<lparr>dp_state = st, dp_sessions = ses, dp_notifier = nf, dp_reject_delay = rd_new, dp_idle_timeout = idle\<rparr>"

text \<open>What \<open>accept\<close> does before its stream loop: reject after a delay and close the connection
  with code 0 and the reason, or serve the peer under a new session entry.\<close>

datatype accept_outcome =
    AcceptRejected duration string
  | AcceptServing addr string

text \<open>The start of \<open>accept\<close> as one step, taken when the node is looked up.  In the code the lock of the
  reject delay is taken after the look-up, so a removal of the peer can come in between; the rules of
  the peer are gone then, and every stream is checked against the rules of its own moment.\<close>

definition accept_begin ::
  "state_io \<Rightarrow> instant \<Rightarrow> string \<Rightarrow> nat \<Rightarrow> addr \<Rightarrow> data_plane \<Rightarrow> accept_outcome \<times> data_plane" where
  "accept_begin io now node_id conn a dp =
     (case peer_by_node (dp_state dp) node_id of
        None \<Rightarrow>
          (AcceptRejected (rd_delay (dp_reject_delay dp)) ''unauthorized'',
           dp\<lparr>dp_notifier := notify (PeerRejected node_id) (dp_notifier dp),
              dp_reject_delay := rd_escalate (dp_reject_delay dp)\<rparr>)
      | Some peer \<Rightarrow>
          (AcceptServing a (p_name peer),
           dp\<lparr>dp_reject_delay := rd_reset (dp_reject_delay dp),
              dp_state := touch_last_seen io node_id (dp_state dp),
              dp_notifier := notify (PeerConnected (p_name peer) node_id) (dp_notifier dp),
              dp_sessions := register a (alloc_entry a (session_entry_new (p_name peer) node_id conn now)
                                (dp_sessions dp))\<rparr>))"

definition accept_end :: "addr \<Rightarrow> data_plane \<Rightarrow> data_plane" where
  "accept_end a dp = dp\<lparr>dp_sessions := unregister a (dp_sessions dp)\<rparr>"

text \<open>The accept loop of a connection: every stream that arrives before the first error is handed to
  a task of its own, in order.\<close>

fun connection_loop :: "(string, 's) result list \<Rightarrow> 's list" where
  "connection_loop [] = []"
| "connection_loop (Inr s # rs) = s # connection_loop rs"
| "connection_loop (Inl e # rs) = []"

section \<open>The handler of a stream\<close>

datatype stream_effect =
    SetForwards "announced_forward list"
  | SendFrame u8 data_frame
  | FinishStream
  | Dial string
  | ForwardOpen string
  | RelayBytes
  | ForwardClose string

datatype dial_result = Connected duration | ConnectError duration string | ConnectHangs

definition deny :: "data_deny_reason \<Rightarrow> stream_effect list" where
  "deny reason = [SendFrame (data_msg_type (Deny reason)) (Deny reason), FinishStream]"

definition reply_ok :: "stream_effect list" where
  "reply_ok = [SendFrame (data_msg_type DataOk) DataOk, FinishStream]"

text \<open>What the first frame asks for.\<close>

datatype stream_request = ReqForward string | ReqValidate string | ReqSession "session_forward list" | ReqMalformed

fun stream_request_of :: "(frame_io_error, u8 \<times> data_frame) result \<Rightarrow> stream_request" where
  "stream_request_of (Inr (t, Forward target)) = (if t = TYPE_FORWARD then ReqForward target else ReqMalformed)"
| "stream_request_of (Inr (t, Validate target)) = (if t = TYPE_VALIDATE then ReqValidate target else ReqMalformed)"
| "stream_request_of (Inr (t, Session forwards)) = (if t = TYPE_SESSION then ReqSession forwards else ReqMalformed)"
| "stream_request_of _ = ReqMalformed"

text \<open>The dial, the answer and the relay of a permitted forward; \<open>ok_sent\<close> says whether the
  answer could be written.\<close>

definition dial_and_relay :: "string \<Rightarrow> dial_result \<Rightarrow> bool \<Rightarrow> stream_effect list" where
  "dial_and_relay target dial ok_sent =
     Dial target #
     (case dial of
        Connected d \<Rightarrow>
          if d \<le> TARGET_CONNECT_TIMEOUT
          then SendFrame (data_msg_type DataOk) DataOk #
               (if ok_sent then [ForwardOpen target, RelayBytes, ForwardClose target] else [])
          else deny (TargetUnreachable ''connect timed out'')
      | ConnectError d e \<Rightarrow>
          if d \<le> TARGET_CONNECT_TIMEOUT then deny (TargetUnreachable e)
          else deny (TargetUnreachable ''connect timed out'')
      | ConnectHangs \<Rightarrow> deny (TargetUnreachable ''connect timed out''))"

definition handle_stream ::
  "(frame_io_error, u8 \<times> data_frame) result \<Rightarrow> string \<Rightarrow> daemon_state \<Rightarrow> dial_result \<Rightarrow> bool
     \<Rightarrow> stream_effect list" where
  "handle_stream first_frame peer_name st dial ok_sent =
     (let checked = (\<lambda>target permitted.
        if \<not> valid_target target then deny DataServerError
        else if \<not> rule_allows st peer_name target then deny Unauthorized
        else permitted)
      in case stream_request_of first_frame of
           ReqMalformed \<Rightarrow> []
         | ReqSession forwards \<Rightarrow>
             SetForwards (map (\<lambda>f. \<lparr>af_local = sf_local f, af_target = sf_target f\<rparr>) forwards) # reply_ok
         | ReqValidate target \<Rightarrow> checked target reply_ok
         | ReqForward target \<Rightarrow> checked target (dial_and_relay target dial ok_sent))"

text \<open>The effects on the connection's session entry.\<close>

fun entry_effect :: "stream_effect \<Rightarrow> session_entry \<Rightarrow> session_entry" where
  "entry_effect (SetForwards fwds) e = entry_set_forwards fwds e"
| "entry_effect (ForwardOpen t) e = forward_open t e"
| "entry_effect (ForwardClose t) e = forward_close t e"
| "entry_effect _ e = e"

section \<open>Starting the endpoint\<close>

definition DATA_ALPN :: bytes where
  "DATA_ALPN = map (\<lambda>c. word_of_nat (code_of c)) ''tmite/1''"

definition PAIRING_ALPN :: bytes where
  "PAIRING_ALPN = map (\<lambda>c. word_of_nat (code_of c)) ''tmite-pair/1''"

datatype daemon_error =
    DaemonFs fs_error
  | DaemonStateErr state_error
  | DaemonIpc io_error
  | DaemonEndpoint string
  | DaemonIo io_error

fun show_net_error :: "net_error \<Rightarrow> string" where
  "show_net_error (NetBind e) = ''binding endpoint failed: '' @ e"
| "show_net_error (OnlineTimeout s) = ''endpoint failed to come online within '' @ show_nat s"
| "show_net_error (BadRelayUrl u) = ''invalid relay url: '' @ u"
| "show_net_error (BadPkarrUrl u) = ''invalid pkarr url: '' @ u"

definition spawn_main_endpoint ::
  "('r, 'u) net_io \<Rightarrow> net_opts \<Rightarrow> 'k \<Rightarrow> daemon_state \<Rightarrow> sessions \<Rightarrow> duration \<Rightarrow> notifier
     \<Rightarrow> (daemon_error, ('k, 'r, 'u) endpoint_builder \<times> data_plane) result" where
  "spawn_main_endpoint io opts key st ses idle nf =
     rbind (map_err (\<lambda>e. DaemonEndpoint (show_net_error e)) (build_endpoint io key [DATA_ALPN] RoleMain opts))
       (\<lambda>ep. Inr (ep, data_plane_new st ses idle nf))"

section \<open>Laws\<close>

lemma stream_request_forward:
  "stream_request_of f = ReqForward t \<longleftrightarrow> f = Inr (TYPE_FORWARD, Forward t)"
  by (cases f rule: stream_request_of.cases) auto

lemma stream_request_validate:
  "stream_request_of f = ReqValidate t \<longleftrightarrow> f = Inr (TYPE_VALIDATE, Validate t)"
  by (cases f rule: stream_request_of.cases) auto

lemma stream_request_session:
  "stream_request_of f = ReqSession fs \<longleftrightarrow> f = Inr (TYPE_SESSION, Session fs)"
  by (cases f rule: stream_request_of.cases) auto

lemmas stream_requests = stream_request_forward stream_request_validate stream_request_session

lemma no_effects_reply [simp]:
  "Dial t \<notin> set (deny r)" "Dial t \<notin> set reply_ok"
  "RelayBytes \<notin> set (deny r)" "RelayBytes \<notin> set reply_ok"
  "SendFrame x DataOk \<notin> set (deny r)" "SendFrame x (Deny r) \<notin> set reply_ok"
  by (auto simp: deny_def reply_ok_def)

lemma dial_and_relay_dials: "Dial t \<in> set (dial_and_relay target dial ok_sent) \<longleftrightarrow> t = target"
  by (auto simp: dial_and_relay_def split: dial_result.splits)

lemma handle_stream_dial_iff:
  "Dial t \<in> set (handle_stream f p st dial ok_sent) \<longleftrightarrow>
     f = Inr (TYPE_FORWARD, Forward t) \<and> valid_target t \<and> rule_allows st p t"
  by (cases "stream_request_of f")
     (auto simp: handle_stream_def Let_def dial_and_relay_dials stream_requests deny_def reply_ok_def)

section \<open>Properties\<close>

text \<open>A target is well formed exactly when it is at most 256 bytes without white space of the
  form host, one colon, port, where the host is not empty and has no colon and the port reads as a
  16-bit number.\<close>

lemma valid_target_iff:
  "valid_target t \<longleftrightarrow>
     (\<exists>host port. t = host @ '':'' @ port \<and> host \<noteq> [] \<and> CHR '':'' \<notin> set host \<and> CHR '':'' \<notin> set port
        \<and> parse_u16 port \<noteq> None \<and> length t \<le> 256 \<and> \<not> has_whitespace t)"
proof -
  have port: "parse_u16 [] = None" by (simp add: parse_u16_def from_str_radix_def)
  show ?thesis
  proof
    assume v: "valid_target t"
    then obtain host port where sp: "rsplit_once (CHR '':'') t = Some (host, port)"
      by (auto simp: valid_target_def split: if_splits option.splits)
    have "host \<noteq> []" "CHR '':'' \<notin> set host" "parse_u16 port \<noteq> None" "length t \<le> 256" "\<not> has_whitespace t"
      using v sp by (auto simp: valid_target_def MAX_TARGET_LEN_def split: if_splits)
    with rsplit_onceD [OF sp]
    show "\<exists>host port. t = host @ '':'' @ port \<and> host \<noteq> [] \<and> CHR '':'' \<notin> set host \<and> CHR '':'' \<notin> set port
        \<and> parse_u16 port \<noteq> None \<and> length t \<le> 256 \<and> \<not> has_whitespace t"
      by (metis append_Cons append_Nil)
  next
    assume "\<exists>host port. t = host @ '':'' @ port \<and> host \<noteq> [] \<and> CHR '':'' \<notin> set host \<and> CHR '':'' \<notin> set port
        \<and> parse_u16 port \<noteq> None \<and> length t \<le> 256 \<and> \<not> has_whitespace t"
    then obtain host port where t: "t = host @ CHR '':'' # port" "host \<noteq> []" "CHR '':'' \<notin> set host"
        "CHR '':'' \<notin> set port" "parse_u16 port \<noteq> None" "length t \<le> 256" "\<not> has_whitespace t" by auto
    moreover have "rsplit_once (CHR '':'') t = Some (host, port)"
      using t by (simp add: rsplit_once_Some_iff)
    moreover have "port \<noteq> []" using t port by auto
    ultimately show "valid_target t" by (simp add: valid_target_def MAX_TARGET_LEN_def)
  qed
qed

text \<open>C4: the daemon dials a target for a stream exactly when its first frame is a FORWARD for that
  very target, the target is well formed and the peer has a rule for it; a VALIDATE never dials.\<close>

theorem dial_iff_authorized:
  "Dial t \<in> set (handle_stream f p st dial ok_sent) \<longleftrightarrow>
     f = Inr (TYPE_FORWARD, Forward t) \<and> valid_target t \<and> rule_allows st p t"
  by (rule handle_stream_dial_iff)

text \<open>C14: VALIDATE predicts FORWARD: on the same state it is answered OK exactly when a FORWARD for
  the target would dial, and otherwise with the same denial.\<close>

theorem validate_predicts_forward:
  "let v = handle_stream (Inr (TYPE_VALIDATE, Validate t)) p st dial ok_sent;
       f = handle_stream (Inr (TYPE_FORWARD, Forward t)) p st dial' ok_sent'
   in (v = reply_ok \<longleftrightarrow> Dial t \<in> set f) \<and> (v \<noteq> reply_ok \<longrightarrow> f = v)"
  by (auto simp: handle_stream_def Let_def dial_and_relay_dials, auto simp: deny_def reply_ok_def)

theorem validate_predicts_forward_witness:
  "handle_stream (Inr (TYPE_FORWARD, Forward ''bad'')) [] \<lparr>st_path = [], st_inner = persisted_default, st_file = None\<rparr>
     ConnectHangs True = deny DataServerError"
proof -
  have "\<not> valid_target ''bad''" by code_simp
  then show ?thesis
    using validate_predicts_forward [of "''bad''" "[]" "\<lparr>st_path = [], st_inner = persisted_default, st_file = None\<rparr>"
        ConnectHangs True ConnectHangs True]
    by (simp add: handle_stream_def deny_def reply_ok_def Let_def)
qed

text \<open>C16: bytes are relayed only after the target was dialled and the client was told OK, and a
  stream leaves the connection's live counts as it found them once it is over.\<close>

theorem relay_bracketed:
  assumes "live_ok e"
  shows "(RelayBytes \<in> set (handle_stream f p st dial ok_sent) \<longrightarrow>
       (\<exists>t. f = Inr (TYPE_FORWARD, Forward t) \<and> valid_target t \<and> rule_allows st p t
         \<and> handle_stream f p st dial ok_sent =
             [Dial t, SendFrame TYPE_OK DataOk, ForwardOpen t, RelayBytes, ForwardClose t]))
     \<and> live_count (fold entry_effect (handle_stream f p st dial ok_sent) e) u = live_count e u"
proof
  show "RelayBytes \<in> set (handle_stream f p st dial ok_sent) \<longrightarrow>
       (\<exists>t. f = Inr (TYPE_FORWARD, Forward t) \<and> valid_target t \<and> rule_allows st p t
         \<and> handle_stream f p st dial ok_sent =
             [Dial t, SendFrame TYPE_OK DataOk, ForwardOpen t, RelayBytes, ForwardClose t])"
    by (cases "stream_request_of f")
       (auto simp: handle_stream_def Let_def stream_requests dial_and_relay_def deny_def reply_ok_def
         split: dial_result.splits if_splits)
  have "live_count (forward_close t (forward_open t e)) u = live_count e u" for t
    using assms by (simp add: live.cnt_decr live.ok_incr live.cnt_incr)
  moreover have "live_count (entry_set_forwards fs e) u = live_count e u" for fs
    by (simp add: entry_set_forwards_def live_count_def)
  ultimately show "live_count (fold entry_effect (handle_stream f p st dial ok_sent) e) u = live_count e u"
    by (cases "stream_request_of f")
       (auto simp: handle_stream_def Let_def dial_and_relay_def deny_def reply_ok_def split: dial_result.splits)
qed

theorem relay_bracketed_witness:
  "live_count (fold entry_effect (handle_stream (Inr (TYPE_FORWARD, Forward ''h:1'')) ''a''
     \<lparr>st_path = [], st_inner = persisted_default, st_file = None\<rparr> ConnectHangs True) (session_entry_new [] [] 0 0)) ''h:1'' = 0"
  using relay_bracketed
    [of "session_entry_new [] [] 0 0" "Inr (TYPE_FORWARD, Forward ''h:1'')" "''a''"
        "\<lparr>st_path = [], st_inner = persisted_default, st_file = None\<rparr>" ConnectHangs True "''h:1''"]
  by (simp add: live_ok_def session_entry_new_def live_count_def)

text \<open>C17: only registered nodes are served: a connection reaches the stream loop exactly when its
  node id belongs to a registered peer, under that peer's name, and the accepted node is then in the
  session registry; for an unknown node the connection is closed as unauthorized after the current
  delay, a notification of the rejection is queued, the next delay is twice as long up to its cap, and
  nothing else changes.\<close>

theorem accept_only_registered:
  "case accept_begin io now node conn a dp of
     (AcceptServing b name, dp') \<Rightarrow>
        (\<exists>q. peer_by_node (dp_state dp) node = Some q \<and> name = p_name q) \<and> b = a
        \<and> map_of (ss_inner (dp_sessions dp')) (to_ascii_lowercase node) = Some a
        \<and> rd_delay (dp_reject_delay dp') = 500
   | (AcceptRejected d reason, dp') \<Rightarrow>
        peer_by_node (dp_state dp) node = None \<and> reason = ''unauthorized'' \<and> d = rd_delay (dp_reject_delay dp)
        \<and> (\<exists>nf delay. dp' = dp\<lparr>dp_notifier := nf, dp_reject_delay := delay\<rparr>
             \<and> nf = notify (PeerRejected node) (dp_notifier dp) \<and> rd_delay delay = min (2 * d) 8000)"
  by (auto simp: accept_begin_def register_def alloc_entry_def node_key_def session_entry_new_def
      rd_delay_def rd_reset_def rd_escalate_def REJECT_DELAY_INITIAL_def REJECT_DELAY_MAX_def secs_def mult.commute
      split: option.splits)

end
