(* ===== verification/Client_Connect.thy ===== *)
theory Client_Connect
  imports Client_Session Fsio Main_Ep
begin

text \<open>
  The client's forwarding, \<open>tmite-core/src/client/connect.rs\<close>: the syntax of forward
  specifications, the start of \<open>tmite connect\<close> with its checks, and the handler of one local
  connection with its single re-dial.  An IPv6 literal has colons and can never be a part of a
  specification, so the local address is an IPv4 one.
\<close>

section \<open>Addresses\<close>

type_synonym ipv4 = "u8 \<times> u8 \<times> u8 \<times> u8"

text \<open>An octet as the standard library reads it: one to three decimal digits without a leading zero,
  at most 255.\<close>

definition parse_octet :: "string \<Rightarrow> u8 option" where
  "parse_octet s =
     (if s = [] \<or> length s > 3 \<or> \<not> list_all is_ascii_digit s \<or> (length s > 1 \<and> hd s = CHR ''0'') then None
      else (case digits_val 10 0 s of
              Some n \<Rightarrow> if n \<le> 255 then Some (word_of_nat n) else None
            | None \<Rightarrow> None))"

definition parse_ipv4 :: "string \<Rightarrow> ipv4 option" where
  "parse_ipv4 s =
     (case split_on (\<lambda>c. c = CHR ''.'') s of
        [a, b, c, d] \<Rightarrow>
          (case (parse_octet a, parse_octet b, parse_octet c, parse_octet d) of
             (Some a', Some b', Some c', Some d') \<Rightarrow> Some (a', b', c', d')
           | _ \<Rightarrow> None)
      | _ \<Rightarrow> None)"

fun show_ipv4 :: "ipv4 \<Rightarrow> string" where
  "show_ipv4 (a, b, c, d) = str_join ''.'' [show_nat (unat a), show_nat (unat b), show_nat (unat c), show_nat (unat d)]"

definition LOCALHOST :: ipv4 where
  "LOCALHOST = (127, 0, 0, 1)"

section \<open>Forward specifications\<close>

record fwd_spec =
  fw_local_addr :: ipv4
  fw_local_port :: nat
  fw_target :: string

datatype connect_error =
    BadSpec string string
  | UnknownServer string
  | ConnIo io_error
  | ConnFs fs_error
  | ForwardDenied string data_deny_reason
  | ConnNet net_error
  | ConnSession session_error

definition parse_fwd_spec :: "string \<Rightarrow> (connect_error, fwd_spec) result" where
  "parse_fwd_spec spec =
     (case (case split_on (\<lambda>c. c = CHR '':'') spec of
              [port, thost, tport] \<Rightarrow> Some (None, port, thost @ '':'' @ tport)
            | [laddr, port, thost, tport] \<Rightarrow> Some (Some laddr, port, thost @ '':'' @ tport)
            | _ \<Rightarrow> None) of
        None \<Rightarrow> Inl (BadSpec spec ''expected [ADDR:]PORT:TARGET'')
      | Some (local_addr, local_port, target) \<Rightarrow>
          (case parse_u16 local_port of
             None \<Rightarrow> Inl (BadSpec spec ''local port must be 1-65535'')
           | Some port \<Rightarrow>
               (case (case local_addr of Some addr \<Rightarrow> parse_ipv4 addr | None \<Rightarrow> Some LOCALHOST) of
                  None \<Rightarrow> Inl (BadSpec spec ''invalid local address'')
                | Some addr \<Rightarrow>
                    if \<not> valid_target target then Inl (BadSpec spec ''target must be host:port'')
                    else Inr \<lparr>fw_local_addr = addr, fw_local_port = port, fw_target = target\<rparr>)))"

text \<open>\<open>SocketAddr\<close> of the local side.\<close>

definition show_local :: "fwd_spec \<Rightarrow> string" where
  "show_local spec = show_ipv4 (fw_local_addr spec) @ '':'' @ show_nat (fw_local_port spec)"

definition show_spec :: "fwd_spec \<Rightarrow> string" where
  "show_spec spec = show_local spec @ '':'' @ fw_target spec"

section \<open>Asking whether a forward is allowed\<close>

record validate_io =
  va_open :: "string option"
  va_write :: "string option"
  va_reply :: "(string, u8 \<times> data_frame) result"

definition validate_forward :: "validate_io \<Rightarrow> fwd_spec \<Rightarrow> (connect_error, unit) result" where
  "validate_forward io spec =
     (case va_open io of
        Some e \<Rightarrow> Inl (ConnSession (SessUnreachable e))
      | None \<Rightarrow>
          (case va_write io of
             Some e \<Rightarrow> Inl (ConnSession (SessUnreachable e))
           | None \<Rightarrow>
               (case va_reply io of
                  Inl e \<Rightarrow> Inl (ConnSession (SessUnreachable e))
                | Inr (_, DataOk) \<Rightarrow> Inr ()
                | Inr (_, Deny reason) \<Rightarrow> Inl (ForwardDenied (fw_target spec) reason)
                | Inr _ \<Rightarrow> Inl (ConnSession (SessUnreachable ''unexpected reply to VALIDATE'')))))"

section \<open>One local connection\<close>

datatype local_effect =
    LWarn string
  | LDenied string data_deny_reason
  | LInvalidate
  | LSendForward string
  | LAdmit
  | LRelay

text \<open>The answer to the FORWARD within its waiting time: none, a lost connection, or a frame.\<close>

datatype forward_reply = ReplyTimeout | ReplyLost string | ReplyFrame u8 data_frame

text \<open>What one attempt meets: the session, the stream, the write and the reply.\<close>

record attempt_io =
  at_session :: "(string, unit) result"
  at_open :: "string option"
  at_write_ok :: bool
  at_reply :: forward_reply

text \<open>The two attempts of the loop; the flag says whether this is the first.\<close>

fun forward_attempts :: "string \<Rightarrow> bool \<Rightarrow> attempt_io list \<Rightarrow> local_effect list" where
  "forward_attempts target first [] = []"
| "forward_attempts target first (io # rest) =
     (let retry = (\<lambda>msg. if first then forward_attempts target False rest else [LWarn msg]) in
      case at_session io of
        Inl e \<Rightarrow> [LWarn (''cannot reach server: '' @ e)]
      | Inr _ \<Rightarrow>
          (case at_open io of
             Some e \<Rightarrow> LInvalidate # retry (''stream open failed: '' @ e)
           | None \<Rightarrow>
               if \<not> at_write_ok io then LInvalidate # retry ''failed to send FORWARD''
               else LSendForward target #
                 (case at_reply io of
                    ReplyTimeout \<Rightarrow> [LWarn ''timed out awaiting FORWARD reply'']
                  | ReplyLost e \<Rightarrow> LInvalidate # retry (''lost connection while awaiting reply: '' @ e)
                  | ReplyFrame _ DataOk \<Rightarrow> [LAdmit, LRelay]
                  | ReplyFrame _ (Deny reason) \<Rightarrow> [LDenied target reason]
                  | ReplyFrame _ _ \<Rightarrow> [LWarn ''unexpected reply to FORWARD''])))"

text \<open>The whole handler with a registry: the connection is created first, admitted if the server
  approved, and closed by the guard on every way out.\<close>

definition handle_local ::
  "fwd_spec \<Rightarrow> nat \<Rightarrow> string \<Rightarrow> attempt_io \<times> attempt_io \<Rightarrow> conn_registry \<Rightarrow> local_effect list \<times> conn_registry" where
  "handle_local spec spec_idx peer ios reg =
     (let (i, reg1) = registry_create spec_idx peer reg;
          effs = forward_attempts (fw_target spec) True [fst ios, snd ios];
          reg2 = (if LAdmit \<in> set effs then registry_admit i reg1 else reg1)
      in (effs, registry_close i reg2))"

text \<open>The relay: the daemon's, mirrored, without a deadline and with counters.\<close>

record local_relay_out =
  lr_app :: writer
  lr_app_shutdown :: bool
  lr_stream :: writer
  lr_stream_finished :: bool
  lr_rx :: u64
  lr_tx :: u64

definition relay_local ::
  "read_event list \<Rightarrow> read_event list \<Rightarrow> writer \<Rightarrow> writer \<Rightarrow> u64 \<Rightarrow> u64 \<Rightarrow> local_relay_out" where
  "relay_local recv tcp_read tcp_write send tx rx =
     (let (up, tcp', rx') = pump_counted 0 recv tcp_write rx;
          (down, send', tx') = pump_counted 0 tcp_read send tx
      in \<lparr>lr_app = tcp', lr_app_shutdown = (up \<noteq> PumpPending), lr_stream = send',
          lr_stream_finished = (down \<noteq> PumpPending), lr_rx = rx', lr_tx = tx'\<rparr>)"

section \<open>Starting\<close>

text \<open>What start-up meets, in the order of the code.\<close>

record ('r, 'u) connect_io =
  ci_key :: "(fs_error, bytes) result"
  ci_store :: "(fs_error, client_store) result"
  ci_parse_node :: "string \<Rightarrow> string option"
  ci_net :: "('r, 'u) net_io"
  ci_bind :: "fwd_spec \<Rightarrow> io_error option"
  ci_encode :: "data_frame \<Rightarrow> (string, bytes) result"
  ci_show_err :: "frame_io_error \<Rightarrow> string"
  ci_session :: session_io
  ci_validate :: "fwd_spec \<Rightarrow> validate_io"

fun bind_listeners :: "(fwd_spec \<Rightarrow> io_error option) \<Rightarrow> fwd_spec list \<Rightarrow> (connect_error, unit) result" where
  "bind_listeners bind [] = Inr ()"
| "bind_listeners bind (s # ss) = (case bind s of Some e \<Rightarrow> Inl (ConnIo e) | None \<Rightarrow> bind_listeners bind ss)"

fun validate_all :: "(fwd_spec \<Rightarrow> validate_io) \<Rightarrow> fwd_spec list \<Rightarrow> (connect_error, unit) result" where
  "validate_all io [] = Inr ()"
| "validate_all io (s # ss) = rbind (validate_forward (io s) s) (\<lambda>_. validate_all io ss)"

definition hello_frame :: "fwd_spec list \<Rightarrow> data_frame" where
  "hello_frame specs = Session (map (\<lambda>s. \<lparr>sf_local = show_local s, sf_target = fw_target s\<rparr>) specs)"

text \<open>Start-up up to the accept loops; \<open>None\<close> is the panic of the identity assertion.\<close>

definition connect_start ::
  "('r, 'u) connect_io \<Rightarrow> string \<Rightarrow> fwd_spec list \<Rightarrow> net_opts \<Rightarrow> (connect_error, client_session) result option" where
  "connect_start io name specs opts =
     (case ci_key io of
        Inl e \<Rightarrow> Some (Inl (ConnFs e))
      | Inr key \<Rightarrow>
      (case ci_store io of
        Inl e \<Rightarrow> Some (Inl (ConnFs e))
      | Inr store \<Rightarrow>
      (case store_get store name of
        None \<Rightarrow> Some (Inl (UnknownServer name))
      | Some entry \<Rightarrow>
      (case ci_parse_node io (se_node_id entry) of
        None \<Rightarrow> Some (Inl (UnknownServer name))
      | Some server_id \<Rightarrow>
      (case build_endpoint (ci_net io) key [DATA_ALPN] RoleClient opts of
        Inl e \<Rightarrow> Some (Inl (ConnNet e))
      | Inr ep \<Rightarrow>
      (case bind_listeners (ci_bind io) specs of
        Inl e \<Rightarrow> Some (Inl e)
      | Inr _ \<Rightarrow>
      (case ci_encode io (hello_frame specs) of
        Inl e \<Rightarrow> Some (Inl (ConnSession (SessUnreachable e)))
      | Inr hello \<Rightarrow>
      (case session_get (ci_show_err io) (ci_session io) (session_new server_id hello) of
        (None, _) \<Rightarrow> None
      | (Some (Inl e), _) \<Rightarrow> Some (Inl (ConnSession e))
      | (Some (Inr conn), s) \<Rightarrow> Some (rbind (validate_all (ci_validate io) specs) (\<lambda>_. Inr s))))))))))"

text \<open>The open paths of the connection for the terminal; a path without a round-trip sample has the
  time zero.\<close>

record ui_path =
  up_path :: conn_path
  up_tx_bytes :: u64
  up_rx_bytes :: u64

definition snapshot_paths :: "ui_path list \<Rightarrow> path_row list" where
  "snapshot_paths ps =
     map (\<lambda>p. \<lparr>pr_remote_addr = cp_remote_addr (up_path p), pr_relay = cp_is_relay (up_path p),
               pr_selected = cp_is_selected (up_path p),
               pr_rtt = (if cp_rtt_ms (up_path p) = 0 then None else Some (cp_rtt_ms (up_path p))),
               pr_tx_bytes = up_tx_bytes p, pr_rx_bytes = up_rx_bytes p\<rparr>) ps"

section \<open>Laws: addresses\<close>

lemma length_show_nat_255: "n \<le> 255 \<Longrightarrow> length (show_nat n) \<le> 3"
proof -
  assume "n \<le> 255"
  then have "n div 10 div 10 < 10" by simp
  then show ?thesis
    by (simp add: show_nat.simps [of n] show_nat.simps [of "n div 10"] show_nat.simps [of "n div 10 div 10"])
qed

lemma hd_show_nat: "0 < n \<Longrightarrow> hd (show_nat n) \<noteq> CHR ''0''"
proof (induction n rule: show_nat.induct)
  case (1 n)
  show ?case
  proof (cases "n < 10")
    case True
    have "code_of (char_of (48 + n) :: char) = 48 + n" by (rule code_of_digit [OF True])
    moreover have "code_of (CHR ''0'') = 48" by simp
    ultimately have "(char_of (48 + n) :: char) \<noteq> CHR ''0''" using 1(2) by (metis add_cancel_left_right less_numeral_extra(3))
    with True show ?thesis by (simp add: show_nat.simps [of n])
  next
    case False
    then have "hd (show_nat (n div 10)) \<noteq> CHR ''0''" using 1(1) by simp
    with False show ?thesis by (simp add: show_nat.simps [of n])
  qed
qed

lemma parse_octet_show: "parse_octet (show_nat (unat b)) = Some b"
proof -
  have le: "unat b \<le> 255" using unat_u8_lt [of b] by simp
  have digits: "list_all is_ascii_digit (show_nat (unat b))"
    by (auto simp: list_all_iff dest: show_nat_digits)
  have zero: "length (show_nat 0) = 1" by (simp add: show_nat.simps [of 0])
  have "\<not> (length (show_nat n) > 1 \<and> hd (show_nat n) = CHR ''0'')" for n
    using hd_show_nat [of n] zero by (cases "n = 0") simp_all
  from this [of "unat b"] have "\<not> (length (show_nat (unat b)) > 1 \<and> hd (show_nat (unat b)) = CHR ''0'')" .
  with le digits length_show_nat_255 [OF le] show ?thesis
    by (auto simp: parse_octet_def digits_val_show_nat)
qed

lemma show_nat_no_char: "\<not> is_ascii_digit c \<Longrightarrow> c \<notin> set (show_nat n)"
  using show_nat_digits by blast

lemma parse_ipv4_show: "parse_ipv4 (show_ipv4 a) = Some a"
proof (cases a)
  case (fields x y z w)
  have "\<forall>s \<in> set [show_nat (unat x), show_nat (unat y), show_nat (unat z), show_nat (unat w)].
      \<forall>c \<in> set s. \<not> c = CHR ''.''"
    using show_nat_no_char [of "CHR ''.''"] by (auto simp: is_ascii_digit_def)
  then have "split_on (\<lambda>c. c = CHR ''.'') (str_join ''.'' [show_nat (unat x), show_nat (unat y), show_nat (unat z), show_nat (unat w)])
      = [show_nat (unat x), show_nat (unat y), show_nat (unat z), show_nat (unat w)]"
    by (intro split_on_join) auto
  then show ?thesis
    unfolding fields by (simp only: parse_ipv4_def show_ipv4.simps) (simp add: parse_octet_show)
qed

lemma show_ipv4_no_colon: "CHR '':'' \<notin> set (show_ipv4 a)"
proof (cases a)
  case (fields x y z w)
  then show ?thesis
    using show_nat_no_char [of "CHR '':''"] by (simp add: is_ascii_digit_def)
qed

text \<open>The parts of a well-formed target.\<close>

lemma valid_target_parts:
  assumes "valid_target t"
  obtains host port where "t = host @ '':'' @ port" "CHR '':'' \<notin> set host" "CHR '':'' \<notin> set port"
proof -
  from assms obtain host port where sp: "rsplit_once (CHR '':'') t = Some (host, port)" and "CHR '':'' \<notin> set host"
    by (auto simp: valid_target_def split: if_splits option.splits)
  with rsplit_onceD [OF sp] that [of host port] show thesis by simp
qed

lemma split_spec:
  assumes "CHR '':'' \<notin> set a" "CHR '':'' \<notin> set p" "CHR '':'' \<notin> set h" "CHR '':'' \<notin> set q"
  shows "split_on (\<lambda>c. c = CHR '':'') (a @ '':'' @ p @ '':'' @ h @ '':'' @ q) = [a, p, h, q]"
  using split_on_join [of "[a, p, h, q]" "\<lambda>c. c = CHR '':''" "CHR '':''"] assms by auto

lemma parse_show_spec:
  assumes "fw_local_port spec \<le> 65535" and "valid_target (fw_target spec)"
  shows "parse_fwd_spec (show_spec spec) = Inr spec"
proof -
  obtain host port where t: "fw_target spec = host @ '':'' @ port" "CHR '':'' \<notin> set host" "CHR '':'' \<notin> set port"
    using valid_target_parts [OF assms(2)] by blast
  have "split_on (\<lambda>c. c = CHR '':'') (show_spec spec) =
      [show_ipv4 (fw_local_addr spec), show_nat (fw_local_port spec), host, port]"
    using split_spec [of "show_ipv4 (fw_local_addr spec)" "show_nat (fw_local_port spec)" host port]
      show_ipv4_no_colon [of "fw_local_addr spec"] show_nat_no_char [of "CHR '':''" "fw_local_port spec"] t
    by (simp add: show_spec_def show_local_def is_ascii_digit_def)
  then show ?thesis
    using assms t(1) by (simp add: parse_fwd_spec_def parse_show_u16 parse_ipv4_show)
qed

lemma valid_target_h1: "valid_target ''h:1''"
proof -
  have "\<not> has_whitespace ''h:1''" by (simp add: ws_len_def)
  moreover have "rsplit_once (CHR '':'') ''h:1'' = Some (''h'', ''1'')"
    using rsplit_onceI [of "CHR '':''" "''1''" "''h''"] by simp
  moreover have "parse_u16 ''1'' = Some 1"
    by (simp add: parse_u16_def from_str_radix_def digit_val_def)
  ultimately show ?thesis by (simp add: valid_target_def MAX_TARGET_LEN_def)
qed

section \<open>Laws: start-up\<close>

lemma validate_forward_ok:
  "validate_forward io spec = Inr u \<longleftrightarrow> va_open io = None \<and> va_write io = None \<and> (\<exists>ty. va_reply io = Inr (ty, DataOk))"
  by (auto simp: validate_forward_def split: option.splits sum.splits prod.splits data_frame.splits)

lemma validate_all_ok:
  "validate_all io specs = Inr u \<longleftrightarrow> (\<forall>s \<in> set specs. validate_forward (io s) s = Inr ())"
  by (induction specs) (auto simp: rbind_eq_Inr)

lemma bind_listeners_ok: "bind_listeners bind specs = Inr u \<longleftrightarrow> (\<forall>s \<in> set specs. bind s = None)"
  by (induction specs) (auto split: option.splits)

lemma connect_start_ok:
  assumes "connect_start io name specs opts = Some (Inr s)"
  obtains key store entry server hello c where "ci_key io = Inr key" "ci_store io = Inr store"
    "store_get store name = Some entry" "ci_parse_node io (se_node_id entry) = Some server"
    "bind_listeners (ci_bind io) specs = Inr ()" "ci_encode io (hello_frame specs) = Inr hello"
    "session_get (ci_show_err io) (ci_session io) (session_new server hello) = (Some (Inr c), s)"
    "validate_all (ci_validate io) specs = Inr ()"
  using assms unfolding connect_start_def
  by (auto simp: rbind_eq_Inr split: sum.splits option.splits prod.splits)

lemma session_get_new:
  assumes "session_get show_err io (session_new server hello) = (Some (Inr c), s)"
  shows "cl_server_id s = server \<and> cl_conn s = Some c \<and> cc_remote c = server \<and> sst_state (cl_status s) = Established"
  using assms
  by (auto simp: session_get_def session_new_def Let_def split: option.splits sum.splits dest!: session_dial_ok)

section \<open>Laws: attempts\<close>

lemma admit_iff_relay:
  "LAdmit \<in> set (forward_attempts target first ios) \<longleftrightarrow> LRelay \<in> set (forward_attempts target first ios)"
  by (induction target first ios rule: forward_attempts.induct)
     (auto simp: Let_def split: sum.splits option.splits if_splits forward_reply.splits data_frame.splits)

lemma relay_after_ok:
  "LRelay \<in> set (forward_attempts target first ios) \<Longrightarrow>
     (\<exists>io \<in> set ios. at_session io = Inr () \<and> at_open io = None \<and> at_write_ok io
        \<and> (\<exists>ty. at_reply io = ReplyFrame ty DataOk) \<and> LSendForward target \<in> set (forward_attempts target first ios))"
  by (induction target first ios rule: forward_attempts.induct)
     (auto simp: Let_def split: sum.splits option.splits if_splits forward_reply.splits data_frame.splits)

lemma denied_last:
  "LDenied target r \<in> set (forward_attempts target first ios) \<Longrightarrow>
     last (forward_attempts target first ios) = LDenied target r \<and> LRelay \<notin> set (forward_attempts target first ios)"
  by (induction target first ios rule: forward_attempts.induct)
     (auto simp: Let_def split: sum.splits option.splits if_splits forward_reply.splits data_frame.splits)

lemma forward_count:
  "length (filter (\<lambda>e. e = LSendForward target) (forward_attempts target first ios))
     \<le> 1 + length (filter (\<lambda>e. e = LInvalidate) (forward_attempts target first ios))
   \<and> length (filter (\<lambda>e. e = LSendForward target) (forward_attempts target first ios)) \<le> length ios"
  by (induction target first ios rule: forward_attempts.induct)
     (auto simp: Let_def split: sum.splits option.splits if_splits forward_reply.splits data_frame.splits)

lemma close_create:
  assumes "map_of (cr_conns reg) (cr_next_id reg) = None"
  shows "map_of (cr_conns (snd (handle_local spec idx peer ios reg))) = map_of (cr_conns reg)"
  using assms
  by (auto simp: handle_local_def registry_create_def registry_admit_def registry_close_def Let_def fun_upd_idem)

interpretation spec_text: text_codec show_spec
  "\<lambda>s. case parse_fwd_spec s of Inr spec \<Rightarrow> Some spec | Inl _ \<Rightarrow> None"
  "\<lambda>spec. fw_local_port spec \<le> 65535 \<and> valid_target (fw_target spec)"
  by unfold_locales (simp add: parse_show_spec)

section \<open>Properties\<close>

text \<open>C24: a forward specification survives printing and parsing: whatever address, 16-bit port and
  well-formed target it has, its text parses back to it.\<close>

theorem fwd_spec_roundtrip:
  assumes "fw_local_port spec \<le> 65535" and "valid_target (fw_target spec)"
  shows "parse_fwd_spec (show_spec spec) = Inr spec"
  using assms by (rule parse_show_spec)

theorem fwd_spec_roundtrip_witness:
  "parse_fwd_spec (show_spec \<lparr>fw_local_addr = (10, 0, 0, 1), fw_local_port = 8080, fw_target = ''h:1''\<rparr>) =
     Inr \<lparr>fw_local_addr = (10, 0, 0, 1), fw_local_port = 8080, fw_target = ''h:1''\<rparr>"
  by (rule fwd_spec_roundtrip) (simp_all add: valid_target_h1)

text \<open>C25: what parses is a well-formed specification: the local port fits in sixteen bits, the target is
  one the daemon accepts as well formed, a specification without an address listens on the loopback
  address only, and its printed form parses to itself.\<close>

theorem fwd_spec_sound:
  assumes "parse_fwd_spec s = Inr spec"
  shows "valid_target (fw_target spec) \<and> fw_local_port spec \<le> 65535
    \<and> (length (split_on (\<lambda>c. c = CHR '':'') s) = 3 \<longrightarrow> fw_local_addr spec = (127, 0, 0, 1))
    \<and> parse_fwd_spec (show_spec spec) = Inr spec"
proof -
  have port: "n \<le> 65535" if "parse_u16 p = Some n" for p n
    using that by (auto simp: parse_u16_def from_str_radix_def Let_def split: option.splits if_splits)
  have "valid_target (fw_target spec) \<and> fw_local_port spec \<le> 65535
    \<and> (length (split_on (\<lambda>c. c = CHR '':'') s) = 3 \<longrightarrow> fw_local_addr spec = (127, 0, 0, 1))"
    using assms
    by (auto simp: parse_fwd_spec_def LOCALHOST_def split: list.splits option.splits if_splits dest: port)
  then show ?thesis by (simp add: parse_show_spec)
qed

theorem fwd_spec_sound_witness:
  "\<exists>spec. parse_fwd_spec ''8080:h:1'' = Inr spec \<and> fw_local_addr spec = (127, 0, 0, 1) \<and> fw_local_port spec \<le> 65535"
proof -
  have "parse_u16 ''8080'' = Some 8080" by (simp add: parse_u16_def from_str_radix_def digit_val_def)
  then obtain spec where spec: "parse_fwd_spec ''8080:h:1'' = Inr spec"
    using valid_target_h1 by (simp add: parse_fwd_spec_def)
  have parts: "length (split_on (\<lambda>c. c = CHR '':'') ''8080:h:1'') = 3" by simp
  from fwd_spec_sound [OF spec] parts have "fw_local_addr spec = (127, 0, 0, 1) \<and> fw_local_port spec \<le> 65535" by blast
  with spec show ?thesis by blast
qed

text \<open>C23: a local connection is relayed only after the server answered OK to a FORWARD that was really
  sent; a denial is final, at most two FORWARDs are sent and a second one only after the session
  was invalidated; and whatever happened, the registry holds afterwards exactly the connections it
  held before.\<close>

theorem local_relay_needs_ok:
  assumes "map_of (cr_conns reg) (cr_next_id reg) = None"
  shows "let (effs, reg') = handle_local spec idx peer (io1, io2) reg; t = fw_target spec in
     (LRelay \<in> set effs \<longrightarrow>
        (\<exists>io \<in> {io1, io2}. at_session io = Inr () \<and> at_open io = None \<and> at_write_ok io
           \<and> (\<exists>ty. at_reply io = ReplyFrame ty DataOk) \<and> LSendForward t \<in> set effs))
     \<and> (\<forall>r. LDenied t r \<in> set effs \<longrightarrow> last effs = LDenied t r \<and> LRelay \<notin> set effs)
     \<and> length (filter (\<lambda>e. e = LSendForward t) effs) \<le> 1 + length (filter (\<lambda>e. e = LInvalidate) effs)
     \<and> length (filter (\<lambda>e. e = LSendForward t) effs) \<le> 2
     \<and> map_of (cr_conns reg') = map_of (cr_conns reg)"
proof -
  obtain effs reg' where h: "handle_local spec idx peer (io1, io2) reg = (effs, reg')" by (cases "handle_local spec idx peer (io1, io2) reg")
  then have effs: "effs = forward_attempts (fw_target spec) True [io1, io2]"
    by (simp add: handle_local_def Let_def case_prod_unfold)
  have "map_of (cr_conns reg') = map_of (cr_conns reg)"
    using close_create [OF assms, of spec idx peer "(io1, io2)"] h by simp
  moreover note relay_after_ok [of "fw_target spec" True "[io1, io2]"] denied_last [of "fw_target spec" _ True "[io1, io2]"]
    forward_count [of "fw_target spec" True "[io1, io2]"]
  ultimately show ?thesis unfolding h effs [symmetric] by (simp add: numeral_2_eq_2)
qed

theorem local_relay_needs_ok_witness:
  "let (effs, reg') = handle_local \<lparr>fw_local_addr = LOCALHOST, fw_local_port = 1, fw_target = ''h:1''\<rparr> 0 ''p''
       (\<lparr>at_session = Inr (), at_open = Some ''x'', at_write_ok = True, at_reply = ReplyTimeout\<rparr>,
        \<lparr>at_session = Inr (), at_open = None, at_write_ok = True, at_reply = ReplyFrame 2 DataOk\<rparr>) registry_new
   in effs = [LInvalidate, LSendForward ''h:1'', LAdmit, LRelay] \<and> map_of (cr_conns reg') = map_of (cr_conns registry_new)"
  using local_relay_needs_ok
    [of registry_new "\<lparr>fw_local_addr = LOCALHOST, fw_local_port = 1, fw_target = ''h:1''\<rparr>" 0 "''p''"
       "\<lparr>at_session = Inr (), at_open = Some ''x'', at_write_ok = True, at_reply = ReplyTimeout\<rparr>"
       "\<lparr>at_session = Inr (), at_open = None, at_write_ok = True, at_reply = ReplyFrame 2 DataOk\<rparr>"]
  by (simp add: registry_new_def handle_local_def Let_def registry_create_def)

text \<open>C22: \<open>tmite connect\<close> starts to accept local connections only if the server is in the client's
  store, every listener could be bound, the connection is established with exactly the stored node,
  and the server answered OK to the VALIDATE of every requested forward.\<close>

theorem connect_start_checked:
  assumes "connect_start io name specs opts = Some (Inr s)"
  shows "\<exists>store entry server c. ci_store io = Inr store \<and> store_get store name = Some entry
     \<and> ci_parse_node io (se_node_id entry) = Some server
     \<and> cl_server_id s = server \<and> cl_conn s = Some c \<and> cc_remote c = server \<and> sst_state (cl_status s) = Established
     \<and> (\<forall>spec \<in> set specs. ci_bind io spec = None \<and> (\<exists>ty. va_reply (ci_validate io spec) = Inr (ty, DataOk)))"
proof -
  from assms obtain key store entry server hello c where "ci_store io = Inr store"
    "store_get store name = Some entry" "ci_parse_node io (se_node_id entry) = Some server"
    and ok: "bind_listeners (ci_bind io) specs = Inr ()"
    "session_get (ci_show_err io) (ci_session io) (session_new server hello) = (Some (Inr c), s)"
    "validate_all (ci_validate io) specs = Inr ()" by (rule connect_start_ok)
  with session_get_new [OF ok(2)] show ?thesis
    by (auto simp: bind_listeners_ok validate_all_ok validate_forward_ok)
qed

definition witness_connect_io :: "(unit, unit) connect_io" where
  "witness_connect_io =
     \<lparr>ci_key = Inr [], ci_store = Inr \<lparr>cs_version = 1, cs_servers = [\<lparr>se_name = ''s'', se_node_id = ''srv'', se_paired_at = [], se_forwards = []\<rparr>]\<rparr>,
      ci_parse_node = Some,
      ci_net = \<lparr>ni_parse_relay = (\<lambda>_. None), ni_parse_url = (\<lambda>_. None), ni_bind_addr = (\<lambda>_. None), ni_bind = None, ni_online_after = Some 1\<rparr>,
      ci_bind = (\<lambda>_. None), ci_encode = (\<lambda>_. Inr []), ci_show_err = (\<lambda>_. []),
      ci_session = \<lparr>so_connect = ConnectAfter 5 (Inr witness_conn), so_open = None, so_write = None, so_reply = Inr DataOk\<rparr>,
      ci_validate = (\<lambda>_. \<lparr>va_open = None, va_write = None, va_reply = Inr (2, DataOk)\<rparr>)\<rparr>"

theorem connect_start_checked_witness:
  "\<exists>s c. connect_start witness_connect_io ''s'' [\<lparr>fw_local_addr = LOCALHOST, fw_local_port = 1, fw_target = ''h:1''\<rparr>]
      \<lparr>no_relay_urls = [], no_pkarr_url = None, no_bind_port = None\<rparr> = Some (Inr s)
    \<and> cl_conn s = Some c \<and> cc_remote c = ''srv''"
proof -
  let ?specs = "[\<lparr>fw_local_addr = LOCALHOST, fw_local_port = 1, fw_target = ''h:1''\<rparr>]"
  let ?opts = "\<lparr>no_relay_urls = [], no_pkarr_url = None, no_bind_port = None\<rparr>"
  obtain s where s: "connect_start witness_connect_io ''s'' ?specs ?opts = Some (Inr s)"
    by (simp add: connect_start_def witness_connect_io_def store_get_def build_endpoint_def Let_def
        bind_port_def bind_online_def EP_ONLINE_TIMEOUT_def secs_def session_get_def session_new_def session_dial_def count_redial_def
        send_hello_def witness_conn_def validate_forward_def)
  from connect_start_checked [OF this] s show ?thesis
    by (auto simp: witness_connect_io_def store_get_def)
qed

text \<open>The client's relay mirrors the daemon's: when the stream ends, the local application gets all
  its bytes and then the end, when the application ends, the stream gets all its bytes and is
  finished, whatever the other direction is doing, and each counter grows by the bytes that crossed.\<close>

lemma relay_local_half_close:
  "let r = relay_local recv tcp_read tcp_write send tx rx in
     (ends 0 recv \<and> wr_fail tcp_write = None \<and> wr_flush_fail tcp_write = None \<longrightarrow>
        lr_app_shutdown r \<and> wr_out (lr_app r) = wr_out tcp_write @ sent recv
        \<and> lr_rx r = rx + word_of_nat (length (sent recv)))
     \<and> (ends 0 tcp_read \<and> wr_fail send = None \<and> wr_flush_fail send = None \<longrightarrow>
        lr_stream_finished r \<and> wr_out (lr_stream r) = wr_out send @ sent tcp_read
        \<and> lr_tx r = tx + word_of_nat (length (sent tcp_read)))"
proof -
  have one: "fst (pump_counted 0 evs w c) = PumpOk \<and> wr_out (fst (snd (pump_counted 0 evs w c))) = wr_out w @ sent evs
      \<and> snd (snd (pump_counted 0 evs w c)) = c + word_of_nat (length (sent evs))"
    if "ends 0 evs" "wr_fail w = None" "wr_flush_fail w = None" for evs w c
    using that pump_ends_ok [of w 0 evs] pump_ok_all [of 0 evs w] pump_counted_pump [of 0 evs w c]
      pump_counted_count [of 0 evs w c] by simp
  show ?thesis
    using one [of recv tcp_write rx] one [of tcp_read send tx]
    by (simp add: relay_local_def Let_def case_prod_unfold)
qed

end
