(* ===== verification/Pairing.thy ===== *)
theory Pairing
  imports Proto_Limits Rust_Str
begin

text \<open>
  Pairing codes, \<open>tmite-proto/src/pairing.rs\<close>: five bytes of entropy as five words with a
  checksum, tolerant of how the code is typed, and the key seed derived from the entropy.  The
  mnemonic codec and its word list, SHA-256 and HKDF are the fields of \<open>code_lib\<close>.
\<close>

section \<open>Data\<close>

record code_lib =
  mn_words :: "string list"
  mn_to_string :: "bytes \<Rightarrow> string"
  mn_decode :: "string \<Rightarrow> bytes option"
  sha256 :: "bytes \<Rightarrow> bytes"
  hkdf_sha256 :: "bytes \<Rightarrow> bytes \<Rightarrow> bytes \<Rightarrow> nat \<Rightarrow> bytes"

datatype code_error =
    WrongWordCount nat
  | UnknownWord string
  | LastWordInvalid
  | ChecksumMismatch
  | Malformed

definition str_bytes :: "string \<Rightarrow> bytes" where
  "str_bytes s = map (\<lambda>c. word_of_nat (code_of c)) s"

definition KDF_SALT :: bytes where
  "KDF_SALT = str_bytes ''tmite/v1''"

definition KDF_INFO_INVITE :: bytes where
  "KDF_INFO_INVITE = str_bytes ''invite''"

section \<open>Codes\<close>

definition checksum_byte :: "code_lib \<Rightarrow> bytes \<Rightarrow> u8" where
  "checksum_byte lib entropy = sha256 lib entropy ! 0"

text \<open>A character that separates words: neither a letter nor an apostrophe.\<close>

definition code_sep :: "char \<Rightarrow> bool" where
  "code_sep c = (\<not> (is_ascii_alphabetic c \<or> c = CHR 0x27))"

definition normalize_words :: "string \<Rightarrow> (code_error, string list) result" where
  "normalize_words code =
     (let words = map to_ascii_lowercase (filter (\<lambda>w. w \<noteq> []) (split_on code_sep code))
      in if list_ex (\<lambda>w. w = []) words then Inl Malformed else Inr words)"

definition word_index :: "code_lib \<Rightarrow> string \<Rightarrow> nat option" where
  "word_index lib word = position (\<lambda>w. w = word) (mn_words lib)"

definition entropy_to_code :: "code_lib \<Rightarrow> bytes \<Rightarrow> string" where
  "entropy_to_code lib entropy =
     (case normalize_words (mn_to_string lib (entropy @ [checksum_byte lib entropy])) of
        Inr words \<Rightarrow> str_join '' '' words
      | Inl _ \<Rightarrow> undefined)"

text \<open>The checks on the decoded bytes.\<close>

definition check_decoded :: "code_lib \<Rightarrow> nat \<Rightarrow> bytes \<Rightarrow> (code_error, bytes) result" where
  "check_decoded lib got out =
     (if length out \<noteq> 6 then Inl (WrongWordCount got)
      else let entropy = take INVITE_CODE_ENTROPY out in
        if checksum_byte lib entropy \<noteq> out ! INVITE_CODE_ENTROPY then Inl ChecksumMismatch
        else Inr entropy)"

definition code_to_entropy :: "code_lib \<Rightarrow> string \<Rightarrow> (code_error, bytes) result" where
  "code_to_entropy lib code =
     rbind (normalize_words code) (\<lambda>words.
       if length words \<noteq> 5 then Inl (WrongWordCount (length words))
       else (case List.find (\<lambda>w. word_index lib w = None) words of
               Some w \<Rightarrow> Inl (UnknownWord w)
             | None \<Rightarrow>
                 if the (word_index lib (words ! 4)) \<ge> 41 then Inl LastWordInvalid
                 else (case mn_decode lib (str_join ''-'' words) of
                         None \<Rightarrow> Inl Malformed
                       | Some out \<Rightarrow> check_decoded lib (length words) out)))"

definition derive_invite_seed :: "code_lib \<Rightarrow> bytes \<Rightarrow> bytes" where
  "derive_invite_seed lib entropy = hkdf_sha256 lib KDF_SALT entropy KDF_INFO_INVITE 32"

section \<open>Laws\<close>

lemma code_sep_lower [simp]: "code_sep (lower_char c) = code_sep c"
proof (cases "65 \<le> code_of c \<and> code_of c \<le> 90")
  case True
  then have "code_of (lower_char c) = code_of c + 32" by (simp add: lower_char_def)
  moreover from this True have "lower_char c \<noteq> CHR 0x27" by auto
  ultimately show ?thesis using True by (simp add: code_sep_def is_ascii_alphabetic_def)
qed (auto simp: lower_char_def)

lemma split_on_lower:
  "split_on code_sep (to_ascii_lowercase s) = map to_ascii_lowercase (split_on code_sep s)"
  by (induction s) (auto simp: to_ascii_lowercase_def split: list.splits)

lemma normalize_words_eq:
  "normalize_words code = Inr (map to_ascii_lowercase (filter (\<lambda>w. w \<noteq> []) (split_on code_sep code)))"
  by (auto simp: normalize_words_def Let_def list_ex_iff to_ascii_lowercase_def)

lemma normalize_words_lower: "normalize_words (to_ascii_lowercase s) = normalize_words s"
  by (simp add: normalize_words_eq split_on_lower filter_map comp_def to_ascii_lowercase_def [of "_ # _"])
     (simp add: to_ascii_lowercase_def comp_def filter_map)

text \<open>The words the normaliser returns.\<close>

definition clean_word :: "string \<Rightarrow> bool" where
  "clean_word w = (w \<noteq> [] \<and> to_ascii_lowercase w = w \<and> (\<forall>c \<in> set w. \<not> code_sep c))"

lemma normalize_clean: "normalize_words s = Inr ws \<Longrightarrow> w \<in> set ws \<Longrightarrow> clean_word w"
  using split_on_pieces [of _ code_sep s]
  by (auto simp: normalize_words_eq clean_word_def) (auto simp: to_ascii_lowercase_def)

lemma normalize_join:
  assumes "\<forall>w \<in> set ws. clean_word w" and "code_sep d"
  shows "normalize_words (str_join [d] ws) = Inr ws"
proof (cases "ws = []")
  case False
  then have "split_on code_sep (str_join [d] ws) = ws"
    using assms by (intro split_on_join) (auto simp: clean_word_def)
  moreover have "filter (\<lambda>w. w \<noteq> []) ws = ws" and "map to_ascii_lowercase ws = ws"
    using assms(1) by (auto simp: clean_word_def filter_id_conv map_idI)
  ultimately show ?thesis by (simp add: normalize_words_eq)
qed (simp add: normalize_words_eq)

lemma sep_space [simp]: "code_sep CHR '' ''"
  by (simp add: code_sep_def is_ascii_alphabetic_def)

lemma take5_nth5: "length out = 6 \<Longrightarrow> out = take 5 out @ [out ! 5]"
  using take_Suc_conv_app_nth [of 5 out] by simp

lemma check_decoded_iff:
  "check_decoded lib got out = Inr e \<longleftrightarrow> length e = 5 \<and> out = e @ [checksum_byte lib e]"
proof
  assume *: "check_decoded lib got out = Inr e"
  then have "length out = 6" and "e = take 5 out" and "checksum_byte lib e = out ! 5"
    by (auto simp: check_decoded_def INVITE_CODE_ENTROPY_def Let_def split: if_splits)
  then show "length e = 5 \<and> out = e @ [checksum_byte lib e]"
    using take5_nth5 [of out] by simp
qed (auto simp: check_decoded_def INVITE_CODE_ENTROPY_def nth_append)

text \<open>Exactly the codes that are accepted.\<close>

lemma code_to_entropy_ok_iff:
  "code_to_entropy lib code = Inr e \<longleftrightarrow>
     (\<exists>ws. normalize_words code = Inr ws \<and> length ws = 5 \<and> set ws \<subseteq> set (mn_words lib)
       \<and> the (word_index lib (ws ! 4)) < 41 \<and> length e = 5
       \<and> mn_decode lib (str_join ''-'' ws) = Some (e @ [checksum_byte lib e]))"
proof -
  obtain ws where ws: "normalize_words code = Inr ws" by (simp add: normalize_words_eq)
  have known: "set ws \<subseteq> set (mn_words lib) \<longleftrightarrow> List.find (\<lambda>w. word_index lib w = None) ws = None"
    by (auto simp: find_None_iff word_index_def position_None_iff list_ex_iff)
  show ?thesis
    by (cases "mn_decode lib (str_join ''-'' ws)"; cases "List.find (\<lambda>w. word_index lib w = None) ws")
       (auto simp: code_to_entropy_def ws known check_decoded_iff)
qed

section \<open>Properties\<close>

text \<open>A pairing code is accepted exactly when it consists of five known words, the fifth among
  the first 41, that decode to five bytes followed by their checksum; those five bytes are the
  result.\<close>

lemma code_to_entropy_iff:
  "code_to_entropy lib code = Inr e \<longleftrightarrow>
     (\<exists>ws. normalize_words code = Inr ws \<and> length ws = 5 \<and> set ws \<subseteq> set (mn_words lib)
       \<and> the (word_index lib (ws ! 4)) < 41 \<and> length e = 5
       \<and> mn_decode lib (str_join ''-'' ws) = Some (e @ [checksum_byte lib e]))"
  by (rule code_to_entropy_ok_iff)

text \<open>A code typed back in any letter case and with any separators between its words gives the
  entropy it was made from, for a mnemonic codec that encodes six bytes as five words of its list,
  the fifth below index 41, and decodes those words to the same bytes.\<close>

lemma code_roundtrip:
  assumes "length e = 5"
    and five: "normalize_words (mn_to_string lib (e @ [checksum_byte lib e])) = Inr ws"
      "length ws = 5" "set ws \<subseteq> set (mn_words lib)"
    and last_word: "the (word_index lib (ws ! 4)) < 41"
    and decodes: "mn_decode lib (str_join ''-'' ws) = Some (e @ [checksum_byte lib e])"
    and typed: "normalize_words typed = normalize_words (entropy_to_code lib e)"
  shows "code_to_entropy lib typed = Inr e"
proof -
  have "normalize_words (entropy_to_code lib e) = Inr ws"
    using five(1) normalize_clean [OF five(1)] normalize_join [of ws "CHR '' ''"]
    by (simp add: entropy_to_code_def)
  with assms show ?thesis
    by (simp add: code_to_entropy_ok_iff)
qed

definition witness_lib :: code_lib where
  "witness_lib = \<lparr>mn_words = [''ab'', ''cd''], mn_to_string = (\<lambda>_. ''ab-cd-ab--cd-ab''),
     mn_decode = (\<lambda>_. Some [1, 2, 3, 4, 5, 9]), sha256 = (\<lambda>_. [9]), hkdf_sha256 = (\<lambda>_ _ _ _. [])\<rparr>"

lemma witness_lib_code:
  "normalize_words ''ab-cd-ab--cd-ab'' = Inr [''ab'', ''cd'', ''ab'', ''cd'', ''ab'']"
  "normalize_words ''AB, cd ab CD/ab'' = Inr [''ab'', ''cd'', ''ab'', ''cd'', ''ab'']"
  "normalize_words (entropy_to_code witness_lib [1, 2, 3, 4, 5]) = Inr [''ab'', ''cd'', ''ab'', ''cd'', ''ab'']"
  by code_simp+

lemma code_roundtrip_example: "code_to_entropy witness_lib ''AB, cd ab CD/ab'' = Inr [1, 2, 3, 4, 5]"
  by (rule code_roundtrip [where ws = "[''ab'', ''cd'', ''ab'', ''cd'', ''ab'']"])
     (simp_all add: witness_lib_code, simp_all add: witness_lib_def checksum_byte_def word_index_def witness_lib_code)

text \<open>Letter case never matters: a code and its lower-case form are decoded alike.\<close>

lemma code_case_insensitive: "code_to_entropy lib (to_ascii_lowercase code) = code_to_entropy lib code"
  by (simp add: code_to_entropy_def normalize_words_lower)

end
