(* ===== verification/Client_Pair.thy ===== *)
theory Client_Pair
  imports Pairing Fsio Frame Net Main_Ep Client_Session
begin

text \<open>
  The client's side of pairing, \<open>tmite-core/src/client/pair.rs\<close>: from the typed code to the
  invite's endpoint, the exchange of frames with its deadlines, and the entry written to the store
  of servers.  What the libraries, the network and the file system answer is the record
  \<open>pair_io\<close>.
\<close>

section \<open>Errors\<close>

datatype pair_error =
    InvalidCode code_error
  | PairUnreachable
  | PairTimeout
  | PairDenied pair_deny_reason
  | PairIo io_error
  | PairProtocol string
  | PairFs fs_error
  | PairNet net_error
  | PairFrame frame_io_error

fun exit_code :: "pair_error \<Rightarrow> int" where
  "exit_code (InvalidCode _) = 2"
| "exit_code (PairDenied AdminDenied) = 3"
| "exit_code (PairDenied Busy) = 2"
| "exit_code (PairDenied Expired) = 2"
| "exit_code (PairDenied NameTaken) = 1"
| "exit_code (PairDenied ServerError) = 1"
| "exit_code PairTimeout = 4"
| "exit_code PairUnreachable = 5"
| "exit_code (PairNet _) = 5"
| "exit_code _ = 1"

section \<open>Deadlines\<close>

text \<open>A future that completes after some time, or never, and a deadline on it: \<open>tokio::time::timeout\<close>.\<close>

datatype 'a arrival = After duration 'a | Never

fun timeout :: "duration \<Rightarrow> 'a arrival \<Rightarrow> 'a option arrival" where
  "timeout deadline (After d x) = (if d \<le> deadline then After d (Some x) else After deadline None)"
| "timeout deadline Never = After deadline None"

text \<open>What \<open>read_frame\<close> and \<open>expect_frame\<close> return, and when, for a frame that arrives.\<close>

type_synonym frame_arrival = "(frame_io_error, u8 \<times> pairing_frame) result arrival"

fun read_within :: "duration \<Rightarrow> frame_arrival \<Rightarrow> frame_arrival" where
  "read_within deadline a =
     (case timeout deadline a of
        After t (Some r) \<Rightarrow> After t r
      | After t None \<Rightarrow> After t (Inl IoTimeout)
      | Never \<Rightarrow> Never)"

definition expect_within :: "u8 \<Rightarrow> duration \<Rightarrow> frame_arrival \<Rightarrow> (frame_io_error, pairing_frame) result" where
  "expect_within msg_type deadline a =
     (case read_within deadline a of
        After _ (Inr (t, frame)) \<Rightarrow> if t \<noteq> msg_type then Inl (IoFrame (UnexpectedType t)) else Inr frame
      | After _ (Inl e) \<Rightarrow> Inl e
      | Never \<Rightarrow> Inl IoTimeout)"

section \<open>The exchange\<close>

record pair_params =
  pp_code :: string
  pp_net_opts :: net_opts
  pp_name :: "string option"

record ('r, 'u) pair_io =
  pi_lib :: code_lib
  pi_public :: "bytes \<Rightarrow> string"
  pi_key :: "(fs_error, bytes) result"
  pi_net :: "('r, 'u) net_io"
  pi_connect :: "string \<Rightarrow> connect_outcome"
  pi_open :: "string option"
  pi_write_version :: "frame_io_error option"
  pi_write_hello :: "frame_io_error option"
  pi_wait :: frame_arrival
  pi_verdict :: frame_arrival
  pi_show_err :: "frame_io_error \<Rightarrow> string"
  pi_node :: "bytes \<Rightarrow> string option"
  pi_now :: string
  pi_toml_de :: "string \<Rightarrow> (string, client_store) result"
  pi_toml_ser :: "client_store \<Rightarrow> (string, string) result"
  pi_read_err :: "io_error option"
  pi_mkdir :: "io_error option"
  pi_fs :: fs_outcome

definition pair_dial :: "('r, 'u) pair_io \<Rightarrow> pair_params \<Rightarrow> (pair_error, unit) result" where
  "pair_dial io params =
     rbind (map_err InvalidCode (code_to_entropy (pi_lib io) (pp_code params))) (\<lambda>entropy.
     rbind (map_err PairFs (pi_key io)) (\<lambda>secret_key.
     rbind (map_err PairNet (build_endpoint (pi_net io) secret_key [PAIRING_ALPN] RoleInvite (pp_net_opts params))) (\<lambda>_.
       (case pi_connect io (pi_public io (derive_invite_seed (pi_lib io) entropy)) of
          ConnectNever \<Rightarrow> Inl PairTimeout
        | ConnectAfter d r \<Rightarrow>
            if EP_ONLINE_TIMEOUT < d then Inl PairTimeout
            else (case r of Inl _ \<Rightarrow> Inl PairUnreachable | Inr _ \<Rightarrow> Inr ())))))"

definition pair_verdict :: "('r, 'u) pair_io \<Rightarrow> (pair_error, bytes \<times> string) result" where
  "pair_verdict io =
     (case timeout (PROMPT_TIMEOUT + PAIRING_READ_TIMEOUT + PAIRING_READ_TIMEOUT)
             (read_within PAIRING_READ_TIMEOUT (pi_verdict io)) of
        After _ (Some (Inr (t, PairConfirm node_id name))) \<Rightarrow>
          if t = TYPE_PAIR_CONFIRM then Inr (node_id, name) else Inl (PairProtocol ''unexpected frame during pairing'')
      | After _ (Some (Inr (t, PairDeny reason))) \<Rightarrow>
          if t = TYPE_PAIR_DENY then Inl (PairDenied reason) else Inl (PairProtocol ''unexpected frame during pairing'')
      | After _ (Some (Inr _)) \<Rightarrow> Inl (PairProtocol ''unexpected frame during pairing'')
      | After _ (Some (Inl e)) \<Rightarrow> Inl (PairFrame e)
      | _ \<Rightarrow> Inl PairTimeout)"

definition pair_greet :: "('r, 'u) pair_io \<Rightarrow> (pair_error, unit) result" where
  "pair_greet io =
     (let protocol = (\<lambda>e. PairProtocol (pi_show_err io e)) in
      case pi_open io of
        Some e \<Rightarrow> Inl (PairProtocol e)
      | None \<Rightarrow>
          (case pi_write_version io of
             Some e \<Rightarrow> Inl (protocol e)
           | None \<Rightarrow>
               (case pi_write_hello io of
                  Some e \<Rightarrow> Inl (protocol e)
                | None \<Rightarrow>
                    rbind (map_err protocol (expect_within TYPE_PAIR_WAIT PAIRING_READ_TIMEOUT (pi_wait io)))
                      (\<lambda>_. Inr ()))))"

definition pair_talk :: "('r, 'u) pair_io \<Rightarrow> (pair_error, bytes \<times> string) result" where
  "pair_talk io = rbind (pair_greet io) (\<lambda>_. pair_verdict io)"

definition file_read :: "io_error option \<Rightarrow> string option \<Rightarrow> (io_error, string) result" where
  "file_read read_err file =
     (case read_err of Some e \<Rightarrow> Inl e | None \<Rightarrow> (case file of Some t \<Rightarrow> Inr t | None \<Rightarrow> Inl IoNotFound))"

definition paired_entry :: "('r, 'u) pair_io \<Rightarrow> client_store \<Rightarrow> string \<Rightarrow> string \<Rightarrow> server_entry" where
  "paired_entry io store stored_name server_id =
     \<lparr>se_name = stored_name, se_node_id = server_id, se_paired_at = pi_now io,
      se_forwards = (case get_by_node_id store server_id of Some e \<Rightarrow> se_forwards e | None \<Rightarrow> [])\<rparr>"

definition pair_save ::
  "('r, 'u) pair_io \<Rightarrow> pair_params \<Rightarrow> bytes \<times> string \<Rightarrow> string option
     \<Rightarrow> (pair_error, string) result \<times> string option" where
  "pair_save io params verdict file =
     (case pi_node io (fst verdict) of
        None \<Rightarrow> (Inl (PairProtocol ''invalid node id in confirm''), file)
      | Some server_id \<Rightarrow>
          (case store_load (pi_toml_de io) (file_read (pi_read_err io) file) of
             Inl e \<Rightarrow> (Inl (PairFs e), file)
           | Inr store \<Rightarrow>
               (let stored_name = (case pp_name params of Some n \<Rightarrow> n | None \<Rightarrow> snd verdict) in
                case upsert (paired_entry io store stored_name server_id) store of
                  (Inl e, _) \<Rightarrow> (Inl (PairFs e), file)
                | (Inr _, store') \<Rightarrow>
                    (case store_save (pi_toml_ser io) (pi_mkdir io) (pi_fs io) store' file of
                       (Inl e, file') \<Rightarrow> (Inl (PairFs e), file')
                     | (Inr _, file') \<Rightarrow> (Inr stored_name, file')))))"

definition pair_run ::
  "('r, 'u) pair_io \<Rightarrow> pair_params \<Rightarrow> string option \<Rightarrow> (pair_error, string) result \<times> string option" where
  "pair_run io params file =
     (case rbind (pair_dial io params) (\<lambda>_. pair_talk io) of
        Inl e \<Rightarrow> (Inl e, file)
      | Inr verdict \<Rightarrow> pair_save io params verdict file)"

text \<open>The messages to the user on the way; the node id is that of the client's own key.\<close>

datatype pair_ui_call = PuInfo string | PuShowNodeId bytes | PuPaired string bytes

definition pair_ui_calls ::
  "('r, 'u) pair_io \<Rightarrow> (bytes \<Rightarrow> bytes) \<Rightarrow> pair_params \<Rightarrow> string option \<Rightarrow> pair_ui_call list" where
  "pair_ui_calls io public params file =
     (case (code_to_entropy (pi_lib io) (pp_code params), pi_key io) of
        (Inr _, Inr secret_key) \<Rightarrow>
          [PuShowNodeId (public secret_key), PuInfo ''Connecting to invite server...'']
          @ (case rbind (pair_dial io params) (\<lambda>_. pair_greet io) of
               Inl _ \<Rightarrow> []
             | Inr _ \<Rightarrow>
                 PuInfo ''Waiting for the server admin to confirm...''
                 # (case (pair_verdict io, fst (pair_run io params file)) of
                      (Inr verdict, Inr stored_name) \<Rightarrow> [PuPaired stored_name (fst verdict)]
                    | _ \<Rightarrow> []))
      | _ \<Rightarrow> [])"

section \<open>Laws\<close>

lemma store_save_cases:
  assumes "store_save ser mkdir fs store file = (r, file')"
  obtains e where "r = Inl e" "file' = file"
  | contents where "r = Inr ()" "ser store = Inr contents" "file' = Some contents"
  using assms by (auto simp: store_save_def split: option.splits sum.splits fs_outcome.splits)

lemma verdict_confirm:
  "pair_verdict io = Inr (node, name) \<longleftrightarrow>
     (\<exists>d \<le> 30000. pi_verdict io = After d (Inr (TYPE_PAIR_CONFIRM, PairConfirm node name)))"
  by (cases "pi_verdict io")
     (auto simp: pair_verdict_def PAIRING_READ_TIMEOUT_def PROMPT_TIMEOUT_def secs_def
       split: sum.splits pairing_frame.splits if_splits prod.splits)

lemma verdict_no_timeout: "pair_verdict io \<noteq> Inl PairTimeout"
  by (cases "pi_verdict io")
     (auto simp: pair_verdict_def PAIRING_READ_TIMEOUT_def PROMPT_TIMEOUT_def secs_def
       split: sum.splits pairing_frame.splits if_splits prod.splits)

lemma talk_ok: "pair_talk io = Inr v \<Longrightarrow> pair_verdict io = Inr v"
  by (auto simp: pair_talk_def Let_def rbind_eq_Inr split: option.splits)

lemma pair_save_ok:
  assumes "pair_save io params (node, name) file = (Inr stored, file')"
  obtains server store store' contents where "pi_node io node = Some server"
    "store_load (pi_toml_de io) (file_read (pi_read_err io) file) = Inr store"
    "stored = (case pp_name params of Some n \<Rightarrow> n | None \<Rightarrow> name)"
    "upsert (paired_entry io store stored server) store = (Inr (), store')"
    "pi_toml_ser io store' = Inr contents" "file' = Some contents"
  using assms unfolding pair_save_def
  by (auto simp: Let_def split: option.splits sum.splits prod.splits elim!: store_save_cases)

lemma pair_save_err:
  assumes "pair_save io params v file = (Inl e, file')"
  shows "file' = file"
  using assms unfolding pair_save_def
  by (auto simp: Let_def split: option.splits sum.splits prod.splits elim!: store_save_cases)

lemma pair_dial_ok:
  "pair_dial io params = Inr () \<Longrightarrow> \<exists>e k. code_to_entropy (pi_lib io) (pp_code params) = Inr e \<and> pi_key io = Inr k"
  by (auto simp: pair_dial_def rbind_eq_Inr map_err_def split: sum.splits)

text \<open>The user is told of a pairing exactly when there is one, with the stored name and the confirmed
  server.\<close>

lemma paired_message_iff:
  "PuPaired name server \<in> set (pair_ui_calls io public params file) \<longleftrightarrow>
     fst (pair_run io params file) = Inr name \<and> (\<exists>confirmed. pair_talk io = Inr (server, confirmed))"
  using pair_dial_ok [of io params]
  by (cases "pair_dial io params"; cases "pair_greet io"; cases "pair_verdict io")
     (auto simp: pair_ui_calls_def pair_run_def pair_talk_def split: sum.splits)

section \<open>Properties\<close>

text \<open>C28: pairing writes the store of servers only on a confirmation: it succeeds only if a
  PAIR_CONFIRM frame arrived in time, the entry written is for the confirmed node under the alias
  the user chose or the confirmed name, with the forwards an earlier pairing with that node had
  saved; and if it fails the file is as it was.\<close>

theorem pair_saves_only_confirmed:
  assumes "pair_run io params file = (r, file')"
  shows "(case r of
      Inl e \<Rightarrow> file' = file
    | Inr stored \<Rightarrow>
        (\<exists>d node name server store store' contents.
           pi_verdict io = After d (Inr (TYPE_PAIR_CONFIRM, PairConfirm node name)) \<and> d \<le> 30000
           \<and> pi_node io node = Some server
           \<and> stored = (case pp_name params of Some n \<Rightarrow> n | None \<Rightarrow> name)
           \<and> store_load (pi_toml_de io) (file_read (pi_read_err io) file) = Inr store
           \<and> upsert \<lparr>se_name = stored, se_node_id = server, se_paired_at = pi_now io,
                se_forwards = (case get_by_node_id store server of Some e \<Rightarrow> se_forwards e | None \<Rightarrow> [])\<rparr> store
              = (Inr (), store')
           \<and> pi_toml_ser io store' = Inr contents \<and> file' = Some contents))"
proof (cases r)
  case (Inl e)
  with assms show ?thesis by (auto simp: pair_run_def split: sum.splits dest: pair_save_err)
next
  case (Inr stored)
  with assms obtain node name where v: "pair_talk io = Inr (node, name)"
    and sv: "pair_save io params (node, name) file = (Inr stored, file')"
    by (auto simp: pair_run_def rbind_eq_Inr split: sum.splits)
  from talk_ok [OF v] obtain d where "d \<le> 30000" "pi_verdict io = After d (Inr (TYPE_PAIR_CONFIRM, PairConfirm node name))"
    by (auto simp: verdict_confirm)
  with sv Inr show ?thesis
    by (elim pair_save_ok) (auto simp: paired_entry_def)
qed

definition pair_witness_lib :: code_lib where
  "pair_witness_lib = \<lparr>mn_words = [''a''], mn_to_string = (\<lambda>_. ''a-a-a-a-a''), mn_decode = (\<lambda>_. Some [1, 2, 3, 4, 5, 9]),
     sha256 = (\<lambda>_. [9]), hkdf_sha256 = (\<lambda>_ _ _ _. [])\<rparr>"

definition witness_pair_io :: "frame_arrival \<Rightarrow> frame_arrival \<Rightarrow> (unit, unit) pair_io" where
  "witness_pair_io wait verdict =
     \<lparr>pi_lib = pair_witness_lib, pi_public = (\<lambda>_. ''inv''), pi_key = Inr [],
      pi_net = \<lparr>ni_parse_relay = (\<lambda>_. None), ni_parse_url = (\<lambda>_. None), ni_bind_addr = (\<lambda>_. None), ni_bind = None, ni_online_after = Some 1\<rparr>,
      pi_connect = (\<lambda>_. ConnectAfter 5 (Inr witness_conn)), pi_open = None, pi_write_version = None, pi_write_hello = None,
      pi_wait = wait, pi_verdict = verdict, pi_show_err = (\<lambda>_. []), pi_node = (\<lambda>_. Some ''srv''), pi_now = ''now'',
      pi_toml_de = (\<lambda>_. Inl []), pi_toml_ser = (\<lambda>_. Inr ''toml''), pi_read_err = None, pi_mkdir = None, pi_fs = FsOk\<rparr>"

definition witness_pair_params :: pair_params where
  "witness_pair_params = \<lparr>pp_code = ''a a a a a'', pp_net_opts = \<lparr>no_relay_urls = [], no_pkarr_url = None, no_bind_port = None\<rparr>, pp_name = None\<rparr>"

lemma witness_pair_io_fields [simp]:
  "pi_open (witness_pair_io wait verdict) = None" "pi_write_version (witness_pair_io wait verdict) = None"
  "pi_write_hello (witness_pair_io wait verdict) = None" "pi_wait (witness_pair_io wait verdict) = wait"
  "pi_verdict (witness_pair_io wait verdict) = verdict"
  by (simp_all add: witness_pair_io_def)

lemma witness_dial: "pair_dial (witness_pair_io wait verdict) witness_pair_params = Inr ()"
proof -
  have "normalize_words ''a a a a a'' = Inr [''a'', ''a'', ''a'', ''a'', ''a'']"
    by (simp add: normalize_words_def code_sep_def is_ascii_alphabetic_def to_ascii_lowercase_def lower_char_def Let_def)
  then have "code_to_entropy pair_witness_lib ''a a a a a'' = Inr [1, 2, 3, 4, 5]"
    by (simp add: code_to_entropy_def pair_witness_lib_def word_index_def position.simps check_decoded_def checksum_byte_def INVITE_CODE_ENTROPY_def)
  then show ?thesis
    by (simp add: map_err_def pair_dial_def witness_pair_io_def witness_pair_params_def build_endpoint_def Let_def bind_port_def
        bind_online_def EP_ONLINE_TIMEOUT_def secs_def)
qed

lemma witness_wait:
  "pair_run (witness_pair_io (After 2 (Inr (TYPE_PAIR_WAIT, PairWait))) verdict) witness_pair_params file =
     (case pair_verdict (witness_pair_io (After 2 (Inr (TYPE_PAIR_WAIT, PairWait))) verdict) of
        Inl e \<Rightarrow> (Inl e, file)
      | Inr v \<Rightarrow> pair_save (witness_pair_io (After 2 (Inr (TYPE_PAIR_WAIT, PairWait))) verdict) witness_pair_params v file)"
  by (simp add: map_err_def pair_run_def witness_dial pair_talk_def pair_greet_def expect_within_def PAIRING_READ_TIMEOUT_def secs_def)

theorem pair_saves_only_confirmed_witness:
  "pair_run (witness_pair_io (After 2 (Inr (TYPE_PAIR_WAIT, PairWait))) (After 9 (Inr (TYPE_PAIR_DENY, PairDeny AdminDenied))))
     witness_pair_params (Some ''old'') = (Inl (PairDenied AdminDenied), Some ''old'')"
proof -
  let ?io = "witness_pair_io (After 2 (Inr (TYPE_PAIR_WAIT, PairWait))) (After 9 (Inr (TYPE_PAIR_DENY, PairDeny AdminDenied)))"
  obtain r f where rf: "pair_run ?io witness_pair_params (Some ''old'') = (r, f)" by fastforce
  then have "r = Inl (PairDenied AdminDenied)"
    by (simp add: witness_wait) (simp add: pair_verdict_def PAIRING_READ_TIMEOUT_def PROMPT_TIMEOUT_def secs_def)
  with pair_saves_only_confirmed [OF rf] rf show ?thesis by simp
qed

text \<open>C29: the wait for the administrator ends after 30 seconds, not after the 180 seconds of the outer
  deadline: a verdict that comes later makes the client give up with a frame timeout, whose exit
  code is 1, and the time-out error with its exit code 4 is only ever produced while connecting.\<close>

theorem admin_wait_capped:
  assumes "pair_dial io params = Inr ()" and "pi_open io = None" and "pi_write_version io = None"
    and "pi_write_hello io = None"
    and "expect_within TYPE_PAIR_WAIT PAIRING_READ_TIMEOUT (pi_wait io) = Inr PairWait"
    and "pi_verdict io = After d v" and "30000 < d"
  shows "pair_run io params file = (Inl (PairFrame IoTimeout), file) \<and> exit_code (PairFrame IoTimeout) = 1
    \<and> pair_talk io \<noteq> Inl PairTimeout"
  using assms
  by (simp add: map_err_def pair_run_def pair_talk_def pair_greet_def pair_verdict_def PAIRING_READ_TIMEOUT_def PROMPT_TIMEOUT_def secs_def)

theorem admin_wait_capped_witness:
  "fst (pair_run (witness_pair_io (After 2 (Inr (TYPE_PAIR_WAIT, PairWait))) (After 60000 (Inr (TYPE_PAIR_CONFIRM, PairConfirm [] ''s''))))
     witness_pair_params None) = Inl (PairFrame IoTimeout)"
proof -
  let ?io = "witness_pair_io (After 2 (Inr (TYPE_PAIR_WAIT, PairWait))) (After 60000 (Inr (TYPE_PAIR_CONFIRM, PairConfirm [] ''s'')))"
  have "expect_within TYPE_PAIR_WAIT PAIRING_READ_TIMEOUT (pi_wait ?io) = Inr PairWait"
    by (simp add: expect_within_def PAIRING_READ_TIMEOUT_def secs_def)
  from admin_wait_capped [OF witness_dial _ _ _ this, of 60000 _ None] show ?thesis by simp
qed

text \<open>A denial the server sends before it asks the administrator, because the invite is busy, is
  not recognised: the client, which awaits PAIR_WAIT, reports a protocol error with exit code 1
  where the denial itself has the exit code 2.\<close>

lemma early_denial_is_protocol_error:
  assumes "pair_dial io params = Inr ()" and "pi_open io = None" and "pi_write_version io = None"
    and "pi_write_hello io = None" and "pi_wait io = After d (Inr (TYPE_PAIR_DENY, PairDeny Busy))"
    and "d \<le> 30000"
  shows "\<exists>m. pair_run io params file = (Inl (PairProtocol m), file) \<and> exit_code (PairProtocol m) = 1
    \<and> exit_code (PairDenied Busy) = 2"
  using assms
  by (simp add: map_err_def pair_run_def pair_talk_def pair_greet_def expect_within_def PAIRING_READ_TIMEOUT_def secs_def
      TYPE_PAIR_DENY_def TYPE_PAIR_WAIT_def)

lemma early_denial_is_protocol_error_example:
  "\<exists>m. pair_run (witness_pair_io (After 9 (Inr (TYPE_PAIR_DENY, PairDeny Busy))) Never) witness_pair_params None
     = (Inl (PairProtocol m), None)"
proof -
  from early_denial_is_protocol_error
    [OF witness_dial, of "After 9 (Inr (TYPE_PAIR_DENY, PairDeny Busy))" Never 9 None]
  show ?thesis by auto
qed

end
