(* ===== verification/Invite.thy ===== *)
theory Invite
  imports Daemon_State Pairing Notify Net Frame Main_Ep
begin

text \<open>
  Invites, \<open>tmite-core/src/daemon/invite.rs\<close>: the manager that creates and decides invites, and
  the machine of one invite, its serve loop and the tasks of its pairing connections, which share
  state through locks and wake each other through a notification.  The machine is a step relation
  in which any enabled task may go next; a step is what a task does between two of its suspension
  points.
\<close>

section \<open>Errors and outcomes\<close>

datatype invite_error = InvCap | InvNameTaken string | InvEndpoint string

fun invite_error_code :: "invite_error \<Rightarrow> error_code" where
  "invite_error_code InvCap = InviteCap"
| "invite_error_code _ = Internal"

fun show_invite_error :: "invite_error \<Rightarrow> string" where
  "show_invite_error InvCap = ''too many pending invites (max '' @ show_nat MAX_PENDING_INVITES @ '')''"
| "show_invite_error (InvNameTaken n) = ''peer '' @ [CHR 0x22] @ n @ [CHR 0x22] @ '' already exists''"
| "show_invite_error (InvEndpoint e) = ''invite endpoint setup failed: '' @ e"

datatype decide_error = DecNotFound | DecExpired

fun show_decide_error :: "decide_error \<Rightarrow> string" where
  "show_decide_error DecNotFound = ''invite not found''"
| "show_decide_error DecExpired = ''invite already expired''"

datatype outcome = OutPaired string | OutRejected | OutExpired | OutCancelled

section \<open>One invite: shared state and tasks\<close>

text \<open>What never changes during an invite's life.\<close>

record invite_cfg =
  ic_invite_id :: string
  ic_name :: string
  ic_deadline :: instant
  ic_request_id :: u64
  ic_server_node_id :: bytes

text \<open>What can be observed of an invite: events and results sent to the admin, decisions taken up,
  frames written to a client, registrations, notifications.\<close>

datatype obs =
    ObsCode code_event_data
  | ObsPairRequest string
  | ObsExpiredEvent
  | ObsDecided bool
  | ObsSent string pairing_frame
  | ObsRegistered string
  | ObsResult invite_result
  | ObsNotify notification

text \<open>The state behind the locks, with the clock and the observations, newest first.\<close>

record invite_shared =
  sh_state :: daemon_state
  sh_decision :: "bool option"
  sh_cmds :: "bool list"
  sh_outcomes :: "outcome list"
  sh_delay :: reject_delay
  sh_peer_recorded :: bool
  sh_pair_busy :: bool
  sh_listed :: bool
  sh_clock :: instant
  sh_log :: "obs list"

abbreviation observe :: "obs list \<Rightarrow> invite_shared \<Rightarrow> invite_shared" where
  "observe os sh \<equiv> sh\<lparr>sh_log := os @ sh_log sh\<rparr>"

text \<open>What a connection task still does once its client has acknowledged the verdict.\<close>

datatype after_ack = AckNothing | AckEscalate | AckOutcome outcome

text \<open>Where the task of a pairing connection stands; in \<open>PcSelect\<close> it waits for a decision, has
  possibly been woken, and gives up at the time given.  \<open>RefAcceptBi\<close> and \<open>RefAck\<close> are the
  stations of a connection that is refused because the slot is taken.\<close>

datatype conn_pc =
    PcAcceptBi
  | PcVersion
  | PcHello
  | PcName
  | PcSendWait
  | PcSelect bool instant
  | PcRecord
  | PcDeny pair_deny_reason
  | PcAck after_ack
  | PcRelease
  | PcEnd
  | RefAcceptBi
  | RefAck

datatype serve_pc =
    SvSelect
  | SvSleep instant string
  | SvConnecting string
  | SvClosing outcome
  | SvFlush outcome instant
  | SvFinish outcome
  | SvDone

record invite_machine =
  im_shared :: invite_shared
  im_serve :: serve_pc
  im_conns :: "(string \<times> conn_pc) list"

fun wake :: "conn_pc \<Rightarrow> conn_pc" where
  "wake (PcSelect w t) = PcSelect True t"
| "wake pc = pc"

text \<open>\<open>notify_waiters\<close>: only the tasks that wait at this moment are woken.\<close>

definition wake_all :: "(string \<times> conn_pc) list \<Rightarrow> (string \<times> conn_pc) list" where
  "wake_all cs = map (\<lambda>(r, pc). (r, wake pc)) cs"

section \<open>The task of a pairing connection\<close>

definition version_ok :: "(frame_io_error, pairing_frame) result \<Rightarrow> bool" where
  "version_ok r = (case r of Inr (Version v) \<Rightarrow> v = CODE_VERSION | _ \<Rightarrow> False)"

definition hello_ok :: "(frame_io_error, pairing_frame) result \<Rightarrow> bool" where
  "hello_ok r = (case r of Inr (PairHello _) \<Rightarrow> True | _ \<Rightarrow> False)"

definition new_peer :: "invite_cfg \<Rightarrow> string \<Rightarrow> string \<Rightarrow> peer" where
  "new_peer cfg r now = \<lparr>p_name = ic_name cfg, p_node_id = r, p_paired_at = now, p_last_seen = now\<rparr>"

abbreviation confirm :: "invite_cfg \<Rightarrow> pairing_frame" where
  "confirm cfg \<equiv> PairConfirm (ic_server_node_id cfg) (ic_name cfg)"

inductive conn_step ::
  "invite_cfg \<Rightarrow> string \<Rightarrow> invite_shared \<Rightarrow> conn_pc \<Rightarrow> invite_shared \<Rightarrow> conn_pc \<Rightarrow> bool" for cfg r where
  bi_ok: "conn_step cfg r sh PcAcceptBi sh PcVersion"
| bi_failed: "conn_step cfg r sh PcAcceptBi sh PcRelease"
| version: "version_ok res \<Longrightarrow> conn_step cfg r sh PcVersion sh PcHello"
| version_bad: "\<not> version_ok res \<Longrightarrow>
    conn_step cfg r sh PcVersion (sh\<lparr>sh_delay := rd_escalate (sh_delay sh)\<rparr>) PcRelease"
| hello: "hello_ok res \<Longrightarrow> conn_step cfg r sh PcHello sh PcName"
| hello_bad: "\<not> hello_ok res \<Longrightarrow>
    conn_step cfg r sh PcHello (sh\<lparr>sh_delay := rd_escalate (sh_delay sh)\<rparr>) PcRelease"
| name_taken: "\<not> is_name_free (sh_state sh) (ic_name cfg) \<Longrightarrow>
    conn_step cfg r sh PcName (observe [ObsSent r (PairDeny NameTaken)] sh) (PcAck AckEscalate)"
| name_free: "is_name_free (sh_state sh) (ic_name cfg) \<Longrightarrow> conn_step cfg r sh PcName sh PcSendWait"
| wait_failed: "conn_step cfg r sh PcSendWait sh PcRelease"
| wait_sent: "conn_step cfg r sh PcSendWait
    (observe [ObsNotify (PairRequested (ic_name cfg) r), ObsPairRequest r, ObsSent r PairWait] sh)
    (PcSelect False (sh_clock sh + PROMPT_TIMEOUT))"
| woken_accept: "sh_decision sh = Some True \<Longrightarrow> conn_step cfg r sh (PcSelect True t) sh PcRecord"
| woken_reject: "sh_decision sh = Some False \<Longrightarrow>
    conn_step cfg r sh (PcSelect True t) sh (PcDeny AdminDenied)"
| woken_idle: "sh_decision sh = None \<Longrightarrow>
    conn_step cfg r sh (PcSelect True t) sh (PcSelect False (sh_clock sh + PROMPT_TIMEOUT))"
| client_gone: "conn_step cfg r sh (PcSelect w t) sh PcRelease"
| prompt_timeout: "t \<le> sh_clock sh \<Longrightarrow> conn_step cfg r sh (PcSelect w t) sh (PcDeny Expired)"
| deadline: "ic_deadline cfg \<le> sh_clock sh \<Longrightarrow> conn_step cfg r sh (PcSelect w t) sh (PcDeny Expired)"
| denied: "conn_step cfg r sh (PcDeny reason) (observe [ObsSent r (PairDeny reason)] sh)
    (PcAck (if reason = AdminDenied then AckEscalate else AckNothing))"
| record_ok: "\<not> sh_peer_recorded sh \<Longrightarrow>
    add_peer io (new_peer cfg r (io_now io)) (sh_state sh) = (Inr (), st') \<Longrightarrow>
    conn_step cfg r sh PcRecord
      (observe [ObsSent r (confirm cfg), ObsNotify (PeerRegistered (ic_name cfg) r), ObsRegistered r]
         (sh\<lparr>sh_state := st', sh_peer_recorded := True, sh_delay := rd_reset (sh_delay sh)\<rparr>))
      (PcAck (AckOutcome (OutPaired r)))"
| record_failed: "\<not> sh_peer_recorded sh \<Longrightarrow>
    add_peer io (new_peer cfg r (io_now io)) (sh_state sh) = (Inl e, st') \<Longrightarrow>
    conn_step cfg r sh PcRecord
      (observe [ObsSent r (PairDeny ServerError)] (sh\<lparr>sh_state := st'\<rparr>)) (PcAck (AckOutcome OutRejected))"
| record_again: "sh_peer_recorded sh \<Longrightarrow>
    conn_step cfg r sh PcRecord (observe [ObsSent r (PairDeny Busy)] sh) (PcAck AckNothing)"
| ack_nothing: "conn_step cfg r sh (PcAck AckNothing) sh PcRelease"
| ack_escalate: "conn_step cfg r sh (PcAck AckEscalate) (sh\<lparr>sh_delay := rd_escalate (sh_delay sh)\<rparr>) PcRelease"
| ack_outcome: "conn_step cfg r sh (PcAck (AckOutcome out)) (sh\<lparr>sh_outcomes := sh_outcomes sh @ [out]\<rparr>) PcRelease"
| release: "conn_step cfg r sh PcRelease (sh\<lparr>sh_pair_busy := False\<rparr>) PcEnd"
| refuse: "conn_step cfg r sh RefAcceptBi (observe [ObsSent r (PairDeny Busy)] sh) RefAck"
| refuse_failed: "conn_step cfg r sh RefAcceptBi sh PcEnd"
| refuse_acked: "conn_step cfg r sh RefAck sh PcEnd"

inductive_cases conn_stepE: "conn_step cfg r sh pc sh' pc'"

section \<open>The serve loop\<close>

fun result_of :: "outcome \<Rightarrow> invite_result" where
  "result_of (OutPaired n) = Paired n"
| "result_of OutRejected = Rejected"
| "result_of OutExpired = InvExpired"
| "result_of OutCancelled = InvExpired"

fun finish_obs :: "invite_cfg \<Rightarrow> outcome \<Rightarrow> obs list" where
  "finish_obs cfg OutExpired =
     [ObsResult InvExpired, ObsNotify (InviteExpiredN (ic_invite_id cfg)), ObsExpiredEvent]"
| "finish_obs cfg out = [ObsResult (result_of out)]"

text \<open>The select statement is biased: an arm is taken only if no arm above it is ready.\<close>

inductive serve_step :: "invite_cfg \<Rightarrow> invite_machine \<Rightarrow> invite_machine \<Rightarrow> bool" for cfg where
  outcome: "serve_step cfg \<lparr>im_shared = sh\<lparr>sh_outcomes := out # os\<rparr>, im_serve = SvSelect, im_conns = cs\<rparr>
    \<lparr>im_shared = sh\<lparr>sh_outcomes := os\<rparr>, im_serve = SvClosing out, im_conns = cs\<rparr>"
| decide: "sh_outcomes sh = [] \<Longrightarrow> sh_cmds sh = accept # cmds \<Longrightarrow>
    serve_step cfg \<lparr>im_shared = sh, im_serve = SvSelect, im_conns = cs\<rparr>
      \<lparr>im_shared = observe [ObsDecided accept] (sh\<lparr>sh_cmds := cmds, sh_decision := Some accept\<rparr>),
       im_serve = (if accept then SvSelect else SvClosing OutRejected), im_conns = wake_all cs\<rparr>"
| expire: "sh_outcomes sh = [] \<Longrightarrow> sh_cmds sh = [] \<Longrightarrow> ic_deadline cfg \<le> sh_clock sh \<Longrightarrow>
    serve_step cfg \<lparr>im_shared = sh, im_serve = SvSelect, im_conns = cs\<rparr>
      \<lparr>im_shared = sh, im_serve = SvClosing OutExpired, im_conns = cs\<rparr>"
| incoming: "sh_outcomes sh = [] \<Longrightarrow> sh_cmds sh = [] \<Longrightarrow> sh_clock sh < ic_deadline cfg \<Longrightarrow>
    serve_step cfg \<lparr>im_shared = sh, im_serve = SvSelect, im_conns = cs\<rparr>
      \<lparr>im_shared = sh, im_serve = SvSleep (sh_clock sh + rd_delay (sh_delay sh)) r, im_conns = cs\<rparr>"
| endpoint_gone: "sh_outcomes sh = [] \<Longrightarrow> sh_cmds sh = [] \<Longrightarrow> sh_clock sh < ic_deadline cfg \<Longrightarrow>
    serve_step cfg \<lparr>im_shared = sh, im_serve = SvSelect, im_conns = cs\<rparr>
      \<lparr>im_shared = sh, im_serve = SvClosing OutCancelled, im_conns = cs\<rparr>"
| slept: "t \<le> sh_clock sh \<Longrightarrow> sh_clock sh < ic_deadline cfg \<Longrightarrow>
    serve_step cfg \<lparr>im_shared = sh, im_serve = SvSleep t r, im_conns = cs\<rparr>
      \<lparr>im_shared = sh, im_serve = SvConnecting r, im_conns = cs\<rparr>"
| slept_late: "t \<le> sh_clock sh \<Longrightarrow> ic_deadline cfg \<le> sh_clock sh \<Longrightarrow>
    serve_step cfg \<lparr>im_shared = sh, im_serve = SvSleep t r, im_conns = cs\<rparr>
      \<lparr>im_shared = sh, im_serve = SvClosing OutExpired, im_conns = cs\<rparr>"
| connect_failed: "serve_step cfg \<lparr>im_shared = sh, im_serve = SvConnecting r, im_conns = cs\<rparr>
    \<lparr>im_shared = sh\<lparr>sh_delay := rd_escalate (sh_delay sh)\<rparr>, im_serve = SvSelect, im_conns = cs\<rparr>"
| claim: "\<not> sh_pair_busy sh \<Longrightarrow>
    serve_step cfg \<lparr>im_shared = sh, im_serve = SvConnecting r, im_conns = cs\<rparr>
      \<lparr>im_shared = sh\<lparr>sh_delay := rd_reset (sh_delay sh), sh_pair_busy := True\<rparr>, im_serve = SvSelect,
       im_conns = cs @ [(r, PcAcceptBi)]\<rparr>"
| refuse_busy: "sh_pair_busy sh \<Longrightarrow>
    serve_step cfg \<lparr>im_shared = sh, im_serve = SvConnecting r, im_conns = cs\<rparr>
      \<lparr>im_shared = sh\<lparr>sh_delay := rd_reset (sh_delay sh)\<rparr>, im_serve = SvSelect,
       im_conns = cs @ [(r, RefAcceptBi)]\<rparr>"
| close_flush: "out = OutRejected \<or> out = OutExpired \<Longrightarrow>
    serve_step cfg \<lparr>im_shared = sh, im_serve = SvClosing out, im_conns = cs\<rparr>
      \<lparr>im_shared = sh, im_serve = SvFlush out (sh_clock sh + 300), im_conns = wake_all cs\<rparr>"
| close_now: "out \<noteq> OutRejected \<Longrightarrow> out \<noteq> OutExpired \<Longrightarrow>
    serve_step cfg \<lparr>im_shared = sh, im_serve = SvClosing out, im_conns = cs\<rparr>
      \<lparr>im_shared = sh, im_serve = SvFinish out, im_conns = cs\<rparr>"
| flushed: "t \<le> sh_clock sh \<Longrightarrow>
    serve_step cfg \<lparr>im_shared = sh, im_serve = SvFlush out t, im_conns = cs\<rparr>
      \<lparr>im_shared = sh, im_serve = SvFinish out, im_conns = cs\<rparr>"
| finish: "serve_step cfg \<lparr>im_shared = sh, im_serve = SvFinish out, im_conns = cs\<rparr>
    \<lparr>im_shared = observe (finish_obs cfg out) (sh\<lparr>sh_listed := False\<rparr>), im_serve = SvDone, im_conns = cs\<rparr>"

inductive_cases serve_stepE: "serve_step cfg m m'"

section \<open>The machine\<close>

text \<open>
  Any task goes next, time passes, the admin sends a decision while the invite is listed, or another
  part of the daemon changes the authorisation state.
\<close>

inductive invite_step :: "invite_cfg \<Rightarrow> invite_machine \<Rightarrow> invite_machine \<Rightarrow> bool" for cfg where
  serve: "serve_step cfg m m' \<Longrightarrow> invite_step cfg m m'"
| conn: "i < length (im_conns m) \<Longrightarrow> im_conns m ! i = (r, pc) \<Longrightarrow>
    conn_step cfg r (im_shared m) pc sh' pc' \<Longrightarrow>
    invite_step cfg m (m\<lparr>im_shared := sh', im_conns := (im_conns m)[i := (r, pc')]\<rparr>)"
| tick: "sh_clock (im_shared m) \<le> now \<Longrightarrow>
    invite_step cfg m (m\<lparr>im_shared := (im_shared m)\<lparr>sh_clock := now\<rparr>\<rparr>)"
| command: "sh_listed (im_shared m) \<Longrightarrow>
    invite_step cfg m (m\<lparr>im_shared := (im_shared m)\<lparr>sh_cmds := sh_cmds (im_shared m) @ [accept]\<rparr>\<rparr>)"
| environment: "invite_step cfg m
    (m\<lparr>im_shared := (im_shared m)\<lparr>sh_state := state_step io op (sh_state (im_shared m))\<rparr>\<rparr>)"

text \<open>An invite starts with its endpoint up, the code shown and nobody connected.\<close>

definition invite_start :: "daemon_state \<Rightarrow> instant \<Rightarrow> code_event_data \<Rightarrow> invite_machine" where
  "invite_start st now code =
     \<lparr>im_shared = \<lparr>sh_state = st, sh_decision = None, sh_cmds = [], sh_outcomes = [], sh_delay = rd_new,
        sh_peer_recorded = False, sh_pair_busy = False, sh_listed = True, sh_clock = now,
        sh_log = [ObsCode code]\<rparr>,
      im_serve = SvSelect, im_conns = []\<rparr>"

section \<open>Invariant of the machine\<close>

fun active :: "conn_pc \<Rightarrow> bool" where
  "active PcEnd = False"
| "active RefAcceptBi = False"
| "active RefAck = False"
| "active _ = True"

definition n_active :: "(string \<times> conn_pc) list \<Rightarrow> nat" where
  "n_active cs = length (filter (\<lambda>(r, pc). active pc) cs)"

definition slot_inv :: "invite_machine \<Rightarrow> bool" where
  "slot_inv m = (n_active (im_conns m) = (if sh_pair_busy (im_shared m) then 1 else 0))"

text \<open>What the observations of an invite look like: a node is registered after its request was
  announced and an accept was taken up, at most one is; a confirmation carries the daemon's id and
  the invite's name and goes to the registered node; the result comes once and names the registered
  node.\<close>

fun log_ok :: "invite_cfg \<Rightarrow> obs list \<Rightarrow> bool" where
  "log_ok cfg [] = True"
| "log_ok cfg (ObsRegistered n # old) =
     (ObsDecided True \<in> set old \<and> ObsPairRequest n \<in> set old \<and> (\<forall>k. ObsRegistered k \<notin> set old) \<and> log_ok cfg old)"
| "log_ok cfg (ObsSent n f # old) =
     ((\<forall>s nm. f = PairConfirm s nm \<longrightarrow> ObsRegistered n \<in> set old \<and> f = confirm cfg) \<and> log_ok cfg old)"
| "log_ok cfg (ObsResult x # old) =
     ((\<forall>n. x = Paired n \<longrightarrow> ObsRegistered n \<in> set old) \<and> (\<forall>y. ObsResult y \<notin> set old) \<and> log_ok cfg old)"
| "log_ok cfg (_ # old) = log_ok cfg old"

fun pc_ok :: "obs set \<Rightarrow> string \<Rightarrow> conn_pc \<Rightarrow> bool" where
  "pc_ok L r (PcSelect w t) = (ObsPairRequest r \<in> L)"
| "pc_ok L r PcRecord = (ObsPairRequest r \<in> L \<and> ObsDecided True \<in> L)"
| "pc_ok L r (PcAck (AckOutcome (OutPaired n))) = (ObsRegistered n \<in> L)"
| "pc_ok L r _ = True"

fun serve_ok :: "obs set \<Rightarrow> serve_pc \<Rightarrow> bool" where
  "serve_ok L (SvClosing (OutPaired n)) = (ObsRegistered n \<in> L)"
| "serve_ok L (SvFlush (OutPaired n) t) = (ObsRegistered n \<in> L)"
| "serve_ok L (SvFinish (OutPaired n)) = (ObsRegistered n \<in> L)"
| "serve_ok L _ = True"

definition shared_ok :: "invite_cfg \<Rightarrow> invite_shared \<Rightarrow> bool" where
  "shared_ok cfg sh =
     (log_ok cfg (sh_log sh)
      \<and> (sh_decision sh = Some True \<longrightarrow> ObsDecided True \<in> set (sh_log sh))
      \<and> (sh_peer_recorded sh \<longleftrightarrow> (\<exists>n. ObsRegistered n \<in> set (sh_log sh)))
      \<and> (\<forall>n. OutPaired n \<in> set (sh_outcomes sh) \<longrightarrow> ObsRegistered n \<in> set (sh_log sh)))"

definition invite_inv :: "invite_cfg \<Rightarrow> invite_machine \<Rightarrow> bool" where
  "invite_inv cfg m =
     (slot_inv m \<and> shared_ok cfg (im_shared m)
      \<and> (\<forall>(r, pc) \<in> set (im_conns m). pc_ok (set (sh_log (im_shared m))) r pc)
      \<and> serve_ok (set (sh_log (im_shared m))) (im_serve m)
      \<and> (sh_listed (im_shared m) \<longleftrightarrow> im_serve m \<noteq> SvDone)
      \<and> (sh_listed (im_shared m) \<longleftrightarrow> (\<forall>x. ObsResult x \<notin> set (sh_log (im_shared m)))))"

subsection \<open>Steps of a connection\<close>

lemma pc_ok_mono: "pc_ok L r pc \<Longrightarrow> L \<subseteq> L' \<Longrightarrow> pc_ok L' r pc"
  by (cases "(L, r, pc)" rule: pc_ok.cases) auto

lemma serve_ok_mono: "serve_ok L sv \<Longrightarrow> L \<subseteq> L' \<Longrightarrow> serve_ok L' sv"
  by (cases "(L, sv)" rule: serve_ok.cases) auto

lemma conn_step_slot:
  "conn_step cfg r sh pc sh' pc' \<Longrightarrow>
     active pc = active pc' \<and> sh_pair_busy sh' = sh_pair_busy sh
     \<or> active pc \<and> \<not> active pc' \<and> \<not> sh_pair_busy sh'"
  by (cases rule: conn_step.cases) auto

lemma conn_step_log:
  "conn_step cfg r sh pc sh' pc' \<Longrightarrow>
     set (sh_log sh) \<subseteq> set (sh_log sh') \<and> sh_listed sh' = sh_listed sh
     \<and> (\<forall>x. ObsResult x \<in> set (sh_log sh') \<longleftrightarrow> ObsResult x \<in> set (sh_log sh))"
  by (cases rule: conn_step.cases) auto

lemma conn_step_ok:
  assumes "conn_step cfg r sh pc sh' pc'" and "shared_ok cfg sh" and "pc_ok (set (sh_log sh)) r pc"
  shows "shared_ok cfg sh' \<and> pc_ok (set (sh_log sh')) r pc'"
  using assms by (cases rule: conn_step.cases) (auto simp: shared_ok_def)

lemma length_filter_update:
  assumes "i < length xs"
  shows "length (filter P (xs[i := y])) + (if P (xs ! i) then 1 else 0) = length (filter P xs) + (if P y then 1 else 0)"
  using assms
proof (induction xs arbitrary: i)
  case (Cons x xs)
  then show ?case by (cases i) auto
qed simp

lemma slot_inv_conn:
  assumes "slot_inv m" and "i < length (im_conns m)" and "im_conns m ! i = (r, pc)"
    and "conn_step cfg r (im_shared m) pc sh' pc'"
  shows "slot_inv (m\<lparr>im_shared := sh', im_conns := (im_conns m)[i := (r, pc')]\<rparr>)"
  using length_filter_update [OF assms(2), of "\<lambda>(r, pc). active pc" "(r, pc')"] assms(1,3)
    conn_step_slot [OF assms(4)]
  by (auto simp: slot_inv_def n_active_def split: if_splits)

lemma invite_inv_conn:
  assumes "invite_inv cfg m" and i: "i < length (im_conns m)" "im_conns m ! i = (r, pc)"
    and step: "conn_step cfg r (im_shared m) pc sh' pc'"
  shows "invite_inv cfg (m\<lparr>im_shared := sh', im_conns := (im_conns m)[i := (r, pc')]\<rparr>)"
proof -
  let ?L = "set (sh_log (im_shared m))" and ?L' = "set (sh_log sh')"
  note log = conn_step_log [OF step]
  have "pc_ok ?L r pc" using assms(1) nth_mem [OF i(1)] i(2) by (auto simp: invite_inv_def)
  with conn_step_ok [OF step] assms(1) have ok: "shared_ok cfg sh' \<and> pc_ok ?L' r pc'"
    by (simp add: invite_inv_def)
  have "pc_ok ?L' q c" if "(q, c) \<in> set ((im_conns m)[i := (r, pc')])" for q c
  proof (cases "(q, c) = (r, pc')")
    case False
    with that set_update_subset_insert have "(q, c) \<in> set (im_conns m)" by fast
    with assms(1) log show ?thesis by (auto simp: invite_inv_def intro: pc_ok_mono)
  qed (use ok in simp)
  then show ?thesis
    using assms(1) ok log slot_inv_conn [OF _ i step] serve_ok_mono [of ?L "im_serve m" ?L']
    by (auto simp: invite_inv_def)
qed

subsection \<open>Steps of the serve loop\<close>

lemma active_wake [simp]: "active (wake pc) = active pc"
  by (cases pc) auto

lemma pc_ok_wake [simp]: "pc_ok L r (wake pc) = pc_ok L r pc"
  by (cases pc) auto

lemma n_active_wake [simp]: "n_active (wake_all cs) = n_active cs"
  by (induction cs) (auto simp: wake_all_def n_active_def)

lemma n_active_snoc [simp]: "n_active (cs @ [(r, pc)]) = n_active cs + (if active pc then 1 else 0)"
  by (simp add: n_active_def)

lemma wake_all_ok: "(\<forall>(r, pc) \<in> set (wake_all cs). pc_ok L r pc) \<longleftrightarrow> (\<forall>(r, pc) \<in> set cs. pc_ok L r pc)"
  by (auto simp: wake_all_def)

lemma finish_obs_set:
  "set (sh_log sh) \<subseteq> set (finish_obs cfg out @ sh_log sh)"
  "ObsRegistered n \<in> set (finish_obs cfg out @ sh_log sh) \<longleftrightarrow> ObsRegistered n \<in> set (sh_log sh)"
  "\<exists>x. ObsResult x \<in> set (finish_obs cfg out @ sh_log sh)"
  by (cases out; auto)+

lemma finish_log_ok:
  assumes "shared_ok cfg sh" and "serve_ok (set (sh_log sh)) (SvFinish out)"
    and "\<forall>x. ObsResult x \<notin> set (sh_log sh)"
  shows "log_ok cfg (finish_obs cfg out @ sh_log sh)"
  using assms by (cases out) (auto simp: shared_ok_def)

lemma slot_inv_serve: "serve_step cfg m m' \<Longrightarrow> slot_inv m \<Longrightarrow> slot_inv m'"
  by (cases rule: serve_step.cases) (auto simp: slot_inv_def)

lemma invite_inv_finish:
  assumes "invite_inv cfg \<lparr>im_shared = sh, im_serve = SvFinish out, im_conns = cs\<rparr>"
  shows "invite_inv cfg \<lparr>im_shared = observe (finish_obs cfg out) (sh\<lparr>sh_listed := False\<rparr>), im_serve = SvDone, im_conns = cs\<rparr>"
proof -
  let ?L = "set (finish_obs cfg out @ sh_log sh)"
  have inv: "shared_ok cfg sh" "serve_ok (set (sh_log sh)) (SvFinish out)" "\<forall>x. ObsResult x \<notin> set (sh_log sh)"
    "slot_inv \<lparr>im_shared = sh, im_serve = SvFinish out, im_conns = cs\<rparr>"
    "\<forall>(r, pc) \<in> set cs. pc_ok (set (sh_log sh)) r pc"
    using assms by (auto simp: invite_inv_def)
  have "\<forall>(r, pc) \<in> set cs. pc_ok ?L r pc"
    using inv(5) pc_ok_mono [OF _ finish_obs_set(1)] by fast
  moreover have "log_ok cfg (finish_obs cfg out @ sh_log sh)"
    by (rule finish_log_ok [OF inv(1-3)])
  moreover have "ObsDecided True \<in> ?L" if "sh_decision sh = Some True"
    using that inv(1) by (auto simp: shared_ok_def)
  ultimately show ?thesis
    using inv(1,4) finish_obs_set(2) [of _ cfg out sh] finish_obs_set(3) [of cfg out sh]
    by (simp add: invite_inv_def shared_ok_def slot_inv_def del: set_append)
qed

lemma invite_inv_serve:
  assumes "serve_step cfg m m'" and "invite_inv cfg m"
  shows "invite_inv cfg m'"
  using assms(1)
proof (cases rule: serve_step.cases)
  case (finish sh out cs)
  with assms(2) invite_inv_finish show ?thesis by simp
next
  case (decide sh accept cmds cs)
  have "\<forall>(r, pc) \<in> set cs. pc_ok (insert (ObsDecided accept) (set (sh_log sh))) r pc"
    using assms(2) decide by (fastforce simp: invite_inv_def intro: pc_ok_mono)
  with assms(2) decide slot_inv_serve [OF assms(1)] show ?thesis
    by (auto simp: invite_inv_def wake_all_ok shared_ok_def)
next
  case (outcome out os sh cs)
  with assms(2) slot_inv_serve [OF assms(1)] show ?thesis
    by (cases out) (auto simp: invite_inv_def shared_ok_def)
next
  case (flushed t sh out cs)
  with assms(2) slot_inv_serve [OF assms(1)] show ?thesis
    by (cases out) (auto simp: invite_inv_def)
next
  case (close_now out sh cs)
  with assms(2) slot_inv_serve [OF assms(1)] show ?thesis
    by (cases out) (auto simp: invite_inv_def)
qed (use assms(2) slot_inv_serve [OF assms(1)] in \<open>auto simp: invite_inv_def wake_all_ok shared_ok_def\<close>)

lemma invite_inv_start: "invite_inv cfg (invite_start st now code)"
  by (simp add: invite_inv_def invite_start_def slot_inv_def shared_ok_def n_active_def)

lemma invite_inv_step:
  assumes "invite_step cfg m m'" and "invite_inv cfg m"
  shows "invite_inv cfg m'"
  using assms(1)
proof (cases rule: invite_step.cases)
  case serve
  then show ?thesis using assms(2) by (rule invite_inv_serve)
next
  case (conn i r pc sh' pc')
  with assms(2) invite_inv_conn show ?thesis by simp
qed (use assms(2) in \<open>auto simp: invite_inv_def slot_inv_def shared_ok_def\<close>)

interpretation invite: transition_system
  "\<lambda>m. \<exists>st now code. m = invite_start st now code" "invite_step cfg" "invite_inv cfg" for cfg
  by unfold_locales (auto simp: invite_inv_start intro: invite_inv_step)

section \<open>Runs\<close>

text \<open>Stretches of runs in which one task goes on while the others rest.\<close>

abbreviation mach :: "invite_shared \<Rightarrow> serve_pc \<Rightarrow> (string \<times> conn_pc) list \<Rightarrow> invite_machine" where
  "mach sh sv cs \<equiv> \<lparr>im_shared = sh, im_serve = sv, im_conns = cs\<rparr>"

lemma last_conn_step:
  assumes "conn_step cfg r sh pc sh' pc'"
  shows "invite_step cfg (mach sh sv (cs @ [(r, pc)])) (mach sh' sv (cs @ [(r, pc')]))"
  using invite_step.conn [of "length cs" "mach sh sv (cs @ [(r, pc)])" r pc cfg sh' pc'] assms by simp

lemma serve_steps: "serve_step cfg m m' \<Longrightarrow> reaches (invite_step cfg) m m'"
  by (intro reaches_step invite_step.serve)

lemma tick_reaches: "sh_clock sh \<le> now \<Longrightarrow> reaches (invite_step cfg) (mach sh sv cs) (mach (sh\<lparr>sh_clock := now\<rparr>) sv cs)"
  using invite_step.tick [of "mach sh sv cs" now cfg] by (intro reaches_step) simp

text \<open>A client connects.\<close>

definition connected :: "invite_shared \<Rightarrow> invite_shared" where
  "connected sh = sh\<lparr>sh_clock := sh_clock sh + rd_delay (sh_delay sh), sh_delay := rd_reset (sh_delay sh),
     sh_pair_busy := True\<rparr>"

lemma connect_reaches:
  assumes "sh_outcomes sh = []" and "sh_cmds sh = []" and "\<not> sh_pair_busy sh"
    and "sh_clock sh + rd_delay (sh_delay sh) < ic_deadline cfg"
  shows "reaches (invite_step cfg) (mach sh SvSelect cs) (mach (connected sh) SvSelect (cs @ [(r, PcAcceptBi)]))"
proof -
  let ?t = "sh_clock sh + rd_delay (sh_delay sh)"
  let ?sh = "sh\<lparr>sh_clock := ?t\<rparr>"
  have "reaches (invite_step cfg) (mach sh SvSelect cs) (mach sh (SvSleep ?t r) cs)"
    using assms by (intro serve_steps serve_step.incoming) auto
  moreover have "reaches (invite_step cfg) (mach sh (SvSleep ?t r) cs) (mach ?sh (SvSleep ?t r) cs)"
    by (rule tick_reaches) simp
  moreover have "reaches (invite_step cfg) (mach ?sh (SvSleep ?t r) cs) (mach ?sh (SvConnecting r) cs)"
    using assms by (intro serve_steps serve_step.slept) auto
  moreover have "reaches (invite_step cfg) (mach ?sh (SvConnecting r) cs)
      (mach (connected sh) SvSelect (cs @ [(r, PcAcceptBi)]))"
    using serve_step.claim [of ?sh cfg r cs] assms by (intro serve_steps) (simp add: connected_def)
  ultimately show ?thesis by (blast intro: reaches_trans)
qed

text \<open>It shakes hands and waits for the admin.\<close>

definition announced :: "invite_cfg \<Rightarrow> string \<Rightarrow> invite_shared \<Rightarrow> invite_shared" where
  "announced cfg r sh =
     observe [ObsNotify (PairRequested (ic_name cfg) r), ObsPairRequest r, ObsSent r PairWait] sh"

lemma handshake_reaches:
  assumes "is_name_free (sh_state sh) (ic_name cfg)"
  shows "reaches (invite_step cfg) (mach sh sv (cs @ [(r, PcAcceptBi)]))
     (mach (announced cfg r sh) sv (cs @ [(r, PcSelect False (sh_clock sh + PROMPT_TIMEOUT))]))"
proof -
  have v: "version_ok (Inr (Version CODE_VERSION))" and h: "hello_ok (Inr (PairHello []))"
    by (simp_all add: version_ok_def hello_ok_def)
  note steps = conn_step.bi_ok conn_step.version [OF v] conn_step.hello [OF h]
    conn_step.name_free [OF assms] conn_step.wait_sent
  show ?thesis
    unfolding announced_def
    by (rule reaches.move [OF reaches.move [OF reaches.move [OF reaches.move [OF reaches.move [OF reaches.stay]]]]])
       (rule last_conn_step, rule steps)+
qed

text \<open>The admin's decision arrives and is taken up.\<close>

definition decided :: "bool \<Rightarrow> invite_shared \<Rightarrow> invite_shared" where
  "decided accept sh = observe [ObsDecided accept] (sh\<lparr>sh_cmds := [], sh_decision := Some accept\<rparr>)"

lemma accept_reaches:
  assumes "sh_outcomes sh = []" and "sh_cmds sh = []" and "sh_listed sh"
  shows "reaches (invite_step cfg) (mach sh SvSelect cs) (mach (decided True sh) SvSelect (wake_all cs))"
proof -
  have "invite_step cfg (mach sh SvSelect cs) (mach (sh\<lparr>sh_cmds := [True]\<rparr>) SvSelect cs)"
    using invite_step.command [of "mach sh SvSelect cs" cfg True] assms by simp
  moreover have "invite_step cfg (mach (sh\<lparr>sh_cmds := [True]\<rparr>) SvSelect cs)
      (mach (decided True sh) SvSelect (wake_all cs))"
    using serve_step.decide [of "sh\<lparr>sh_cmds := [True]\<rparr>" True "[]" cfg cs] assms
    by (intro invite_step.serve) (simp add: decided_def)
  ultimately show ?thesis by (blast intro: reaches.intros)
qed

text \<open>A woken client is registered and acknowledges.\<close>

definition registered :: "invite_cfg \<Rightarrow> string \<Rightarrow> daemon_state \<Rightarrow> invite_shared \<Rightarrow> invite_shared" where
  "registered cfg r st' sh =
     observe [ObsSent r (confirm cfg), ObsNotify (PeerRegistered (ic_name cfg) r), ObsRegistered r]
       (sh\<lparr>sh_state := st', sh_peer_recorded := True, sh_delay := rd_reset (sh_delay sh)\<rparr>)"

lemma register_reaches:
  assumes "sh_decision sh = Some True" and "\<not> sh_peer_recorded sh"
    and "add_peer io (new_peer cfg r (io_now io)) (sh_state sh) = (Inr (), st')"
  shows "reaches (invite_step cfg) (mach sh sv (cs @ [(r, PcSelect True t)]))
     (mach (registered cfg r st' sh) sv (cs @ [(r, PcAck (AckOutcome (OutPaired r)))]))"
  unfolding registered_def
  by (rule reaches.move [OF reaches.move [OF reaches.stay]], rule last_conn_step, rule conn_step.woken_accept [OF assms(1)],
      rule last_conn_step, rule conn_step.record_ok [OF assms(2,3)])

lemma paired_reaches:
  assumes "sh_outcomes sh = []"
  shows "\<exists>sh' cs'. reaches (invite_step cfg) (mach sh SvSelect (cs @ [(r, PcAck (AckOutcome (OutPaired r)))]))
      (mach sh' SvDone cs') \<and> sh_log sh' = ObsResult (Paired r) # sh_log sh \<and> sh_state sh' = sh_state sh"
proof -
  let ?o = "OutPaired r"
  have "reaches (invite_step cfg) (mach sh SvSelect (cs @ [(r, PcAck (AckOutcome ?o))]))
      (mach (sh\<lparr>sh_outcomes := [?o]\<rparr>) SvSelect (cs @ [(r, PcRelease)]))"
    using last_conn_step [OF conn_step.ack_outcome [of cfg r sh ?o]] assms by (intro reaches_step) simp
  moreover have "reaches (invite_step cfg) (mach (sh\<lparr>sh_outcomes := [?o]\<rparr>) SvSelect (cs @ [(r, PcRelease)]))
      (mach (sh\<lparr>sh_outcomes := []\<rparr>) (SvClosing ?o) (cs @ [(r, PcRelease)]))"
    by (intro serve_steps serve_step.outcome)
  moreover have "reaches (invite_step cfg) (mach (sh\<lparr>sh_outcomes := []\<rparr>) (SvClosing ?o) (cs @ [(r, PcRelease)]))
      (mach (sh\<lparr>sh_outcomes := []\<rparr>) (SvFinish ?o) (cs @ [(r, PcRelease)]))"
    by (intro serve_steps serve_step.close_now) simp_all
  moreover have "reaches (invite_step cfg) (mach (sh\<lparr>sh_outcomes := []\<rparr>) (SvFinish ?o) (cs @ [(r, PcRelease)]))
      (mach (observe (finish_obs cfg ?o) (sh\<lparr>sh_outcomes := [], sh_listed := False\<rparr>)) SvDone (cs @ [(r, PcRelease)]))"
    using serve_step.finish [of cfg "sh\<lparr>sh_outcomes := []\<rparr>" ?o] by (intro serve_steps) simp
  ultimately have "reaches (invite_step cfg) (mach sh SvSelect (cs @ [(r, PcAck (AckOutcome ?o))]))
      (mach (observe (finish_obs cfg ?o) (sh\<lparr>sh_outcomes := [], sh_listed := False\<rparr>)) SvDone (cs @ [(r, PcRelease)]))"
    by (blast intro: reaches_trans)
  then show ?thesis by (intro exI conjI, assumption) simp_all
qed

text \<open>A waiting client goes away; the deadline passes and the waiting clients are woken.\<close>

lemma vanish_reaches:
  "reaches (invite_step cfg) (mach sh sv (cs @ [(r, PcSelect w t)]))
     (mach (sh\<lparr>sh_pair_busy := False\<rparr>) sv (cs @ [(r, PcEnd)]))"
  by (rule reaches.move [OF reaches.move [OF reaches.stay]], rule last_conn_step, rule conn_step.client_gone,
      rule last_conn_step, rule conn_step.release)

definition expired_at :: "invite_cfg \<Rightarrow> invite_shared \<Rightarrow> invite_shared" where
  "expired_at cfg sh = sh\<lparr>sh_clock := ic_deadline cfg\<rparr>"

lemma expire_reaches:
  assumes "sh_outcomes sh = []" and "sh_cmds sh = []" and "sh_clock sh \<le> ic_deadline cfg"
  shows "reaches (invite_step cfg) (mach sh SvSelect cs)
    (mach (expired_at cfg sh) (SvFlush OutExpired (ic_deadline cfg + 300)) (wake_all cs))"
proof -
  have "reaches (invite_step cfg) (mach sh SvSelect cs) (mach (expired_at cfg sh) SvSelect cs)"
    unfolding expired_at_def using assms(3) by (rule tick_reaches)
  moreover have "reaches (invite_step cfg) (mach (expired_at cfg sh) SvSelect cs)
      (mach (expired_at cfg sh) (SvClosing OutExpired) cs)"
    using assms by (intro serve_steps serve_step.expire) (simp_all add: expired_at_def)
  moreover have "reaches (invite_step cfg) (mach (expired_at cfg sh) (SvClosing OutExpired) cs)
      (mach (expired_at cfg sh) (SvFlush OutExpired (ic_deadline cfg + 300)) (wake_all cs))"
    using serve_step.close_flush [of OutExpired cfg "expired_at cfg sh" cs]
    by (intro serve_steps) (simp add: expired_at_def)
  ultimately show ?thesis by (blast intro: reaches_trans)
qed

text \<open>The flush runs out, and the serve loop reports its outcome and ends.\<close>

definition reported :: "invite_cfg \<Rightarrow> outcome \<Rightarrow> instant \<Rightarrow> invite_shared \<Rightarrow> invite_shared" where
  "reported cfg out t sh = observe (finish_obs cfg out) (sh\<lparr>sh_clock := t, sh_listed := False\<rparr>)"

lemma flush_reaches:
  assumes "sh_clock sh \<le> t"
  shows "reaches (invite_step cfg) (mach sh (SvFlush out t) cs) (mach (reported cfg out t sh) SvDone cs)"
proof -
  let ?sh = "sh\<lparr>sh_clock := t\<rparr>"
  have "reaches (invite_step cfg) (mach sh (SvFlush out t) cs) (mach ?sh (SvFlush out t) cs)"
    using assms by (rule tick_reaches)
  also have "reaches (invite_step cfg) (mach ?sh (SvFlush out t) cs) (mach ?sh (SvFinish out) cs)"
    by (intro serve_steps serve_step.flushed) simp
  also have "reaches (invite_step cfg) (mach ?sh (SvFinish out) cs) (mach (reported cfg out t sh) SvDone cs)"
    using serve_step.finish [of cfg ?sh out cs] by (intro serve_steps) (simp add: reported_def)
  finally show ?thesis .
qed

lemmas run_defs = reported_def expired_at_def connected_def announced_def decided_def registered_def invite_start_def

lemma log_ok_suffix: "log_ok cfg (xs @ ys) \<Longrightarrow> log_ok cfg ys"
proof (induction xs)
  case (Cons x xs)
  then show ?case by (cases x) auto
qed simp

lemma log_ok_registered_once:
  "log_ok cfg (xs @ ObsRegistered n # ys) \<Longrightarrow> ObsRegistered k \<notin> set xs \<and> ObsRegistered k \<notin> set ys"
proof (induction xs)
  case (Cons x xs)
  then show ?case by (cases x) auto
qed simp

lemma log_ok_result_once:
  "log_ok cfg (xs @ ObsResult a # ys) \<Longrightarrow> ObsResult b \<notin> set xs \<and> ObsResult b \<notin> set ys"
proof (induction xs)
  case (Cons x xs)
  then show ?case by (cases x) auto
qed simp

lemma log_ok_confirm:
  assumes "log_ok cfg log" and "ObsSent n (PairConfirm sid nm) \<in> set log"
  shows "sid = ic_server_node_id cfg \<and> nm = ic_name cfg \<and> ObsRegistered n \<in> set log"
proof -
  from assms(2) obtain later earlier where log: "log = later @ ObsSent n (PairConfirm sid nm) # earlier"
    by (meson split_list)
  with assms(1) have "log_ok cfg (ObsSent n (PairConfirm sid nm) # earlier)" using log_ok_suffix by metis
  with log show ?thesis by simp
qed

lemma log_ok_registered:
  assumes "log_ok cfg log" and "ObsRegistered n \<in> set log"
  shows "ObsDecided True \<in> set log \<and> ObsPairRequest n \<in> set log"
proof -
  from assms(2) obtain later earlier where log: "log = later @ ObsRegistered n # earlier"
    by (meson split_list)
  with assms(1) have "log_ok cfg (ObsRegistered n # earlier)" using log_ok_suffix by metis
  with log show ?thesis by simp
qed

lemma reachable_log_ok:
  "reaches (invite_step cfg) (invite_start st now code) m \<Longrightarrow> log_ok cfg (sh_log (im_shared m))"
  using invite.inv_reachable [of "invite_start st now code" cfg m]
  by (auto simp: invite_inv_def shared_ok_def)

section \<open>Properties of one invite\<close>

lemma pairing_reaches:
  assumes "now + 500 < ic_deadline cfg" and "is_name_free st (ic_name cfg)"
    and "add_peer io (new_peer cfg r (io_now io)) st = (Inr (), st')"
  shows "\<exists>m. reaches (invite_step cfg) (invite_start st now code) m \<and> im_serve m = SvDone
     \<and> sh_state (im_shared m) = st'
     \<and> sh_log (im_shared m) =
         [ObsResult (Paired r), ObsSent r (confirm cfg), ObsNotify (PeerRegistered (ic_name cfg) r), ObsRegistered r,
          ObsDecided True, ObsNotify (PairRequested (ic_name cfg) r), ObsPairRequest r, ObsSent r PairWait, ObsCode code]"
proof -
  let ?sh0 = "im_shared (invite_start st now code)"
  let ?sh1 = "connected ?sh0"
  let ?sh2 = "announced cfg r ?sh1"
  let ?sh3 = "decided True ?sh2"
  let ?sh4 = "registered cfg r st' ?sh3"
  let ?t = "sh_clock ?sh1 + PROMPT_TIMEOUT"
  have delay: "rd_delay rd_new = 500"
    by (simp add: rd_delay_def rd_new_def REJECT_DELAY_INITIAL_def)
  have c1: "reaches (invite_step cfg) (invite_start st now code) (mach ?sh1 SvSelect ([] @ [(r, PcAcceptBi)]))"
    using connect_reaches [of ?sh0 cfg "[]" r] assms(1) delay by (simp add: invite_start_def)
  have c2: "reaches (invite_step cfg) (mach ?sh1 SvSelect ([] @ [(r, PcAcceptBi)]))
      (mach ?sh2 SvSelect ([] @ [(r, PcSelect False ?t)]))"
    using assms(2) by (intro handshake_reaches) (simp add: run_defs)
  have c3: "reaches (invite_step cfg) (mach ?sh2 SvSelect ([] @ [(r, PcSelect False ?t)]))
      (mach ?sh3 SvSelect (wake_all ([] @ [(r, PcSelect False ?t)])))"
    by (rule accept_reaches) (simp_all add: run_defs)
  have c4: "reaches (invite_step cfg) (mach ?sh3 SvSelect ([] @ [(r, PcSelect True ?t)]))
      (mach ?sh4 SvSelect ([] @ [(r, PcAck (AckOutcome (OutPaired r)))]))"
    using assms(3) by (intro register_reaches) (simp_all add: run_defs)
  obtain sh' cs' where c5: "reaches (invite_step cfg)
      (mach ?sh4 SvSelect ([] @ [(r, PcAck (AckOutcome (OutPaired r)))])) (mach sh' SvDone cs')"
    and log: "sh_log sh' = ObsResult (Paired r) # sh_log ?sh4" and st: "sh_state sh' = sh_state ?sh4"
    using paired_reaches [of ?sh4 cfg "[]" r] by (auto simp: run_defs)
  have "wake_all ([] @ [(r, PcSelect False ?t)]) = [] @ [(r, PcSelect True ?t)]"
    by (simp add: wake_all_def)
  with c1 c2 c3 c4 c5 have "reaches (invite_step cfg) (invite_start st now code) (mach sh' SvDone cs')"
    by (metis reaches_chain)
  with log st show ?thesis
    by (intro exI [of _ "mach sh' SvDone cs'"]) (simp add: run_defs)
qed

text \<open>C12: pairing works: if a client that knows the code connects, the admin accepts and the state
  can be written, then the invite has a run in which the client is registered under the invite's
  name, receives the confirmation with the daemon's node id, and the admin gets the result.\<close>

theorem pairing_succeeds:
  assumes "now + 500 < ic_deadline cfg" and "is_name_free st (ic_name cfg)"
    and "add_peer io (new_peer cfg r (io_now io)) st = (Inr (), st')"
  shows "\<exists>m. reaches (invite_step cfg) (invite_start st now code) m \<and> im_serve m = SvDone
     \<and> sh_state (im_shared m) = st'
     \<and> sh_log (im_shared m) =
         [ObsResult (Paired r), ObsSent r (confirm cfg), ObsNotify (PeerRegistered (ic_name cfg) r), ObsRegistered r,
          ObsDecided True, ObsNotify (PairRequested (ic_name cfg) r), ObsPairRequest r, ObsSent r PairWait, ObsCode code]"
  using assms by (rule pairing_reaches)

definition witness_cfg :: invite_cfg where
  "witness_cfg = \<lparr>ic_invite_id = ''i'', ic_name = ''alice'', ic_deadline = 900000, ic_request_id = 1,
     ic_server_node_id = []\<rparr>"

definition witness_st :: daemon_state where
  "witness_st = \<lparr>st_path = ''p'', st_inner = persisted_default, st_file = None\<rparr>"

definition witness_io :: state_io where
  "witness_io = \<lparr>io_ser = (\<lambda>_. Inr ''x''), io_fs = FsOk, io_now = ''t''\<rparr>"

definition witness_code :: code_event_data where
  "witness_code = \<lparr>ce_invite_id = ''i'', ce_code = ''c'', ce_name = ''alice'', ce_ttl_secs = 900\<rparr>"

lemma witness_free: "is_name_free witness_st (ic_name witness_cfg)"
  by (simp add: is_name_free_def witness_st_def persisted_default_def)

lemma witness_add:
  "add_peer witness_io (new_peer witness_cfg r (io_now witness_io)) witness_st =
     (Inr (), snd (add_peer witness_io (new_peer witness_cfg r (io_now witness_io)) witness_st))"
  by (simp add: add_peer_def persist_locked_def witness_io_def witness_st_def persisted_default_def MAX_PEERS_def)

lemma witness_deadline: "0 + 1000 < ic_deadline witness_cfg"
  by (simp add: witness_cfg_def)

theorem pairing_succeeds_witness:
  "\<exists>m. reaches (invite_step witness_cfg) (invite_start witness_st 0 witness_code) m
     \<and> ObsSent ''bb'' (PairConfirm [] ''alice'') \<in> set (sh_log (im_shared m))"
  using pairing_succeeds [of 0 witness_cfg witness_st witness_io "''bb''" _ witness_code, OF _ witness_free witness_add]
  by (fastforce simp: witness_cfg_def)

text \<open>C3: no node is registered without the admin: in every reachable state of an invite, whatever the
  interleaving of its tasks, a registration was preceded by the announcement of that very node to
  the admin and by an accepting decision, and there is at most one.\<close>

theorem pairing_needs_accept:
  assumes "reaches (invite_step cfg) (invite_start st now code) m"
    and "sh_log (im_shared m) = later @ ObsRegistered n # earlier"
  shows "ObsDecided True \<in> set earlier \<and> ObsPairRequest n \<in> set earlier
    \<and> ObsRegistered k \<notin> set later \<and> ObsRegistered k \<notin> set earlier"
  using reachable_log_ok [OF assms(1)] log_ok_suffix [of cfg later "ObsRegistered n # earlier"]
    log_ok_registered_once [of cfg later n earlier k] assms(2)
  by simp

theorem pairing_needs_accept_witness:
  "\<exists>(m :: invite_machine) later earlier. sh_log (im_shared m) = later @ ObsRegistered ''bb'' # earlier
     \<and> ObsDecided True \<in> set earlier \<and> ObsPairRequest ''bb'' \<in> set earlier"
proof -
  obtain m where m: "reaches (invite_step witness_cfg) (invite_start witness_st 0 witness_code) m"
    and log: "sh_log (im_shared m) =
         [ObsResult (Paired ''bb''), ObsSent ''bb'' (confirm witness_cfg),
          ObsNotify (PeerRegistered (ic_name witness_cfg) ''bb'')] @ ObsRegistered ''bb'' #
         [ObsDecided True, ObsNotify (PairRequested (ic_name witness_cfg) ''bb''), ObsPairRequest ''bb'',
          ObsSent ''bb'' PairWait, ObsCode witness_code]"
    using pairing_reaches [of 0 witness_cfg witness_st witness_io "''bb''" _ witness_code, OF _ witness_free witness_add] witness_deadline by auto
  note acc = pairing_needs_accept [OF m log]
  show ?thesis
    by (intro exI conjI, rule log) (use acc in blast)+
qed

text \<open>A confirmation only ever goes to the node that was registered, with the daemon's node id and
  the name of the invite, and the result is sent once and says paired only for that node.\<close>

lemma confirm_only_registered:
  assumes "reaches (invite_step cfg) (invite_start st now code) m"
  shows "(ObsSent n (PairConfirm sid nm) \<in> set (sh_log (im_shared m)) \<longrightarrow>
       sid = ic_server_node_id cfg \<and> nm = ic_name cfg \<and> ObsRegistered n \<in> set (sh_log (im_shared m)))
     \<and> (sh_log (im_shared m) = later @ ObsResult x # earlier \<longrightarrow>
       (\<forall>y. ObsResult y \<notin> set later \<union> set earlier) \<and> (\<forall>k. x = Paired k \<longrightarrow> ObsRegistered k \<in> set earlier))"
proof
  let ?log = "sh_log (im_shared m)"
  note ok = reachable_log_ok [OF assms]
  show "ObsSent n (PairConfirm sid nm) \<in> set ?log \<longrightarrow>
       sid = ic_server_node_id cfg \<and> nm = ic_name cfg \<and> ObsRegistered n \<in> set ?log"
    using log_ok_confirm [OF ok] by blast
  show "?log = later @ ObsResult x # earlier \<longrightarrow>
       (\<forall>y. ObsResult y \<notin> set later \<union> set earlier) \<and> (\<forall>k. x = Paired k \<longrightarrow> ObsRegistered k \<in> set earlier)"
  proof
    assume log: "?log = later @ ObsResult x # earlier"
    with ok have "log_ok cfg (ObsResult x # earlier)" using log_ok_suffix by metis
    with ok log log_ok_result_once [of cfg later x earlier]
    show "(\<forall>y. ObsResult y \<notin> set later \<union> set earlier) \<and> (\<forall>k. x = Paired k \<longrightarrow> ObsRegistered k \<in> set earlier)"
      by simp
  qed
qed

lemma confirm_only_registered_example:
  "\<exists>m :: invite_machine. ObsSent ''bb'' (confirm witness_cfg) \<in> set (sh_log (im_shared m)) \<and> ObsRegistered ''bb'' \<in> set (sh_log (im_shared m))"
proof -
  obtain m where m: "reaches (invite_step witness_cfg) (invite_start witness_st 0 witness_code) m"
    and log: "ObsSent ''bb'' (confirm witness_cfg) \<in> set (sh_log (im_shared m))"
    using pairing_reaches [of 0 witness_cfg witness_st witness_io "''bb''" _ witness_code, OF _ witness_free witness_add] witness_deadline by auto
  have "ObsRegistered ''bb'' \<in> set (sh_log (im_shared m))"
    using confirm_only_registered [OF m, of "''bb''", THEN conjunct1] log by blast
  with log show ?thesis by blast
qed

text \<open>C13: an invite serves one pairing connection at a time: in every reachable state at most one
  connection task is between its handshake and its end, and the slot is taken exactly then.\<close>

theorem single_pair_slot:
  assumes "reaches (invite_step cfg) (invite_start st now code) m"
  shows "n_active (im_conns m) \<le> 1 \<and> (sh_pair_busy (im_shared m) \<longleftrightarrow> n_active (im_conns m) = 1)"
proof -
  have "slot_inv m"
    using invite.inv_reachable [of "invite_start st now code" cfg m] assms by (auto simp: invite_inv_def)
  then show ?thesis by (cases "sh_pair_busy (im_shared m)") (simp_all add: slot_inv_def)
qed

theorem single_pair_slot_witness:
  "\<exists>m. reaches (invite_step witness_cfg) (invite_start witness_st 0 witness_code) m
     \<and> sh_pair_busy (im_shared m) \<and> n_active (im_conns m) = 1"
proof -
  let ?sh = "im_shared (invite_start witness_st 0 witness_code)"
  let ?m = "mach (connected ?sh) SvSelect ([] @ [(''bb'', PcAcceptBi)])"
  have "reaches (invite_step witness_cfg) (invite_start witness_st 0 witness_code) ?m"
    using connect_reaches [of ?sh witness_cfg "[]" "''bb''"] witness_deadline
    by (simp add: invite_start_def rd_delay_def rd_new_def REJECT_DELAY_INITIAL_def)
  with single_pair_slot [OF this] show ?thesis
    by (intro exI [of _ ?m]) (simp add: connected_def)
qed

text \<open>C32: an accept is not bound to the client it was given for: if the client the admin accepted goes
  away at that moment, the decision stays, and the next client that connects with the code is
  registered and confirmed when the deadline wakes it, although no decision was taken after it was
  announced; the run then ends with the admin's event, notification and result all saying that the
  invite expired.\<close>

theorem stale_accept_registers_other:
  assumes "now + 1000 < ic_deadline cfg" and "is_name_free st (ic_name cfg)"
    and "add_peer io (new_peer cfg b (io_now io)) st = (Inr (), st')"
  shows "\<exists>m. reaches (invite_step cfg) (invite_start st now code) m
     \<and> im_serve m = SvDone \<and> sh_state (im_shared m) = st'
     \<and> sh_log (im_shared m) =
         [ObsResult InvExpired, ObsNotify (InviteExpiredN (ic_invite_id cfg)), ObsExpiredEvent, ObsSent b (confirm cfg), ObsNotify (PeerRegistered (ic_name cfg) b), ObsRegistered b,
          ObsNotify (PairRequested (ic_name cfg) b), ObsPairRequest b, ObsSent b PairWait, ObsDecided True,
          ObsNotify (PairRequested (ic_name cfg) a), ObsPairRequest a, ObsSent a PairWait, ObsCode code]"
proof -
  let ?sh0 = "im_shared (invite_start st now code)"
  let ?sh1 = "connected ?sh0"
  let ?sh2 = "announced cfg a ?sh1"
  let ?sh3 = "decided True ?sh2"
  let ?sh4 = "?sh3\<lparr>sh_pair_busy := False\<rparr>"
  let ?sh5 = "connected ?sh4"
  let ?sh6 = "announced cfg b ?sh5"
  let ?sh7 = "expired_at cfg ?sh6"
  let ?sh8 = "registered cfg b st' ?sh7"
  let ?sh9 = "reported cfg OutExpired (ic_deadline cfg + 300) ?sh8"
  let ?ta = "sh_clock ?sh1 + PROMPT_TIMEOUT" and ?tb = "sh_clock ?sh5 + PROMPT_TIMEOUT"
  let ?fl = "SvFlush OutExpired (ic_deadline cfg + 300)"
  have delay: "rd_delay rd_new = 500" "rd_delay (rd_reset d) = 500" for d
    by (simp_all add: rd_delay_def rd_new_def rd_reset_def REJECT_DELAY_INITIAL_def)
  have "reaches (invite_step cfg) (invite_start st now code) (mach ?sh1 SvSelect ([] @ [(a, PcAcceptBi)]))"
    using connect_reaches [of ?sh0 cfg "[]" a] assms(1) delay by (simp add: invite_start_def)
  also have "reaches (invite_step cfg) (mach ?sh1 SvSelect ([] @ [(a, PcAcceptBi)]))
      (mach ?sh2 SvSelect ([] @ [(a, PcSelect False ?ta)]))"
    using assms(2) by (intro handshake_reaches) (simp add: run_defs)
  also have "reaches (invite_step cfg) (mach ?sh2 SvSelect ([] @ [(a, PcSelect False ?ta)]))
      (mach ?sh3 SvSelect ([] @ [(a, PcSelect True ?ta)]))"
    using accept_reaches [of ?sh2 cfg "[] @ [(a, PcSelect False ?ta)]"] by (simp add: run_defs wake_all_def)
  also have "reaches (invite_step cfg) (mach ?sh3 SvSelect ([] @ [(a, PcSelect True ?ta)]))
      (mach ?sh4 SvSelect ([] @ [(a, PcEnd)]))"
    by (rule vanish_reaches)
  also have "reaches (invite_step cfg) (mach ?sh4 SvSelect ([] @ [(a, PcEnd)]))
      (mach ?sh5 SvSelect ([(a, PcEnd)] @ [(b, PcAcceptBi)]))"
    using connect_reaches [of ?sh4 cfg "[(a, PcEnd)]" b] assms(1) delay by (simp add: run_defs)
  also have "reaches (invite_step cfg) (mach ?sh5 SvSelect ([(a, PcEnd)] @ [(b, PcAcceptBi)]))
      (mach ?sh6 SvSelect ([(a, PcEnd)] @ [(b, PcSelect False ?tb)]))"
    using assms(2) by (intro handshake_reaches) (simp add: run_defs)
  also have "reaches (invite_step cfg) (mach ?sh6 SvSelect ([(a, PcEnd)] @ [(b, PcSelect False ?tb)]))
      (mach ?sh7 ?fl ([(a, PcEnd)] @ [(b, PcSelect True ?tb)]))"
    using expire_reaches [of ?sh6 cfg "[(a, PcEnd)] @ [(b, PcSelect False ?tb)]"] assms(1) delay
    by (simp add: run_defs wake_all_def)
  also have "reaches (invite_step cfg) (mach ?sh7 ?fl ([(a, PcEnd)] @ [(b, PcSelect True ?tb)]))
      (mach ?sh8 ?fl ([(a, PcEnd)] @ [(b, PcAck (AckOutcome (OutPaired b)))]))"
    using assms(3) by (intro register_reaches) (simp_all add: run_defs)
  also have "reaches (invite_step cfg) (mach ?sh8 ?fl ([(a, PcEnd)] @ [(b, PcAck (AckOutcome (OutPaired b)))]))
      (mach ?sh9 SvDone ([(a, PcEnd)] @ [(b, PcAck (AckOutcome (OutPaired b)))]))"
    by (rule flush_reaches) (simp add: run_defs)
  finally show ?thesis
    by (intro exI [of _ "mach ?sh9 SvDone ([(a, PcEnd)] @ [(b, PcAck (AckOutcome (OutPaired b)))])"])
       (simp add: run_defs)
qed

theorem stale_accept_registers_other_witness:
  "\<exists>m. reaches (invite_step witness_cfg) (invite_start witness_st 0 witness_code) m
     \<and> im_serve m = SvDone \<and> ObsRegistered ''evil'' \<in> set (sh_log (im_shared m))
     \<and> ObsResult InvExpired \<in> set (sh_log (im_shared m)) \<and> ObsExpiredEvent \<in> set (sh_log (im_shared m))"
  using stale_accept_registers_other
    [of 0 witness_cfg witness_st witness_io "''evil''" _ witness_code "''good''", OF witness_deadline witness_free witness_add]
  by fastforce

end
