(* ===== verification/Invite_Manager.thy ===== *)
theory Invite_Manager
  imports Invite "HOL-Library.Multiset" "HOL-Library.List_Lexorder" "HOL-Library.Char_ord"
begin

text \<open>
  The manager of invites, \<open>InviteManager\<close> and \<open>run_invite_endpoint\<close> of
  \<open>tmite-core/src/daemon/invite.rs\<close>: creating an invite with its code, key and deadline,
  listing and deciding the pending ones, and starting the machine of the theory \<open>Invite\<close>.
  Creation takes the lock of the entries twice, so it is a task of several steps that others may come
  between.
\<close>

section \<open>State\<close>

text \<open>A pending invite: what is fixed, and the commands sent to its task.  The entry itself keeps the
  receiving half alive, so sending to a listed invite cannot fail.\<close>

record invite_entry =
  ie_cfg :: invite_cfg
  ie_cmds :: "bool list"
  ie_rx_open :: bool

record invite_manager =
  mg_net_opts :: net_opts
  mg_server_node_id :: bytes
  mg_entries :: "(string \<times> invite_entry) list"
  mg_notifier :: notifier

definition invite_manager_new :: "net_opts \<Rightarrow> bytes \<Rightarrow> notifier \<Rightarrow> invite_manager" where
  "invite_manager_new opts server nf =
     \<lparr>mg_net_opts = opts, mg_server_node_id = server, mg_entries = [], mg_notifier = nf\<rparr>"

definition pending_count :: "invite_manager \<Rightarrow> nat" where
  "pending_count mg = length (mg_entries mg)"

definition invite_list :: "invite_manager \<Rightarrow> invite_info list" where
  "invite_list mg =
     sort_key ii_name (map (\<lambda>(_, e). \<lparr>ii_invite_id = ic_invite_id (ie_cfg e), ii_name = ic_name (ie_cfg e)\<rparr>)
       (mg_entries mg))"

section \<open>Creating an invite\<close>

definition invite_ttl :: "u64 option \<Rightarrow> nat" where
  "invite_ttl ttl = min (case ttl of Some t \<Rightarrow> unat t | None \<Rightarrow> DEFAULT_INVITE_TTL) MAX_INVITE_TTL"

record created_invite =
  cr_invite_id :: string
  cr_code :: string
  cr_ttl_secs :: nat
  cr_cfg :: invite_cfg
  cr_seed :: bytes

text \<open>The checks; the lock on the entries is released right after them.\<close>

definition create_check :: "daemon_state \<Rightarrow> string \<Rightarrow> invite_manager \<Rightarrow> (invite_error, unit) result" where
  "create_check st name mg =
     (if \<not> is_name_free st name then Inl (InvNameTaken name)
      else if length (mg_entries mg) \<ge> MAX_PENDING_INVITES then Inl InvCap
      else Inr ())"

text \<open>The rest, from the random bytes: code, key seed, identifier, deadline, and the new entry.\<close>

definition create_insert ::
  "code_lib \<Rightarrow> bytes \<Rightarrow> bytes \<Rightarrow> instant \<Rightarrow> string \<Rightarrow> u64 option \<Rightarrow> u64 \<Rightarrow> invite_manager
     \<Rightarrow> created_invite \<times> invite_manager" where
  "create_insert lib entropy id_bytes now name ttl request_id mg =
     (let ttl_secs = invite_ttl ttl;
          invite_id = hex id_bytes;
          cfg = \<lparr>ic_invite_id = invite_id, ic_name = name, ic_deadline = now + secs ttl_secs,
                 ic_request_id = request_id, ic_server_node_id = mg_server_node_id mg\<rparr>
      in (\<lparr>cr_invite_id = invite_id, cr_code = entropy_to_code lib entropy, cr_ttl_secs = ttl_secs,
           cr_cfg = cfg, cr_seed = derive_invite_seed lib entropy\<rparr>,
          mg\<lparr>mg_entries := hm_insert invite_id \<lparr>ie_cfg = cfg, ie_cmds = [], ie_rx_open = True\<rparr> (mg_entries mg),
             mg_notifier := notify (InviteCreated name invite_id ttl_secs) (mg_notifier mg)\<rparr>))"

definition create_invite ::
  "code_lib \<Rightarrow> bytes \<Rightarrow> bytes \<Rightarrow> instant \<Rightarrow> daemon_state \<Rightarrow> string \<Rightarrow> u64 option \<Rightarrow> u64 \<Rightarrow> invite_manager
     \<Rightarrow> (invite_error, created_invite) result \<times> invite_manager" where
  "create_invite lib entropy id_bytes now st name ttl request_id mg =
     (case create_check st name mg of
        Inl e \<Rightarrow> (Inl e, mg)
      | Inr _ \<Rightarrow> map_prod Inr id (create_insert lib entropy id_bytes now name ttl request_id mg))"

section \<open>Deciding and ending\<close>

definition decide_invite :: "string \<Rightarrow> bool \<Rightarrow> invite_manager \<Rightarrow> (decide_error, unit) result \<times> invite_manager" where
  "decide_invite invite_id accept mg =
     (case map_of (mg_entries mg) invite_id of
        None \<Rightarrow> (Inl DecNotFound, mg)
      | Some e \<Rightarrow>
          if \<not> ie_rx_open e then (Inl DecExpired, mg)
          else (Inr (), mg\<lparr>mg_entries := hm_insert invite_id (e\<lparr>ie_cmds := ie_cmds e @ [accept]\<rparr>) (mg_entries mg)\<rparr>))"

text \<open>What \<open>finish\<close> does to the list of pending invites.\<close>

definition drop_invite :: "string \<Rightarrow> invite_manager \<Rightarrow> invite_manager" where
  "drop_invite invite_id mg = mg\<lparr>mg_entries := hm_remove invite_id (mg_entries mg)\<rparr>"

section \<open>Running an invite\<close>

definition run_invite_endpoint ::
  "('r, 'u) net_io \<Rightarrow> net_opts \<Rightarrow> created_invite \<Rightarrow> daemon_state \<Rightarrow> instant \<Rightarrow> invite_machine" where
  "run_invite_endpoint nio opts cr st now =
     (case build_endpoint nio (cr_seed cr) [PAIRING_ALPN] RoleInvite opts of
        Inl e \<Rightarrow>
          (let m = invite_start st now \<lparr>ce_invite_id = [], ce_code = [], ce_name = [], ce_ttl_secs = 0\<rparr>
           in m\<lparr>im_shared := (im_shared m)\<lparr>sh_listed := False, sh_log := [ObsResult InvExpired]\<rparr>, im_serve := SvDone\<rparr>)
      | Inr ep \<Rightarrow>
          invite_start st now
            \<lparr>ce_invite_id = cr_invite_id cr, ce_code = cr_code cr, ce_name = ic_name (cr_cfg cr),
             ce_ttl_secs = (ic_deadline (cr_cfg cr) - now) div 1000\<rparr>)"

section \<open>Sequences of manager operations\<close>

datatype manager_op =
    MgCheck daemon_state string
  | MgInsert code_lib bytes bytes instant string "u64 option" u64
  | MgDecide string bool
  | MgDrop string

fun manager_step :: "manager_op \<Rightarrow> invite_manager \<Rightarrow> invite_manager" where
  "manager_step (MgCheck st name) mg = mg"
| "manager_step (MgInsert lib e ids now name ttl rid) mg = snd (create_insert lib e ids now name ttl rid mg)"
| "manager_step (MgDecide i a) mg = snd (decide_invite i a mg)"
| "manager_step (MgDrop i) mg = drop_invite i mg"

definition manager_wf :: "invite_manager \<Rightarrow> bool" where
  "manager_wf mg =
     (hm_wf (mg_entries mg)
      \<and> (\<forall>(i, e) \<in> set (mg_entries mg). ie_rx_open e \<and> ic_invite_id (ie_cfg e) = i))"

section \<open>Overlapping creations\<close>

text \<open>
  \<open>create\<close> takes no lock over its whole length: it looks the name up, then takes the lock of the
  entries to count them, releases it, draws the code and fixes the deadline, and takes the lock again to
  insert.  So every creation is a task of its own, and any number of them may be on their way while
  invites are decided and end, time passes, and the authorisation state changes.  \<open>cy_states\<close> is
  the history of that state, the present one first.
\<close>

datatype create_pc =
    CrName
  | CrCap
  | CrInsert bytes bytes instant
  | CrDone "(invite_error, created_invite) result"

record create_task =
  ct_name :: string
  ct_ttl :: "u64 option"
  ct_request :: u64
  ct_pc :: create_pc

inductive create_task_step ::
  "code_lib \<Rightarrow> daemon_state \<Rightarrow> instant \<Rightarrow> create_task \<Rightarrow> invite_manager \<Rightarrow> create_task \<Rightarrow> invite_manager \<Rightarrow> bool"
  for lib st now where
  name_taken: "ct_pc t = CrName \<Longrightarrow> \<not> is_name_free st (ct_name t) \<Longrightarrow>
    create_task_step lib st now t mg (t\<lparr>ct_pc := CrDone (Inl (InvNameTaken (ct_name t)))\<rparr>) mg"
| name_free: "ct_pc t = CrName \<Longrightarrow> is_name_free st (ct_name t) \<Longrightarrow>
    create_task_step lib st now t mg (t\<lparr>ct_pc := CrCap\<rparr>) mg"
| cap: "ct_pc t = CrCap \<Longrightarrow> length (mg_entries mg) \<ge> MAX_PENDING_INVITES \<Longrightarrow>
    create_task_step lib st now t mg (t\<lparr>ct_pc := CrDone (Inl InvCap)\<rparr>) mg"
| below_cap: "ct_pc t = CrCap \<Longrightarrow> length (mg_entries mg) < MAX_PENDING_INVITES \<Longrightarrow>
    create_task_step lib st now t mg (t\<lparr>ct_pc := CrInsert entropy id_bytes now\<rparr>) mg"
| insert: "ct_pc t = CrInsert entropy id_bytes since \<Longrightarrow>
    create_insert lib entropy id_bytes since (ct_name t) (ct_ttl t) (ct_request t) mg = (cr, mg') \<Longrightarrow>
    create_task_step lib st now t mg (t\<lparr>ct_pc := CrDone (Inr cr)\<rparr>) mg'"

inductive_cases create_task_stepE: "create_task_step lib st now t mg t' mg'"

record create_system =
  cy_mg :: invite_manager
  cy_states :: "daemon_state list"
  cy_clock :: instant
  cy_tasks :: "create_task list"

inductive create_step :: "code_lib \<Rightarrow> create_system \<Rightarrow> create_system \<Rightarrow> bool" for lib where
  started: "create_step lib s
    (s\<lparr>cy_tasks := cy_tasks s @ [\<lparr>ct_name = name, ct_ttl = ttl, ct_request = rid, ct_pc = CrName\<rparr>]\<rparr>)"
| task: "i < length (cy_tasks s) \<Longrightarrow>
    create_task_step lib (hd (cy_states s)) (cy_clock s) (cy_tasks s ! i) (cy_mg s) t' mg' \<Longrightarrow>
    create_step lib s (s\<lparr>cy_mg := mg', cy_tasks := (cy_tasks s)[i := t']\<rparr>)"
| decide: "create_step lib s (s\<lparr>cy_mg := snd (decide_invite i a (cy_mg s))\<rparr>)"
| drop: "create_step lib s (s\<lparr>cy_mg := drop_invite i (cy_mg s)\<rparr>)"
| tick: "cy_clock s \<le> now \<Longrightarrow> create_step lib s (s\<lparr>cy_clock := now\<rparr>)"
| environment: "create_step lib s (s\<lparr>cy_states := state_step io op (hd (cy_states s)) # cy_states s\<rparr>)"

definition create_start :: "invite_manager \<Rightarrow> daemon_state \<Rightarrow> instant \<Rightarrow> create_system" where
  "create_start mg st now = \<lparr>cy_mg = mg, cy_states = [st], cy_clock = now, cy_tasks = []\<rparr>"

text \<open>The creations that are on their way, and those of them that have passed the cap.\<close>

fun in_progress :: "create_pc \<Rightarrow> bool" where
  "in_progress (CrDone _) = False"
| "in_progress _ = True"

fun inserting :: "create_pc \<Rightarrow> bool" where
  "inserting (CrInsert _ _ _) = True"
| "inserting _ = False"

definition creating :: "create_system \<Rightarrow> nat" where
  "creating s = length (filter (\<lambda>t. in_progress (ct_pc t)) (cy_tasks s))"

definition past_cap :: "create_task list \<Rightarrow> nat" where
  "past_cap ts = length (filter (\<lambda>t. inserting (ct_pc t)) ts)"

section \<open>Laws\<close>

lemma set_hm_insert: "set (hm_insert k v m) \<subseteq> insert (k, v) (set m)"
  by (induction k v m rule: hm_insert.induct) auto

lemma wf_manager_step [inv_intro]:
  assumes "manager_wf mg"
  shows "manager_wf (manager_step op mg)"
proof (cases op)
  case (MgInsert lib e ids now name ttl rid)
  with assms set_hm_insert show ?thesis
    by (fastforce simp: manager_wf_def create_insert_def Let_def hm_wf_insert)
next
  case (MgDecide i a)
  show ?thesis
  proof (cases "map_of (mg_entries mg) i")
    case (Some e)
    then have "(i, e) \<in> set (mg_entries mg)" by (rule map_of_SomeD)
    with assms MgDecide Some set_hm_insert [of i _ "mg_entries mg"] show ?thesis
      by (fastforce simp: manager_wf_def decide_invite_def hm_wf_insert)
  qed (use assms MgDecide in \<open>simp add: decide_invite_def\<close>)
next
  case (MgDrop i)
  have "set (hm_remove i (mg_entries mg)) \<subseteq> set (mg_entries mg)" by (auto simp: hm_remove_def)
  with assms MgDrop show ?thesis by (auto simp: manager_wf_def drop_invite_def hm_wf_remove)
qed (use assms in simp)

lemma wf_manager_run: "manager_wf mg \<Longrightarrow> manager_wf (fold manager_step ops mg)"
  by (induction ops arbitrary: mg) (simp_all add: wf_manager_step)

lemma invite_ttl_bounds: "invite_ttl ttl \<le> 3600"
  by (simp add: invite_ttl_def MAX_INVITE_TTL_def)

subsection \<open>Overlapping creations\<close>

text \<open>A pending invite has its own identifier, a name that was free in some state the daemon has had, and
  at most an hour left.\<close>

definition entry_ok :: "daemon_state list \<Rightarrow> instant \<Rightarrow> string \<times> invite_entry \<Rightarrow> bool" where
  "entry_ok sts now x =
     (case x of (i, e) \<Rightarrow> ic_invite_id (ie_cfg e) = i \<and> ic_deadline (ie_cfg e) \<le> now + 3600000
        \<and> (\<exists>st \<in> set sts. is_name_free st (ic_name (ie_cfg e))))"

definition task_ok :: "daemon_state list \<Rightarrow> instant \<Rightarrow> create_task \<Rightarrow> bool" where
  "task_ok sts now t =
     (case ct_pc t of
        CrName \<Rightarrow> True
      | CrCap \<Rightarrow> \<exists>st \<in> set sts. is_name_free st (ct_name t)
      | CrInsert _ _ since \<Rightarrow> since \<le> now \<and> (\<exists>st \<in> set sts. is_name_free st (ct_name t))
      | CrDone (Inr cr) \<Rightarrow> ic_name (cr_cfg cr) = ct_name t \<and> (\<exists>st \<in> set sts. is_name_free st (ct_name t))
      | CrDone (Inl e) \<Rightarrow> e = InvCap \<or> e = InvNameTaken (ct_name t) \<and> (\<exists>st \<in> set sts. \<not> is_name_free st (ct_name t)))"

definition create_inv :: "nat \<Rightarrow> create_system \<Rightarrow> bool" where
  "create_inv k s =
     (cy_states s \<noteq> [] \<and> length (mg_entries (cy_mg s)) + past_cap (cy_tasks s) < 8 + k
      \<and> list_all (entry_ok (cy_states s) (cy_clock s)) (mg_entries (cy_mg s))
      \<and> list_all (task_ok (cy_states s) (cy_clock s)) (cy_tasks s))"

lemma past_cap_le: "past_cap (cy_tasks s) \<le> creating s"
proof -
  have "in_progress pc" if "inserting pc" for pc using that by (cases pc) auto
  then have "past_cap ts \<le> length (filter (\<lambda>t. in_progress (ct_pc t)) ts)" for ts
    unfolding past_cap_def by (induction ts) auto
  then show ?thesis by (simp add: creating_def)
qed

lemma past_cap_update:
  assumes "i < length ts"
  shows "past_cap (ts[i := t]) + (if inserting (ct_pc (ts ! i)) then 1 else 0) = past_cap ts + (if inserting (ct_pc t) then 1 else 0)"
  using length_filter_update [OF assms, of "\<lambda>t. inserting (ct_pc t)" t] by (simp add: past_cap_def)

lemma entry_ok_mono: "entry_ok sts now x \<Longrightarrow> set sts \<subseteq> set sts' \<Longrightarrow> now \<le> now' \<Longrightarrow> entry_ok sts' now' x"
  unfolding entry_ok_def by (auto split: prod.splits)

lemma task_ok_mono: "task_ok sts now t \<Longrightarrow> set sts \<subseteq> set sts' \<Longrightarrow> now \<le> now' \<Longrightarrow> task_ok sts' now' t"
  unfolding task_ok_def by (auto split: create_pc.splits sum.splits)

lemma create_insert_ok:
  assumes "create_insert lib entropy ids since name ttl rid mg = (cr, mg')" and "since \<le> now"
    and "\<exists>st \<in> set sts. is_name_free st name" and "list_all (entry_ok sts now) (mg_entries mg)"
  shows "list_all (entry_ok sts now) (mg_entries mg') \<and> length (mg_entries mg') \<le> Suc (length (mg_entries mg))
    \<and> ic_name (cr_cfg cr) = name"
  using assms invite_ttl_bounds [of ttl] set_hm_insert length_hm_insert_le
  by (fastforce simp: create_insert_def Let_def list_all_iff entry_ok_def secs_def)

lemma create_task_inv:
  assumes "create_task_step lib st now t mg t' mg'" and "task_ok sts now t" and "st \<in> set sts"
    and "list_all (entry_ok sts now) (mg_entries mg)"
  shows "task_ok sts now t' \<and> list_all (entry_ok sts now) (mg_entries mg')
    \<and> (if inserting (ct_pc t') then length (mg_entries mg') < 8 \<and> mg' = mg
       else length (mg_entries mg') \<le> length (mg_entries mg) + (if inserting (ct_pc t) then 1 else 0))"
  using assms(1)
proof cases
  case (insert entropy ids since cr)
  then show ?thesis
    using assms(2,4) create_insert_ok [OF insert(3), of now sts] by (auto simp: task_ok_def)
qed (use assms(2-4) in \<open>auto simp: task_ok_def MAX_PENDING_INVITES_def\<close>)

lemma decide_entries:
  assumes "list_all (entry_ok sts now) (mg_entries mg)"
  shows "list_all (entry_ok sts now) (mg_entries (snd (decide_invite i a mg)))
    \<and> length (mg_entries (snd (decide_invite i a mg))) = length (mg_entries mg)"
proof (cases "map_of (mg_entries mg) i")
  case (Some e)
  then have "(i, e) \<in> set (mg_entries mg)" by (rule map_of_SomeD)
  with assms have "entry_ok sts now (i, e\<lparr>ie_cmds := ie_cmds e @ [a]\<rparr>)" by (auto simp: list_all_iff entry_ok_def)
  with assms Some set_hm_insert show ?thesis
    by (fastforce simp: decide_invite_def list_all_iff length_hm_insert_old)
qed (use assms in \<open>simp add: decide_invite_def\<close>)

lemma create_inv_step:
  assumes inv: "create_inv k s" and step: "create_step lib s s'" and few: "creating s' \<le> k"
  shows "create_inv k s'"
  using step
proof cases
  case (task i t' mg')
  from inv have st: "hd (cy_states s) \<in> set (cy_states s)" by (simp add: create_inv_def)
  from inv task have "task_ok (cy_states s) (cy_clock s) (cy_tasks s ! i)" by (simp add: create_inv_def list_all_length)
  from create_task_inv [OF task(3) this st] inv
  have new: "task_ok (cy_states s) (cy_clock s) t'" "list_all (entry_ok (cy_states s) (cy_clock s)) (mg_entries mg')"
    and count: "if inserting (ct_pc t') then length (mg_entries mg') < 8 \<and> mg' = cy_mg s
      else length (mg_entries mg') \<le> length (mg_entries (cy_mg s)) + (if inserting (ct_pc (cy_tasks s ! i)) then 1 else 0)"
    by (auto simp: create_inv_def)
  have "length (mg_entries mg') + past_cap ((cy_tasks s)[i := t']) < 8 + k"
    using inv count past_cap_update [OF task(2), of t'] past_cap_le [of s'] few task(1)
    by (auto simp: create_inv_def split: if_splits)
  with inv new task show ?thesis
    by (auto simp: create_inv_def list_all_iff dest!: set_update_subset_insert [THEN subsetD])
next
  case (decide i a)
  with inv decide_entries [of "cy_states s" "cy_clock s" "cy_mg s" i a] show ?thesis by (simp add: create_inv_def)
next
  case (drop i)
  have "set (hm_remove i (mg_entries (cy_mg s))) \<subseteq> set (mg_entries (cy_mg s))" by (auto simp: hm_remove_def)
  with drop inv length_hm_remove_le [of i "mg_entries (cy_mg s)"] show ?thesis
    by (auto simp: create_inv_def drop_invite_def list_all_iff)
next
  case (tick now)
  with inv show ?thesis
    by (auto simp: create_inv_def list_all_iff intro: entry_ok_mono task_ok_mono)
next
  case (environment io op)
  with inv show ?thesis
    by (auto simp: create_inv_def list_all_iff intro: entry_ok_mono task_ok_mono)
qed (use inv in \<open>auto simp: create_inv_def past_cap_def task_ok_def\<close>)

interpretation creations: transition_system
  "\<lambda>s. \<exists>opts server nf st now. s = create_start (invite_manager_new opts server nf) st now"
  "\<lambda>s s'. create_step lib s s' \<and> creating s' \<le> k" "create_inv k"
proof unfold_locales
  fix s assume "\<exists>opts server nf st now. s = create_start (invite_manager_new opts server nf) st now"
  then show "create_inv k s" by (auto simp: create_inv_def create_start_def invite_manager_new_def past_cap_def)
qed (auto intro: create_inv_step)

section \<open>Properties\<close>


text \<open>A creation whose steps nothing comes between is \<open>create_invite\<close>.\<close>

abbreviation at_most :: "code_lib \<Rightarrow> nat \<Rightarrow> create_system \<Rightarrow> create_system \<Rightarrow> bool" where
  "at_most lib k \<equiv> \<lambda>s s'. create_step lib s s' \<and> creating s' \<le> k"

abbreviation cys :: "daemon_state list \<Rightarrow> instant \<Rightarrow> invite_manager \<Rightarrow> create_task list \<Rightarrow> create_system" where
  "cys sts now mg ts \<equiv> \<lparr>cy_mg = mg, cy_states = sts, cy_clock = now, cy_tasks = ts\<rparr>"

lemma create_task_reaches:
  assumes "creating (cys sts now mg (ts @ [t])) \<le> k" and "create_task_step lib (hd sts) now t mg t' mg'"
  shows "reaches (at_most lib k) (cys sts now mg (ts @ [t])) (cys sts now mg' (ts @ [t']))
    \<and> creating (cys sts now mg' (ts @ [t'])) \<le> k"
proof -
  have "in_progress (ct_pc t)" using assms(2) by (cases rule: create_task_step.cases) auto
  then have "creating (cys sts now mg' (ts @ [t'])) \<le> k" using assms(1) by (simp add: creating_def split: if_splits)
  moreover have "create_step lib (cys sts now mg (ts @ [t])) (cys sts now mg' (ts @ [t']))"
    using create_step.task [of "length ts" "cys sts now mg (ts @ [t])" lib t' mg'] assms(2) by simp
  ultimately show ?thesis by (auto intro: reaches_step)
qed

lemma create_alone:
  assumes k: "creating (cys sts now mg (ts @ [t])) \<le> k" and t: "ct_pc t = CrName"
    and run: "create_invite lib entropy ids now (hd sts) (ct_name t) (ct_ttl t) (ct_request t) mg = (r, mg')"
  shows "reaches (at_most lib k) (cys sts now mg (ts @ [t])) (cys sts now mg' (ts @ [t\<lparr>ct_pc := CrDone r\<rparr>]))"
proof (cases "is_name_free (hd sts) (ct_name t)")
  case False
  with run have "r = Inl (InvNameTaken (ct_name t)) \<and> mg' = mg" by (auto simp: create_invite_def create_check_def)
  with create_task_reaches [OF k create_task_step.name_taken [OF t False]] show ?thesis by blast
next
  case True
  let ?t1 = "t\<lparr>ct_pc := CrCap\<rparr>" and ?t2 = "t\<lparr>ct_pc := CrInsert entropy ids now\<rparr>"
  note one = create_task_reaches [OF k create_task_step.name_free [OF t True]]
  show ?thesis
  proof (cases "length (mg_entries mg) \<ge> MAX_PENDING_INVITES")
    case cap: True
    with run True have "r = Inl InvCap \<and> mg' = mg" by (auto simp: create_invite_def create_check_def)
    moreover have "create_task_step lib (hd sts) now ?t1 mg (?t1\<lparr>ct_pc := CrDone (Inl InvCap)\<rparr>) mg"
      using cap by (intro create_task_step.cap) auto
    ultimately have "reaches (at_most lib k) (cys sts now mg (ts @ [?t1])) (cys sts now mg' (ts @ [t\<lparr>ct_pc := CrDone r\<rparr>]))"
      using create_task_reaches [of mg sts now ts ?t1 k lib _ mg] one by fastforce
    then show ?thesis using one by (blast intro: reaches_trans)
  next
    case below: False
    have "create_task_step lib (hd sts) now ?t1 mg (?t1\<lparr>ct_pc := CrInsert entropy ids now\<rparr>) mg"
      using below by (intro create_task_step.below_cap) auto
    with one have two: "reaches (at_most lib k) (cys sts now mg (ts @ [?t1])) (cys sts now mg (ts @ [?t2]))
        \<and> creating (cys sts now mg (ts @ [?t2])) \<le> k"
      using create_task_reaches [of mg sts now ts ?t1 k lib ?t2 mg] by simp
    obtain cr where cr: "create_insert lib entropy ids now (ct_name t) (ct_ttl t) (ct_request t) mg = (cr, mg')" "r = Inr cr"
      using run True below by (cases "create_insert lib entropy ids now (ct_name t) (ct_ttl t) (ct_request t) mg") (auto simp: create_invite_def create_check_def)
    then have "create_task_step lib (hd sts) now ?t2 mg (?t2\<lparr>ct_pc := CrDone (Inr cr)\<rparr>) mg'"
      by (intro create_task_step.insert) auto
    with two create_task_reaches [of mg sts now ts ?t2 k lib _ mg'] cr(2) have "reaches (at_most lib k)
        (cys sts now mg (ts @ [?t2])) (cys sts now mg' (ts @ [t\<lparr>ct_pc := CrDone r\<rparr>]))" by fastforce
    with one two show ?thesis by (blast intro: reaches_trans)
  qed
qed


text \<open>The cap is not kept when two creations overlap: with seven invites pending both pass the
  check before either inserts, and nine are pending afterwards.\<close>

lemma invite_cap_race:
  assumes "length (mg_entries mg) = 7" and "is_name_free st n1" and "is_name_free st n2"
    and "map_of (mg_entries mg) (hex i1) = None" and "map_of (mg_entries mg) (hex i2) = None" and "hex i1 \<noteq> hex i2"
  shows "create_check st n1 mg = Inr () \<and> create_check st n2 mg = Inr ()
    \<and> pending_count (snd (create_insert lib e2 i2 now n2 t2 r2 (snd (create_insert lib e1 i1 now n1 t1 r1 mg)))) = 9"
proof -
  have new: "length (hm_insert (hex i2) y (hm_insert (hex i1) x (mg_entries mg))) = 9" for x y
    using assms length_hm_insert_new [of "mg_entries mg" "hex i1" x]
      length_hm_insert_new [of "hm_insert (hex i1) x (mg_entries mg)" "hex i2" y] by simp
  show ?thesis
    using assms(1-3) by (simp add: create_check_def create_insert_def Let_def pending_count_def MAX_PENDING_INVITES_def new)
qed

definition seven_invites :: invite_manager where
  "seven_invites = (invite_manager_new \<lparr>no_relay_urls = [], no_pkarr_url = None, no_bind_port = None\<rparr> [] notifier_disabled)
     \<lparr>mg_entries := map (\<lambda>i. (replicate (i + 3) (CHR ''z''), \<lparr>ie_cfg = witness_cfg, ie_cmds = [], ie_rx_open = True\<rparr>)) [0..<7]\<rparr>"

lemma seven_fresh_id: "map_of (mg_entries seven_invites) (hex [b]) = None"
proof -
  have "length k \<noteq> 2" if "k \<in> fst ` set (mg_entries seven_invites)" for k
    using that by (auto simp: seven_invites_def)
  then have "hex [b] \<notin> fst ` set (mg_entries seven_invites)" by fastforce
  then show ?thesis by (simp add: map_of_eq_None_iff)
qed

lemma seven_fresh: "hex [7] \<noteq> hex [8]" "length (mg_entries seven_invites) = 7"
  using parse_hex_pairs_hex [of "[7]"] parse_hex_pairs_hex [of "[8]"] by (auto simp: seven_invites_def)

lemma witness_names_free: "is_name_free witness_st n"
  by (simp add: is_name_free_def witness_st_def persisted_default_def)

lemma invite_cap_race_example:
  "pending_count (snd (create_insert witness_lib [] [8] 0 ''b'' None 2
     (snd (create_insert witness_lib [] [7] 0 ''a'' None 1 seven_invites)))) = 9"
  using invite_cap_race [OF seven_fresh(2) witness_names_free witness_names_free seven_fresh_id seven_fresh_id seven_fresh(1)] by blast

text \<open>A decision reaches exactly the invite it names and no other, in the order decisions are sent;
  it is refused only for an invite that is not pending, since a pending one can always be told.\<close>

lemma decide_reaches_invite:
  assumes "manager_wf mg" and "mg' = fold manager_step ops mg"
  shows "case decide_invite i a mg' of
      (Inl e, mg'') \<Rightarrow> e = DecNotFound \<and> map_of (mg_entries mg') i = None \<and> mg'' = mg'
    | (Inr _, mg'') \<Rightarrow> \<exists>e. map_of (mg_entries mg') i = Some e
        \<and> mg_entries mg'' = hm_insert i (e\<lparr>ie_cmds := ie_cmds e @ [a]\<rparr>) (mg_entries mg')
        \<and> (\<forall>j. j \<noteq> i \<longrightarrow> map_of (mg_entries mg'') j = map_of (mg_entries mg') j)"
proof (cases "map_of (mg_entries mg') i")
  case (Some e)
  then have "(i, e) \<in> set (mg_entries mg')" by (rule map_of_SomeD)
  moreover have "manager_wf mg'" using assms wf_manager_run by blast
  ultimately have "ie_rx_open e" by (auto simp: manager_wf_def)
  with Some show ?thesis by (simp add: decide_invite_def)
qed (simp add: decide_invite_def)

text \<open>The list shown to the admin holds every pending invite once, ordered by name.\<close>

lemma invite_list_sorted:
  "sorted (map ii_name (invite_list mg))
   \<and> mset (invite_list mg) = mset (map (\<lambda>(_, e). \<lparr>ii_invite_id = ic_invite_id (ie_cfg e), ii_name = ic_name (ie_cfg e)\<rparr>) (mg_entries mg))"
  by (simp add: invite_list_def)

text \<open>C30: the code leads the client to the invite: whoever types the code that was shown, in any letter
  case and with any separators, derives the key seed of that invite's endpoint, for a mnemonic codec
  that encodes six bytes as five words of its list and decodes them again.\<close>

theorem code_leads_to_invite:
  assumes "length e = 5"
    and "normalize_words (mn_to_string lib (e @ [checksum_byte lib e])) = Inr ws"
    and "length ws = 5" and "set ws \<subseteq> set (mn_words lib)" and "the (word_index lib (ws ! 4)) < 41"
    and "mn_decode lib (str_join ''-'' ws) = Some (e @ [checksum_byte lib e])"
    and "cr = fst (create_insert lib e ids now name ttl rid mg)"
    and "normalize_words typed = normalize_words (cr_code cr)"
  shows "map_err (\<lambda>x. x) (rbind (code_to_entropy lib typed) (\<lambda>e. Inr (derive_invite_seed lib e))) = Inr (cr_seed cr)"
proof -
  have "normalize_words (entropy_to_code lib e) = Inr ws"
    using assms(2) normalize_clean [OF assms(2)] normalize_join [of ws "CHR '' ''"] by (simp add: entropy_to_code_def)
  then have "code_to_entropy lib typed = Inr e"
    using assms by (auto simp: code_to_entropy_ok_iff create_insert_def Let_def)
  then show ?thesis by (simp add: assms(7) create_insert_def Let_def map_err_def)
qed

theorem code_leads_to_invite_witness:
  "map_err (\<lambda>x. x) (rbind (code_to_entropy witness_lib ''AB, cd ab CD/ab'') (\<lambda>e. Inr (derive_invite_seed witness_lib e))) =
     Inr (cr_seed (fst (create_insert witness_lib [1, 2, 3, 4, 5] [7] 0 ''a'' None 1 seven_invites)))"
  by (rule code_leads_to_invite [where ws = "[''ab'', ''cd'', ''ab'', ''cd'', ''ab'']", OF _ _ _ _ _ _ HOL.refl])
     (simp_all add: create_insert_def Let_def witness_lib_code,
      simp_all add: witness_lib_def checksum_byte_def word_index_def witness_lib_code)

end
