(* ===== verification/Daemon_Ipc.thy ===== *)
theory Daemon_Ipc
  imports Invite_Manager
begin

text \<open>
  The daemon's admin interface, \<open>tmite-core/src/daemon/ipc.rs\<close>: reading requests from a
  connection and dispatching each method to the state, the invites, the sessions and the
  notification settings.  JSON and TOML, the file system, random bytes, the clock and the ntfy
  server are fields of the environment of a request.
\<close>

section \<open>Handle, environment and values\<close>

record daemon_handle =
  dh_state :: daemon_state
  dh_invites :: invite_manager
  dh_sessions :: sessions
  dh_notifier :: notifier
  dh_ntfy_file :: "string option"
  dh_node_id :: string
  dh_version :: string
  dh_started :: instant
  dh_stops :: nat

text \<open>What the outside answers during one request, and the decoders of its parameters.\<close>

record 'p ipc_env =
  en_state_io :: state_io
  en_now :: instant
  en_lib :: code_lib
  en_entropy :: bytes
  en_id_bytes :: bytes
  en_topic_bytes :: bytes
  en_paths :: "nat \<Rightarrow> conn_path list"
  en_invite_params :: "'p \<Rightarrow> (string, invite_params) result"
  en_decide_params :: "'p \<Rightarrow> (string, decide_params) result"
  en_allow_params :: "'p \<Rightarrow> (string, allow_params) result"
  en_revoke_params :: "'p \<Rightarrow> (string, revoke_params) result"
  en_rm_params :: "'p \<Rightarrow> (string, rm_params) result"
  en_ntfy_enable_params :: "'p \<Rightarrow> (string, ntfy_enable_params) result"
  en_ntfy_test_params :: "'p \<Rightarrow> (string, ntfy_test_params) result"
  en_ntfy_de :: "string \<Rightarrow> (string, ntfy_config) result"
  en_ntfy_ser :: "ntfy_config \<Rightarrow> (string, string) result"
  en_ntfy_read_err :: "io_error option"
  en_ntfy_mkdir :: "io_error option"
  en_ntfy_open :: "io_error option"
  en_ntfy_fs :: fs_outcome
  en_ntfy_rm_err :: "io_error option"
  en_ntfy_build :: "string option"
  en_ntfy_send :: send_outcome
  en_invite_result :: "invite_result option"

datatype ipc_value =
    VInvite invite_result
  | VDecide string
  | VAllow allow_result
  | VRevoke revoke_result
  | VLs ls_result
  | VRm rm_result
  | VStatus status_result
  | VSessions sessions_result
  | VStop stop_result
  | VNtfyEnable ntfy_enable_result
  | VNtfyDisable ntfy_disable_result
  | VNtfyStatus ntfy_status_result
  | VNtfyTest ntfy_test_result

type_synonym dispatch_error = "error_code \<times> string"
type_synonym dispatch_result = "(dispatch_error, ipc_value) result \<times> daemon_handle"

fun show_io_error :: "io_error \<Rightarrow> string" where
  "show_io_error IoNotFound = ''No such file or directory (os error 2)''"
| "show_io_error (IoOther s) = s"

definition quoted :: "string \<Rightarrow> string" where
  "quoted s = [CHR 0x22] @ s @ [CHR 0x22]"

fun show_state_error :: "state_error \<Rightarrow> string" where
  "show_state_error (StIo e) = ''io error: '' @ show_io_error e"
| "show_state_error (StParse e) = ''state file corrupt: '' @ e"
| "show_state_error (StSerialize e) = ''state file serialization failed: '' @ e"
| "show_state_error (StNameTaken n) = ''peer '' @ quoted n @ '' already exists''"
| "show_state_error (StNotFound n) = ''peer '' @ quoted n @ '' not found''"
| "show_state_error (StPeerHasRules n) = ''peer '' @ quoted n @ '' has rules; use --force to delete them too''"
| "show_state_error StPeerCap = ''peer limit reached ('' @ show_nat MAX_PEERS @ '')''"
| "show_state_error StRuleCap = ''rule limit reached ('' @ show_nat MAX_RULES @ '')''"

fun show_ntfy_error :: "ntfy_error \<Rightarrow> string" where
  "show_ntfy_error (NtIo e) = ''io error: '' @ show_io_error e"
| "show_ntfy_error (NtToml e) = ''config error: '' @ e"
| "show_ntfy_error (NtTomlSer e) = ''config error: '' @ e"

definition state_err :: "state_error \<Rightarrow> dispatch_error" where
  "state_err e = (state_error_code e, show_state_error e)"

section \<open>The methods\<close>

text \<open>\<open>peer.invite\<close> answers when the invite is over; the result of its task is part of the
  environment, \<open>None\<close> if the task was lost.\<close>

definition dispatch_invite :: "'p ipc_env \<Rightarrow> 'p request \<Rightarrow> daemon_handle \<Rightarrow> dispatch_result" where
  "dispatch_invite env req h =
     (case en_invite_params env (rq_params req) of
        Inl e \<Rightarrow> (Inl (BadRequest, e), h)
      | Inr params \<Rightarrow>
          if trim (ip_name params) = [] then (Inl (BadRequest, ''name must not be empty''), h)
          else (case create_invite (en_lib env) (en_entropy env) (en_id_bytes env) (en_now env) (dh_state h)
                       (trim (ip_name params)) (ip_ttl params) (rq_id req) (dh_invites h) of
                  (Inl e, _) \<Rightarrow> (Inl (invite_error_code e, show_invite_error e), h)
                | (Inr _, mg) \<Rightarrow>
                    ((case en_invite_result env of
                        Some r \<Rightarrow> Inr (VInvite r)
                      | None \<Rightarrow> Inl (Internal, ''invite vanished: channel closed'')),
                     h\<lparr>dh_invites := mg\<rparr>)))"

definition decide_err :: "decide_error \<Rightarrow> dispatch_error" where
  "decide_err e = (case e of DecNotFound \<Rightarrow> (NotFound, show_decide_error e)
                           | DecExpired \<Rightarrow> (InviteExpired, show_decide_error e))"

definition dispatch_decide :: "'p ipc_env \<Rightarrow> 'p request \<Rightarrow> daemon_handle \<Rightarrow> dispatch_result" where
  "dispatch_decide env req h =
     (case en_decide_params env (rq_params req) of
        Inl e \<Rightarrow> (Inl (BadRequest, e), h)
      | Inr params \<Rightarrow>
          (case decide_invite (dp_invite_id params) (dp_accept params) (dh_invites h) of
             (Inl e, mg) \<Rightarrow> (Inl (decide_err e), h\<lparr>dh_invites := mg\<rparr>)
           | (Inr _, mg) \<Rightarrow>
               (Inr (VDecide (if dp_accept params then ''accepted'' else ''rejected'')), h\<lparr>dh_invites := mg\<rparr>)))"

definition dispatch_allow :: "'p ipc_env \<Rightarrow> 'p request \<Rightarrow> daemon_handle \<Rightarrow> dispatch_result" where
  "dispatch_allow env req h =
     (case en_allow_params env (rq_params req) of
        Inl e \<Rightarrow> (Inl (BadRequest, e), h)
      | Inr params \<Rightarrow>
          if \<not> valid_target (ap_target params) then (Inl (BadRequest, ''target must be host:port''), h)
          else (case add_rule (en_state_io env) (ap_peer params) (ap_target params) (dh_state h) of
                  (Inl e, st) \<Rightarrow> (Inl (state_err e), h\<lparr>dh_state := st\<rparr>)
                | (Inr index, st) \<Rightarrow>
                    (Inr (VAllow \<lparr>ar_rule_index = index\<rparr>),
                     h\<lparr>dh_state := st,
                       dh_notifier := notify (RuleAdded (ap_peer params) (ap_target params)) (dh_notifier h)\<rparr>)))"

definition dispatch_revoke :: "'p ipc_env \<Rightarrow> 'p request \<Rightarrow> daemon_handle \<Rightarrow> dispatch_result" where
  "dispatch_revoke env req h =
     (case en_revoke_params env (rq_params req) of
        Inl e \<Rightarrow> (Inl (BadRequest, e), h)
      | Inr params \<Rightarrow>
          (case remove_rule (en_state_io env) (rv_peer params) (rv_target params) (dh_state h) of
             (Inl e, st) \<Rightarrow> (Inl (state_err e), h\<lparr>dh_state := st\<rparr>)
           | (Inr removed, st) \<Rightarrow>
               (Inr (VRevoke \<lparr>rr_removed = removed\<rparr>),
                (if removed
                 then h\<lparr>dh_state := st,
                        dh_notifier := notify (RuleRevoked (rv_peer params) (rv_target params)) (dh_notifier h)\<rparr>
                 else h\<lparr>dh_state := st\<rparr>))))"

definition dispatch_ls :: "daemon_handle \<Rightarrow> dispatch_result" where
  "dispatch_ls h =
     (let (peers, rules) = snapshot (dh_state h) in
      (Inr (VLs \<lparr>ls_peers = map (\<lambda>p. \<lparr>pi_name = p_name p, pi_node_id = p_node_id p,
                                       pi_paired_at = p_paired_at p, pi_last_seen = p_last_seen p\<rparr>) peers,
                 ls_rules = map (\<lambda>r. \<lparr>ri_peer = r_peer r, ri_target = r_target r, ri_created_at = r_created_at r\<rparr>) rules,
                 ls_invites = invite_list (dh_invites h)\<rparr>), h))"

definition dispatch_rm :: "'p ipc_env \<Rightarrow> 'p request \<Rightarrow> daemon_handle \<Rightarrow> dispatch_result" where
  "dispatch_rm env req h =
     (case en_rm_params env (rq_params req) of
        Inl e \<Rightarrow> (Inl (BadRequest, e), h)
      | Inr params \<Rightarrow>
          (case remove_peer (en_state_io env) (rm_peer params) (rm_force params) (dh_state h) of
             (Inl e, st) \<Rightarrow> (Inl (state_err e), h\<lparr>dh_state := st\<rparr>)
           | (Inr removed, st) \<Rightarrow> (Inr (VRm \<lparr>rmr_removed = removed\<rparr>), h\<lparr>dh_state := st\<rparr>)))"

definition dispatch_status :: "'p ipc_env \<Rightarrow> daemon_handle \<Rightarrow> dispatch_result" where
  "dispatch_status env h =
     (let (peers, rules) = snapshot (dh_state h) in
      (Inr (VStatus \<lparr>sr_version = dh_version h, sr_node_id = dh_node_id h,
                     sr_uptime_secs = (en_now env - dh_started h) div 1000,
                     sr_peers = length peers, sr_rules = length rules,
                     sr_invites = pending_count (dh_invites h)\<rparr>), h))"

definition dispatch_sessions :: "'p ipc_env \<Rightarrow> daemon_handle \<Rightarrow> dispatch_result" where
  "dispatch_sessions env h =
     (Inr (VSessions \<lparr>ssr_peers =
        map (\<lambda>p. \<lparr>psi_name = p_name p, psi_node_id = p_node_id p,
                  psi_session = peer_snapshot (en_paths env) (en_now env) (dh_sessions h) (p_node_id p)\<rparr>)
          (fst (snapshot (dh_state h)))\<rparr>), h)"

definition ntfy_config_of :: "'p ipc_env \<Rightarrow> daemon_handle \<Rightarrow> (dispatch_error, ntfy_config option) result" where
  "ntfy_config_of env h =
     map_err (\<lambda>e. (Internal, show_ntfy_error e))
       (ntfy_load (en_ntfy_de env)
          (case en_ntfy_read_err env of
             Some e \<Rightarrow> Inl e
           | None \<Rightarrow> (case dh_ntfy_file h of Some text \<Rightarrow> Inr text | None \<Rightarrow> Inl IoNotFound)))"

definition dispatch_ntfy_enable :: "'p ipc_env \<Rightarrow> 'p request \<Rightarrow> daemon_handle \<Rightarrow> dispatch_result" where
  "dispatch_ntfy_enable env req h =
     (case en_ntfy_enable_params env (rq_params req) of
        Inl e \<Rightarrow> (Inl (BadRequest, e), h)
      | Inr params \<Rightarrow>
          (case (case ne_server params of Some url \<Rightarrow> validate_server_url url | None \<Rightarrow> Inr ()) of
             Inl e \<Rightarrow> (Inl (BadRequest, e), h)
           | Inr _ \<Rightarrow>
               (case ntfy_config_of env h of
                  Inl e \<Rightarrow> (Inl e, h)
                | Inr (Some existing) \<Rightarrow>
                    (Inl (BadRequest, ''ntfy notifications already enabled (topic '' @ nc_topic existing
                            @ ''); disable first to rotate''), h)
                | Inr None \<Rightarrow>
                    (let c = \<lparr>nc_topic = generate_topic (en_topic_bytes env), nc_server = ne_server params\<rparr> in
                     case ntfy_save (en_ntfy_ser env) (en_ntfy_mkdir env) (en_ntfy_open env) (en_ntfy_fs env) c
                            (dh_ntfy_file h) of
                       (Inl e, file) \<Rightarrow> (Inl (Internal, show_ntfy_error e), h\<lparr>dh_ntfy_file := file\<rparr>)
                     | (Inr _, file) \<Rightarrow>
                         (Inr (VNtfyEnable \<lparr>nr_topic = nc_topic c, nr_server_url = server_url c\<rparr>),
                          h\<lparr>dh_ntfy_file := file\<rparr>)))))"

definition dispatch_ntfy_disable :: "'p ipc_env \<Rightarrow> daemon_handle \<Rightarrow> dispatch_result" where
  "dispatch_ntfy_disable env h =
     (case ntfy_remove (en_ntfy_rm_err env) (dh_ntfy_file h) of
        (Inl e, file) \<Rightarrow> (Inl (Internal, show_ntfy_error e), h\<lparr>dh_ntfy_file := file\<rparr>)
      | (Inr removed, file) \<Rightarrow> (Inr (VNtfyDisable \<lparr>nd_removed = removed\<rparr>), h\<lparr>dh_ntfy_file := file\<rparr>))"

definition dispatch_ntfy_status :: "'p ipc_env \<Rightarrow> daemon_handle \<Rightarrow> dispatch_result" where
  "dispatch_ntfy_status env h =
     (case ntfy_config_of env h of
        Inl e \<Rightarrow> (Inl e, h)
      | Inr (Some c) \<Rightarrow>
          (Inr (VNtfyStatus \<lparr>ns_enabled = True, ns_topic = Some (nc_topic c), ns_server_url = Some (server_url c)\<rparr>), h)
      | Inr None \<Rightarrow> (Inr (VNtfyStatus \<lparr>ns_enabled = False, ns_topic = None, ns_server_url = None\<rparr>), h))"

definition dispatch_ntfy_test :: "'p ipc_env \<Rightarrow> 'p request \<Rightarrow> daemon_handle \<Rightarrow> dispatch_result" where
  "dispatch_ntfy_test env req h =
     (case en_ntfy_test_params env (rq_params req) of
        Inl e \<Rightarrow> (Inl (BadRequest, e), h)
      | Inr params \<Rightarrow>
          (case ntfy_config_of env h of
             Inl e \<Rightarrow> (Inl e, h)
           | Inr None \<Rightarrow> (Inl (BadRequest, ''ntfy notifications are disabled; enable first''), h)
           | Inr (Some c) \<Rightarrow>
               (case sink_post (en_ntfy_build env) (en_ntfy_send env) of
                  Inl e \<Rightarrow> (Inl (Internal, ''ntfy send failed: '' @ e), h)
                | Inr _ \<Rightarrow> (Inr (VNtfyTest \<lparr>ntr_sent = True\<rparr>), h))))"

fun dispatch_method :: "ipc_method \<Rightarrow> 'p ipc_env \<Rightarrow> 'p request \<Rightarrow> daemon_handle \<Rightarrow> dispatch_result" where
  "dispatch_method PeerInvite env req h = dispatch_invite env req h"
| "dispatch_method PeerInviteDecide env req h = dispatch_decide env req h"
| "dispatch_method PeerAllow env req h = dispatch_allow env req h"
| "dispatch_method PeerRevoke env req h = dispatch_revoke env req h"
| "dispatch_method PeerLs env req h = dispatch_ls h"
| "dispatch_method PeerRm env req h = dispatch_rm env req h"
| "dispatch_method DaemonStatus env req h = dispatch_status env h"
| "dispatch_method DaemonSessions env req h = dispatch_sessions env h"
| "dispatch_method NtfyEnable env req h = dispatch_ntfy_enable env req h"
| "dispatch_method NtfyDisable env req h = dispatch_ntfy_disable env h"
| "dispatch_method NtfyStatus env req h = dispatch_ntfy_status env h"
| "dispatch_method NtfyTest env req h = dispatch_ntfy_test env req h"
| "dispatch_method DaemonStop env req h =
     (Inr (VStop \<lparr>sp_stopping = True\<rparr>), h\<lparr>dh_stops := Suc (dh_stops h)\<rparr>)"

definition dispatch :: "'p ipc_env \<Rightarrow> 'p request \<Rightarrow> daemon_handle \<Rightarrow> ipc_value reply \<times> daemon_handle" where
  "dispatch env req h =
     (case method_parse (rq_method req) of
        None \<Rightarrow> (reply_error (rq_id req) BadRequest ''unknown method'', h)
      | Some m \<Rightarrow>
          (case dispatch_method m env req h of
             (Inr v, h') \<Rightarrow> (reply_result (rq_id req) v, h')
           | (Inl (code, message), h') \<Rightarrow> (reply_error (rq_id req) code message, h')))"

section \<open>One connection\<close>

text \<open>The requests a connection hands to tasks of their own, in the order of its lines, and the reply
  to the malformed line that ends it, if there is one.\<close>

fun handle_conn :: "(string \<Rightarrow> (string, 'p request) result) \<Rightarrow> string list \<Rightarrow> 'p request list \<times> ipc_value reply option" where
  "handle_conn from_str [] = ([], None)"
| "handle_conn from_str (l # ls) =
     (let line = trim l in
      if line = [] then handle_conn from_str ls
      else (case parse_request from_str line of
              Inl e \<Rightarrow> ([], Some (reply_error 0 BadRequest (''ipc parse error: '' @ e)))
            | Inr req \<Rightarrow> map_prod (\<lambda>rs. req # rs) id (handle_conn from_str ls)))"

section \<open>What a request does to the state\<close>

text \<open>The mutation of the authorisation state a request stands for.\<close>

definition request_op :: "'p ipc_env \<Rightarrow> 'p request \<Rightarrow> state_op option" where
  "request_op env req =
     (case method_parse (rq_method req) of
        Some PeerAllow \<Rightarrow>
          (case en_allow_params env (rq_params req) of
             Inr a \<Rightarrow> if valid_target (ap_target a) then Some (OpAddRule (ap_peer a) (ap_target a)) else None
           | Inl _ \<Rightarrow> None)
      | Some PeerRevoke \<Rightarrow>
          (case en_revoke_params env (rq_params req) of
             Inr a \<Rightarrow> Some (OpRemoveRule (rv_peer a) (rv_target a))
           | Inl _ \<Rightarrow> None)
      | Some PeerRm \<Rightarrow>
          (case en_rm_params env (rq_params req) of
             Inr a \<Rightarrow> Some (OpRemovePeer (rm_peer a) (rm_force a))
           | Inl _ \<Rightarrow> None)
      | _ \<Rightarrow> None)"

lemma state_invite: "dh_state (snd (dispatch_invite env req h)) = dh_state h"
  by (auto simp: dispatch_invite_def split: sum.splits prod.splits)

lemma state_decide: "dh_state (snd (dispatch_decide env req h)) = dh_state h"
  by (auto simp: dispatch_decide_def split: sum.splits prod.splits)

lemma state_ntfy:
  "dh_state (snd (dispatch_ntfy_enable env req h)) = dh_state h"
  "dh_state (snd (dispatch_ntfy_disable env h)) = dh_state h"
  "dh_state (snd (dispatch_ntfy_status env h)) = dh_state h"
  "dh_state (snd (dispatch_ntfy_test env req h)) = dh_state h"
  by (simp_all add: dispatch_ntfy_enable_def dispatch_ntfy_disable_def dispatch_ntfy_status_def
      dispatch_ntfy_test_def Let_def split: sum.splits prod.splits option.splits)

lemma snd_dispatch:
  "snd (dispatch env req h) =
     (case method_parse (rq_method req) of None \<Rightarrow> h | Some m \<Rightarrow> snd (dispatch_method m env req h))"
  by (auto simp: dispatch_def split: option.splits prod.splits sum.splits)

lemma state_allow:
  "dh_state (snd (dispatch_allow env req h)) =
     (case en_allow_params env (rq_params req) of
        Inr a \<Rightarrow> if valid_target (ap_target a) then snd (add_rule (en_state_io env) (ap_peer a) (ap_target a) (dh_state h))
                 else dh_state h
      | Inl _ \<Rightarrow> dh_state h)"
  by (auto simp: dispatch_allow_def split: sum.splits prod.splits)

lemma state_revoke:
  "dh_state (snd (dispatch_revoke env req h)) =
     (case en_revoke_params env (rq_params req) of
        Inr a \<Rightarrow> snd (remove_rule (en_state_io env) (rv_peer a) (rv_target a) (dh_state h))
      | Inl _ \<Rightarrow> dh_state h)"
  by (auto simp: dispatch_revoke_def split: sum.splits prod.splits)

lemma state_rm:
  "dh_state (snd (dispatch_rm env req h)) =
     (case en_rm_params env (rq_params req) of
        Inr a \<Rightarrow> snd (remove_peer (en_state_io env) (rm_peer a) (rm_force a) (dh_state h))
      | Inl _ \<Rightarrow> dh_state h)"
  by (auto simp: dispatch_rm_def split: sum.splits prod.splits)

lemma state_views:
  "dh_state (snd (dispatch_ls h)) = dh_state h"
  "dh_state (snd (dispatch_status env h)) = dh_state h"
  "dh_state (snd (dispatch_sessions env h)) = dh_state h"
  by (simp_all add: dispatch_ls_def dispatch_status_def dispatch_sessions_def case_prod_unfold Let_def)

lemmas dispatch_states = state_invite state_decide state_ntfy state_allow state_revoke state_rm state_views

lemma dispatch_state:
  "dh_state (snd (dispatch env req h)) =
     (case request_op env req of
        Some op \<Rightarrow> state_step (en_state_io env) op (dh_state h)
      | None \<Rightarrow> dh_state h)"
proof (cases "method_parse (rq_method req)")
  case (Some m)
  then show ?thesis
    by (cases m) (simp_all add: snd_dispatch request_op_def dispatch_states split: sum.split)
qed (simp add: snd_dispatch request_op_def)

lemma request_op_valid: "request_op env req = Some (OpAddRule p t) \<Longrightarrow> valid_target t"
  by (auto simp: request_op_def split: option.splits ipc_method.splits sum.splits if_splits)

text \<open>What a request does to the invites.\<close>

lemma manager_wf_create:
  "manager_wf mg \<Longrightarrow> manager_wf (snd (create_invite lib e ids now st name ttl rid mg))"
  using wf_manager_step [of mg "MgInsert lib e ids now name ttl rid"]
  by (simp add: create_invite_def split: sum.splits)

lemma manager_wf_decide: "manager_wf mg \<Longrightarrow> manager_wf (snd (decide_invite i a mg))"
  using wf_manager_step [of mg "MgDecide i a"] by simp

lemma invites_invite:
  "manager_wf (dh_invites h) \<Longrightarrow> manager_wf (dh_invites (snd (dispatch_invite env req h)))"
  using manager_wf_create [of "dh_invites h" "en_lib env" "en_entropy env" "en_id_bytes env" "en_now env" "dh_state h"]
  by (auto simp: dispatch_invite_def split: sum.splits prod.splits) (metis snd_conv)

lemma invites_decide:
  "manager_wf (dh_invites h) \<Longrightarrow> manager_wf (dh_invites (snd (dispatch_decide env req h)))"
  using manager_wf_decide [of "dh_invites h"]
  by (auto simp: dispatch_decide_def split: sum.splits prod.splits) (metis snd_conv)+

lemma invites_other:
  "m \<noteq> PeerInvite \<Longrightarrow> m \<noteq> PeerInviteDecide \<Longrightarrow> dh_invites (snd (dispatch_method m env req h)) = dh_invites h"
  by (cases m) (simp_all add: dispatch_allow_def dispatch_revoke_def dispatch_rm_def dispatch_ls_def
      dispatch_status_def dispatch_sessions_def dispatch_ntfy_enable_def dispatch_ntfy_disable_def
      dispatch_ntfy_status_def dispatch_ntfy_test_def Let_def split: sum.splits prod.splits option.splits)

lemma dispatch_invites_wf:
  assumes "manager_wf (dh_invites h)"
  shows "manager_wf (dh_invites (snd (dispatch env req h)))"
proof (cases "method_parse (rq_method req)")
  case (Some m)
  then show ?thesis
    using assms invites_invite [of h env req] invites_decide [of h env req] invites_other [of m env req h]
    by (cases "m = PeerInvite"; cases "m = PeerInviteDecide") (auto simp: snd_dispatch)
qed (use assms in \<open>simp add: snd_dispatch\<close>)

definition targets_valid :: "daemon_state \<Rightarrow> bool" where
  "targets_valid st = (\<forall>p t. rule_allows st p t \<longrightarrow> valid_target t)"

definition handle_inv :: "daemon_handle \<Rightarrow> bool" where
  "handle_inv h = (state_wf (st_inner (dh_state h)) \<and> targets_valid (dh_state h) \<and> manager_wf (dh_invites h))"

lemma targets_valid_step:
  assumes "targets_valid st" and "\<forall>p t. op = OpAddRule p t \<longrightarrow> valid_target t"
  shows "targets_valid (state_step io op st)"
  unfolding targets_valid_def
proof (intro allI impI)
  fix p t
  assume new: "rule_allows (state_step io op st) p t"
  show "valid_target t"
  proof (cases "rule_allows st p t")
    case False
    have "rule_allows (state_run [(io, op)] st) p t" using new by simp
    then have "fold acl_apply (acl_history io_step state_event [(io, op)] st) (rule_allows st) p t"
      unfolding state_run_fold by (simp only: rules.allows_history)
    then have "acl_apply (state_event (io, op) st) (rule_allows st) p t" by simp
    with False acl_apply_keep have "state_event (io, op) st = Granted p t" by blast
    then have "op = OpAddRule p t"
      by (cases op) (auto split: sum.splits if_splits)
    with assms(2) show ?thesis by simp
  qed (use assms(1) in \<open>auto simp: targets_valid_def\<close>)
qed

lemma handle_inv_dispatch [inv_intro]:
  assumes "handle_inv h"
  shows "handle_inv (snd (dispatch env req h))"
proof (cases "request_op env req")
  case None
  with assms dispatch_invites_wf [of h env req] show ?thesis by (simp add: handle_inv_def dispatch_state)
next
  case (Some op)
  with assms dispatch_invites_wf [of h env req] targets_valid_step [of "dh_state h" op "en_state_io env"] request_op_valid [of env req]
  show ?thesis by (simp add: handle_inv_def dispatch_state wf_state_step)
qed

fun dispatch_all :: "('p ipc_env \<times> 'p request) list \<Rightarrow> daemon_handle \<Rightarrow> daemon_handle" where
  "dispatch_all [] h = h"
| "dispatch_all ((env, req) # rs) h = dispatch_all rs (snd (dispatch env req h))"

section \<open>Properties\<close>

text \<open>Every request is answered once, under its own id, with a result or an error and never both.\<close>

lemma dispatch_replies_once:
  "let r = fst (dispatch env req h) in
     rp_id r = rq_id req \<and> (rp_result r = None \<longleftrightarrow> rp_error r \<noteq> None) \<and> rp_event r = None"
  by (auto simp: dispatch_def reply_result_def reply_error_def split: option.splits prod.splits sum.splits)

text \<open>C33: whatever requests the admin sends, with whatever file-system outcomes, the daemon's state stays
  well formed, every stored rule has a well-formed target, and the pending invites stay consistent.\<close>

theorem dispatch_keeps_invariant:
  assumes "handle_inv h"
  shows "handle_inv (dispatch_all rs h)"
  using assms by (induction rs h rule: dispatch_all.induct) (simp_all add: handle_inv_dispatch)

definition witness_handle :: daemon_handle where
  "witness_handle = \<lparr>dh_state = witness_st,
     dh_invites = invite_manager_new \<lparr>no_relay_urls = [], no_pkarr_url = None, no_bind_port = None\<rparr> [] notifier_disabled,
     dh_sessions = sessions_new, dh_notifier = notifier_disabled, dh_ntfy_file = None, dh_node_id = [], dh_version = [],
     dh_started = 0, dh_stops = 0\<rparr>"

lemma witness_handle_inv: "handle_inv witness_handle"
proof -
  have "state_wf (st_inner witness_st)" by (simp add: witness_st_def wf_default)
  moreover have "targets_valid witness_st"
    by (simp add: targets_valid_def rule_allows_def witness_st_def persisted_default_def)
  ultimately show ?thesis
    by (simp add: handle_inv_def witness_handle_def manager_wf_def invite_manager_new_def)
qed

text \<open>The requests of a connection are those of its lines before the first malformed one, in their
  order, blank lines apart; a malformed line is answered with \<open>bad_request\<close> under id 0 and ends the
  connection.\<close>

lemma handle_conn_spec:
  "handle_conn from_str ls =
     (let lines = filter (\<lambda>l. l \<noteq> []) (map trim ls);
          good = takeWhile (\<lambda>l. is_ok (parse_request from_str l)) lines
      in (map (\<lambda>l. projr (parse_request from_str l)) good,
          (case drop (length good) lines of
             [] \<Rightarrow> None
           | bad # _ \<Rightarrow> Some (reply_error 0 BadRequest (''ipc parse error: '' @ projl (parse_request from_str bad))))))"
proof (induction ls)
  case (Cons l ls)
  show ?case
  proof (cases "trim l = []")
    case False
    then show ?thesis
      using Cons by (cases "parse_request from_str (trim l)") (simp_all add: is_ok_def Let_def)
  qed (use Cons in simp)
qed simp

text \<open>An invite for a name that is already taken is refused with the code \<open>internal\<close>, not with
  the code \<open>name_taken\<close> the protocol has for it.\<close>

lemma invite_name_taken_internal:
  assumes "method_parse (rq_method req) = Some PeerInvite"
    and "en_invite_params env (rq_params req) = Inr params" and "trim (ip_name params) \<noteq> []"
    and "\<not> is_name_free (dh_state h) (trim (ip_name params))"
  shows "fst (dispatch env req h) =
     reply_error (rq_id req) Internal (show_invite_error (InvNameTaken (trim (ip_name params))))"
  using assms by (simp add: dispatch_def dispatch_invite_def create_invite_def create_check_def)

definition witness_env :: "unit ipc_env" where
  "witness_env = \<lparr>en_state_io = witness_io, en_now = 0, en_lib = witness_lib, en_entropy = [], en_id_bytes = [],
     en_topic_bytes = [], en_paths = (\<lambda>_. []), en_invite_params = (\<lambda>_. Inr \<lparr>ip_name = ''a'', ip_ttl = None\<rparr>),
     en_decide_params = (\<lambda>_. Inl ''e''), en_allow_params = (\<lambda>_. Inr \<lparr>ap_peer = ''a'', ap_target = ''h:1''\<rparr>),
     en_revoke_params = (\<lambda>_. Inl ''e''), en_rm_params = (\<lambda>_. Inl ''e''), en_ntfy_enable_params = (\<lambda>_. Inl ''e''),
     en_ntfy_test_params = (\<lambda>_. Inl ''e''), en_ntfy_de = (\<lambda>_. Inl ''e''), en_ntfy_ser = (\<lambda>_. Inl ''e''),
     en_ntfy_read_err = None, en_ntfy_mkdir = None, en_ntfy_open = None, en_ntfy_fs = FsOk, en_ntfy_rm_err = None,
     en_ntfy_build = None, en_ntfy_send = SendNever, en_invite_result = None\<rparr>"

theorem dispatch_keeps_invariant_witness:
  "handle_inv (dispatch_all [(witness_env, \<lparr>rq_id = 1, rq_method = ''peer.allow'', rq_params = ()\<rparr>),
     (witness_env, \<lparr>rq_id = 2, rq_method = ''peer.invite'', rq_params = ()\<rparr>)] witness_handle)"
  by (rule dispatch_keeps_invariant) (rule witness_handle_inv)

lemma trim_a: "trim ''a'' = ''a''"
  by code_simp

lemma invite_name_taken_internal_example:
  "fst (dispatch witness_env \<lparr>rq_id = 4, rq_method = ''peer.invite'', rq_params = ()\<rparr>
     (witness_handle\<lparr>dh_state := witness_st\<lparr>st_inner := witness_state\<rparr>\<rparr>)) =
   reply_error 4 Internal (show_invite_error (InvNameTaken ''a''))"
  using invite_name_taken_internal
    [of "\<lparr>rq_id = 4, rq_method = ''peer.invite'', rq_params = ()\<rparr>" witness_env "\<lparr>ip_name = ''a'', ip_ttl = None\<rparr>"
        "witness_handle\<lparr>dh_state := witness_st\<lparr>st_inner := witness_state\<rparr>\<rparr>"]
  by (simp add: method_parse_def witness_env_def trim_a is_name_free_def witness_handle_def witness_state_def)

text \<open>Notifications are switched on once and off again: after a successful enable the status shows
  exactly the new topic and server and a second enable is refused without touching the file; after a
  disable the status is off; for any TOML library that reads back what it wrote.\<close>

lemma ntfy_enable_status:
  assumes "dispatch_ntfy_enable env req h = (Inr (VNtfyEnable r), h')"
    and "\<And>c text. en_ntfy_ser env c = Inr text \<Longrightarrow> en_ntfy_de env' text = Inr c"
    and "en_ntfy_read_err env' = None" and "en_ntfy_rm_err env' = None"
  shows "dispatch_ntfy_status env' h' =
       (Inr (VNtfyStatus \<lparr>ns_enabled = True, ns_topic = Some (nr_topic r), ns_server_url = Some (nr_server_url r)\<rparr>), h')
     \<and> is_ok (fst (dispatch_ntfy_enable env' req' h')) = False \<and> snd (dispatch_ntfy_enable env' req' h') = h'
     \<and> fst (dispatch_ntfy_status env' (snd (dispatch_ntfy_disable env' h'))) =
         Inr (VNtfyStatus \<lparr>ns_enabled = False, ns_topic = None, ns_server_url = None\<rparr>)"
proof -
  obtain c tx where c: "en_ntfy_ser env c = Inr tx" and stored: "dh_ntfy_file h' = Some tx"
    and r: "r = \<lparr>nr_topic = nc_topic c, nr_server_url = server_url c\<rparr>"
    using assms(1)
    by (auto simp: dispatch_ntfy_enable_def ntfy_save_def Let_def
        split: sum.splits option.splits prod.splits fs_outcome.splits)
  have cfg: "ntfy_config_of env' h' = Inr (Some c)"
    using assms(2) [OF c] assms(3) stored by (simp add: ntfy_config_of_def ntfy_load_def map_err_def)
  have off: "ntfy_config_of env' (h'\<lparr>dh_ntfy_file := None\<rparr>) = Inr None"
    using assms(3) by (simp add: ntfy_config_of_def ntfy_load_def map_err_def)
  have dis: "snd (dispatch_ntfy_disable env' h') = h'\<lparr>dh_ntfy_file := None\<rparr>"
    using assms(4) stored by (simp add: dispatch_ntfy_disable_def ntfy_remove_def)
  show ?thesis
    using cfg off r
    by (auto simp: dis dispatch_ntfy_status_def dispatch_ntfy_enable_def is_ok_def split: sum.splits option.splits)
qed

end
