(* ===== verification/Daemon.thy ===== *)
theory Daemon
  imports Daemon_Ipc Fsio Main_Ep
begin

text \<open>
  The daemon as a whole: \<open>run\<close> of \<open>tmite-core/src/daemon/mod.rs\<close>, which puts the parts
  together, the accept loop of the admin socket from \<open>ipc.rs\<close>, and the events that change the
  authorisation state of a running daemon, whatever part they come from.
\<close>

section \<open>The admin socket\<close>

text \<open>\<open>serve\<close>: its outcomes are the creation of the directory, the removal of a socket file that is
  there, whose failure is passed over, the bind, and the results of \<open>accept\<close>, of which an error is
  passed over after a pause.  The value is an error, or the connections handed to \<open>handle_conn\<close> in
  order, and whose listener the socket file leads to then.\<close>

definition ipc_serve ::
  "'d \<Rightarrow> io_error option \<Rightarrow> io_error option \<Rightarrow> io_error option \<Rightarrow> (io_error, 'c) result list \<Rightarrow> 'd option
     \<Rightarrow> (io_error, 'c list) result \<times> 'd option" where
  "ipc_serve me mkdir unlink bind accepts sock =
     (case mkdir of
        Some e \<Rightarrow> (Inl e, sock)
      | None \<Rightarrow>
          (case bind of
             Some e \<Rightarrow> (Inl e, if unlink = None then None else sock)
           | None \<Rightarrow> (Inr (map projr (filter is_ok accepts)), Some me)))"

section \<open>Start and end\<close>

record daemon_config =
  dc_data_dir :: string
  dc_socket_path :: string
  dc_idle_timeout :: duration
  dc_net_opts :: net_opts

record ('r, 'u) daemon_io =
  di_key :: "(fs_error, bytes) result"
  di_public :: "bytes \<Rightarrow> bytes"
  di_node_string :: "bytes \<Rightarrow> string"
  di_toml_de :: "string \<Rightarrow> (string, persisted_state) result"
  di_state_file :: "(io_error, string) result"
  di_net :: "('r, 'u) net_io"
  di_version :: string
  di_started :: instant

definition daemon_handle_of ::
  "('r, 'u) daemon_io \<Rightarrow> daemon_config \<Rightarrow> bytes \<Rightarrow> daemon_state \<Rightarrow> string option \<Rightarrow> daemon_handle" where
  "daemon_handle_of io cfg secret_key st ntfy_file =
     \<lparr>dh_state = st, dh_invites = invite_manager_new (dc_net_opts cfg) (di_public io secret_key) notifier_channel,
      dh_sessions = sessions_new, dh_notifier = notifier_channel, dh_ntfy_file = ntfy_file,
      dh_node_id = di_node_string io (di_public io secret_key), dh_version = di_version io,
      dh_started = di_started io, dh_stops = 0\<rparr>"

text \<open>Up to the line \<open>daemon ready\<close>; the admin socket is served by a task of its own, whose failure
  is only logged.\<close>

definition daemon_start ::
  "('r, 'u) daemon_io \<Rightarrow> daemon_config \<Rightarrow> string option
     \<Rightarrow> (daemon_error, daemon_handle \<times> (bytes, 'r, 'u) endpoint_builder \<times> data_plane) result" where
  "daemon_start io cfg ntfy_file =
     rbind (map_err DaemonFs (di_key io)) (\<lambda>secret_key.
     rbind (map_err DaemonStateErr (state_load (di_toml_de io) (path_join (dc_data_dir cfg) ''state.toml'') (di_state_file io))) (\<lambda>st.
       (let handle = daemon_handle_of io cfg secret_key st ntfy_file in
        rbind (spawn_main_endpoint (di_net io) (dc_net_opts cfg) secret_key st sessions_new (dc_idle_timeout cfg) notifier_channel)
          (\<lambda>(ep, dp). Inr (handle, ep, dp)))))"

text \<open>The end: a stop request or the interrupt, whichever comes first.\<close>

datatype stop_signal = StopRequested | CtrlC

definition daemon_shutdown :: "io_error option \<Rightarrow> stop_signal \<Rightarrow> 'd option \<Rightarrow> string \<times> 'd option" where
  "daemon_shutdown unlink sig sock =
     ((case sig of StopRequested \<Rightarrow> ''stopped'' | CtrlC \<Rightarrow> ''interrupted''),
      if unlink = None then None else sock)"

text \<open>The socket file of a daemon that served and ended is gone.  It is removed by its path alone: of
  two daemons on one path the second takes the socket over, and the end of the first leaves the
  second, still running, without one.\<close>

lemma socket_file_removed:
  "snd (daemon_shutdown None sig (snd (ipc_serve me None unlink None accepts sock))) = None"
  by (simp add: daemon_shutdown_def)

lemma shutdown_unlinks_successor:
  "let sock1 = snd (ipc_serve me None None None as None); sock2 = snd (ipc_serve other None None None bs sock1)
    in sock2 = Some other \<and> snd (daemon_shutdown None sig sock2) = None"
  by (simp add: ipc_serve_def daemon_shutdown_def Let_def)

section \<open>A running daemon\<close>

text \<open>What changes the authorisation state while the daemon runs: an admin request, the registration
  of a peer at the end of a pairing, and an accepted connection.\<close>

datatype 'p sys_event =
    SysRequest "'p ipc_env" "'p request"
  | SysPaired state_io peer
  | SysSeen state_io string

fun sys_step :: "'p sys_event \<Rightarrow> daemon_handle \<Rightarrow> daemon_handle" where
  "sys_step (SysRequest env req) h = snd (dispatch env req h)"
| "sys_step (SysPaired io p) h = h\<lparr>dh_state := snd (add_peer io p (dh_state h))\<rparr>"
| "sys_step (SysSeen io node) h = h\<lparr>dh_state := touch_last_seen io node (dh_state h)\<rparr>"

text \<open>The event as a mutation of the state, if it is one.\<close>

fun sys_op :: "'p sys_event \<Rightarrow> (state_io \<times> state_op) option" where
  "sys_op (SysRequest env req) = map_option (\<lambda>op. (en_state_io env, op)) (request_op env req)"
| "sys_op (SysPaired io p) = Some (io, OpAddPeer p)"
| "sys_op (SysSeen io node) = Some (io, OpTouch node)"

definition sys_acl_event :: "'p sys_event \<Rightarrow> daemon_handle \<Rightarrow> acl_event" where
  "sys_acl_event e h = (case sys_op e of Some x \<Rightarrow> state_event x (dh_state h) | None \<Rightarrow> NoAclChange)"

lemma sys_step_state:
  "dh_state (sys_step e h) = (case sys_op e of Some x \<Rightarrow> io_step x (dh_state h) | None \<Rightarrow> dh_state h)"
  by (cases e) (auto simp: dispatch_state split: option.splits)

text \<open>The running daemon is a rule store like the state it holds.\<close>

interpretation system: acl_store sys_step sys_acl_event "\<lambda>h. rule_allows (dh_state h)"
proof
  fix e :: "'p sys_event" and h p t
  show "rule_allows (dh_state (sys_step e h)) p t = acl_apply (sys_acl_event e h) (rule_allows (dh_state h)) p t"
    by (simp add: sys_step_state sys_acl_event_def rules.allows_step split: option.split)
qed

lemma sys_granted:
  assumes "sys_acl_event e h = Granted p t"
  obtains env req a where "e = SysRequest env req" "method_parse (rq_method req) = Some PeerAllow"
    "en_allow_params env (rq_params req) = Inr a" "ap_peer a = p" "ap_target a = t" "valid_target t"
proof -
  from assms obtain x where x: "sys_op e = Some x" "state_event x (dh_state h) = Granted p t"
    by (auto simp: sys_acl_event_def split: option.splits)
  obtain io op where "x = (io, op)" by (cases x)
  with x(2) have "op = OpAddRule p t" by (cases op) (auto split: sum.splits if_splits)
  with x(1) \<open>x = (io, op)\<close> obtain env req where e: "e = SysRequest env req" "request_op env req = Some (OpAddRule p t)"
    by (cases e) auto
  then show thesis
    using that [of env req] by (auto simp: request_op_def split: option.splits ipc_method.splits sum.splits if_splits)
qed

subsection \<open>Peers\<close>

abbreviation peer_ids :: "daemon_state \<Rightarrow> (string \<times> string) set" where
  "peer_ids st \<equiv> (\<lambda>p. (p_name p, p_node_id p)) ` set (peers_of st)"

lemma set_update_first_subset: "set (update_first P f xs) \<subseteq> set xs \<union> f ` set xs"
  by (induction xs) auto

lemma peer_ids_step:
  assumes "(n, i) \<in> peer_ids (io_step x st)"
  shows "(n, i) \<in> peer_ids st \<or> (\<exists>p. snd x = OpAddPeer p \<and> p_name p = n \<and> p_node_id p = i)"
proof (cases "snd x")
  case (OpTouch node)
  obtain f where "st_inner (touch_last_seen (fst x) node st) =
     (st_inner st)\<lparr>ps_peers := update_first (\<lambda>p. eq_ignore_ascii_case (p_node_id p) node) f (peers_of st)\<rparr>"
    and f: "\<forall>p. p_name (f p) = p_name p \<and> p_node_id (f p) = p_node_id p"
    using inner_touch [of "fst x" node st] by blast
  then show ?thesis
    using assms OpTouch f set_update_first_subset [of "\<lambda>p. eq_ignore_ascii_case (p_node_id p) node" f "peers_of st"]
    by (auto simp: image_iff subset_iff) (metis)+
qed (use assms in \<open>auto simp: inner_add_peer inner_add_rule inner_remove_rule inner_remove_peer split: if_splits\<close>)

lemma sys_peer_paired:
  assumes "(n, i) \<in> peer_ids (dh_state (fold sys_step es h))" and "(n, i) \<notin> peer_ids (dh_state h)"
  shows "\<exists>io p. SysPaired io p \<in> set es \<and> p_name p = n \<and> p_node_id p = i"
  using assms
proof (induction es rule: rev_induct)
  case (snoc e es)
  show ?case
  proof (cases "(n, i) \<in> peer_ids (dh_state (fold sys_step es h))")
    case False
    with snoc.prems obtain x where x: "sys_op e = Some x" "(n, i) \<in> peer_ids (io_step x (dh_state (fold sys_step es h)))"
      by (auto simp: sys_step_state split: option.splits)
    from peer_ids_step [OF x(2)] False obtain p where "snd x = OpAddPeer p" "p_name p = n" "p_node_id p = i" by blast
    moreover from this x(1) have "e = SysPaired (fst x) p"
      by (cases e) (auto simp: request_op_def split: option.splits ipc_method.splits sum.splits if_splits)
    ultimately show ?thesis by (intro exI [of _ "fst x"] exI [of _ p]) simp
  qed (use snoc in auto)
qed simp

text \<open>A name that is freed, taken by another node and granted a target.\<close>

lemma touch_same_peers:
  "map (\<lambda>p. (p_name p, p_node_id p)) (peers_of (touch_last_seen io n st)) = map (\<lambda>p. (p_name p, p_node_id p)) (peers_of st)
   \<and> rules_of (touch_last_seen io n st) = rules_of st"
proof -
  have same: "map (\<lambda>p. (p_name p, p_node_id p)) (update_first P f ps) = map (\<lambda>p. (p_name p, p_node_id p)) ps"
    if "\<forall>p. p_name (f p) = p_name p \<and> p_node_id (f p) = p_node_id p" for P f and ps :: "peer list"
    using that by (induction ps) auto
  obtain f where "st_inner (touch_last_seen io n st) =
      (st_inner st)\<lparr>ps_peers := update_first (\<lambda>p. eq_ignore_ascii_case (p_node_id p) n) f (peers_of st)\<rparr>"
    and "\<forall>p. p_name (f p) = p_name p \<and> p_node_id (f p) = p_node_id p" using inner_touch [of io n st] by blast
  with same show ?thesis by simp
qed

lemma name_reused:
  assumes "name \<in> p_name ` set (peers_of st)" and "length (peers_of st) \<le> MAX_PEERS" and "length (rules_of st) < MAX_RULES"
    and "p_name q = name" and "st' = snd (add_rule io3 name t (snd (add_peer io2 q (snd (remove_peer io1 name True st)))))"
  shows "peers_of st' = filter (\<lambda>p. p_name p \<noteq> name) (peers_of st) @ [q] \<and> rule_allows st' name t"
proof -
  let ?st2 = "snd (remove_peer io1 name True st)" and ?st3 = "snd (add_peer io2 q (snd (remove_peer io1 name True st)))"
  have two: "peers_of ?st2 = filter (\<lambda>p. p_name p \<noteq> name) (peers_of st)" "length (rules_of ?st2) < MAX_RULES"
    using assms(1,3) by (auto simp: inner_remove_peer intro: le_less_trans [OF length_filter_le])
  have "length (peers_of ?st2) < MAX_PEERS"
    using assms(1,2) two(1) length_filter_less [of _ "peers_of st" "\<lambda>p. p_name p \<noteq> name"] by fastforce
  then have three: "peers_of ?st3 = filter (\<lambda>p. p_name p \<noteq> name) (peers_of st) @ [q]" "length (rules_of ?st3) < MAX_RULES"
    using two assms(4) by (auto simp: inner_add_peer)
  then show ?thesis
    using assms(4,5) by (simp add: rule_allows_iff acl_add_rule inner_add_rule)
qed

section \<open>Laws: start\<close>

lemma spawn_main_endpoint_ok:
  assumes "spawn_main_endpoint io opts key st ses idle nf = Inr (ep, dp)"
  shows "build_endpoint io key [DATA_ALPN] RoleMain opts = Inr ep \<and> dp = data_plane_new st ses idle nf"
  using assms by (auto simp: spawn_main_endpoint_def rbind_eq_Inr map_err_def split: sum.splits)

section \<open>Properties\<close>

text \<open>A started daemon is consistent: the admin interface and the data plane hold the state that was
  loaded, the data endpoint was built with the daemon's key, the data protocol and the settings of
  the main role, the node id shown to the admin is that of the key the invites confirm with, and no
  invite and no session exists.\<close>

lemma daemon_start_consistent:
  assumes "daemon_start io cfg ntfy_file = Inr (h, ep, dp)"
  shows "\<exists>key. di_key io = Inr key
     \<and> state_load (di_toml_de io) (path_join (dc_data_dir cfg) ''state.toml'') (di_state_file io) = Inr (dh_state h)
     \<and> dp_state dp = dh_state h
     \<and> build_endpoint (di_net io) key [DATA_ALPN] RoleMain (dc_net_opts cfg) = Inr ep
     \<and> mg_server_node_id (dh_invites h) = di_public io key \<and> dh_node_id h = di_node_string io (di_public io key)
     \<and> pending_count (dh_invites h) = 0 \<and> dp_sessions dp = sessions_new \<and> dh_sessions h = sessions_new"
proof -
  from assms obtain key st where key: "di_key io = Inr key"
    and st: "state_load (di_toml_de io) (path_join (dc_data_dir cfg) ''state.toml'') (di_state_file io) = Inr st"
    and h: "h = daemon_handle_of io cfg key st ntfy_file"
    and sp: "spawn_main_endpoint (di_net io) (dc_net_opts cfg) key st sessions_new (dc_idle_timeout cfg) notifier_channel = Inr (ep, dp)"
    by (auto simp: daemon_start_def rbind_eq_Inr map_err_def Let_def split: sum.splits)
  with spawn_main_endpoint_ok [OF sp] show ?thesis
    by (auto simp: daemon_handle_of_def data_plane_new_def invite_manager_new_def pending_count_def)
qed

definition witness_daemon_io :: "(unit, unit) daemon_io" where
  "witness_daemon_io = \<lparr>di_key = Inr [1], di_public = id, di_node_string = (\<lambda>_. ''n''), di_toml_de = (\<lambda>_. Inl []),
     di_state_file = Inl IoNotFound,
     di_net = \<lparr>ni_parse_relay = (\<lambda>_. None), ni_parse_url = (\<lambda>_. None), ni_bind_addr = (\<lambda>_. None), ni_bind = None, ni_online_after = Some 2\<rparr>,
     di_version = ''v'', di_started = 0\<rparr>"

end
