(* ===== verification/Cli.thy ===== *)
theory Cli
  imports Ipc_Client Status_Table Client_Connect Client_Pair Daemon
begin

text \<open>
  The commands of the binary, \<open>tmite/src/main.rs\<close>: their arguments as \<open>clap\<close> has parsed
  them, what each does with the library and the daemon, and the exit status of the process.
\<close>

section \<open>Arguments\<close>

datatype ntfy_subcmd = NtEnable "string option" | NtDisable | NtTopic | NtTest "string option"

datatype peers_subcmd =
    PeersInvite string "u64 option" bool
  | PeersAllow string string
  | PeersRevoke string string
  | PeersLs
  | PeersRm string bool

datatype admin_subcmd = AdminStatus | AdminPeers peers_subcmd | AdminNtfy ntfy_subcmd

datatype command =
    CmdDaemon "string list" "string option" "u16 option" u64
  | CmdPair "string option" bool "string option"
  | CmdConnect string "string list" bool bool
  | CmdNodeId
  | CmdAdmin admin_subcmd

record cli =
  cli_verbose :: u8
  cli_data_dir :: "string option"
  cli_socket_path :: "string option"

datatype cli_error =
    CliIpc ipc_client_error
  | CliFs fs_error
  | CliUnknownServer string
  | CliNoForwards string
  | CliConnect connect_error
  | CliInvalidCode code_error
  | CliPrompt string
  | CliPair pair_error
  | CliDaemon daemon_error
  | CliFromValue string
  | CliNtfyDisabled

text \<open>The result of a command; \<open>None\<close> is a panic.\<close>

type_synonym cmd_result = "(cli_error, unit) result option"

definition net_opts_default :: net_opts where
  "net_opts_default = \<lparr>no_relay_urls = [], no_pkarr_url = None, no_bind_port = None\<rparr>"

definition client_data_dir :: "string option \<Rightarrow> cli \<Rightarrow> (fs_error, string) result" where
  "client_data_dir data_home cli =
     (case cli_data_dir cli of Some dir \<Rightarrow> Inr dir | None \<Rightarrow> default_client_data_dir data_home)"

definition daemon_socket_candidates :: "string option \<Rightarrow> cli \<Rightarrow> string list" where
  "daemon_socket_candidates runtime_dir cli = candidate_socket_paths runtime_dir (cli_socket_path cli)"

text \<open>The filter of the log when the environment gives none.\<close>

definition tracing_filter :: "u8 \<Rightarrow> string" where
  "tracing_filter verbose = (if verbose = 0 then ''warn'' else if verbose = 1 then ''info'' else ''trace'')"

section \<open>Admin commands\<close>

text \<open>An answered request, with what is printed for its result.\<close>

definition ipc_then ::
  "(ipc_client_error, 'j) result \<times> client_effect list \<Rightarrow> ('j \<Rightarrow> cmd_result \<times> client_effect list) \<Rightarrow> cmd_result \<times> client_effect list" where
  "ipc_then call k =
     (case call of
        (Inl e, effs) \<Rightarrow> (Some (Inl (CliIpc e)), effs)
      | (Inr v, effs) \<Rightarrow> map_prod id (\<lambda>out. effs @ out) (k v))"

abbreviation done_with :: "client_effect list \<Rightarrow> cmd_result \<times> client_effect list" where
  "done_with out \<equiv> (Some (Inr ()), out)"

fun invite_result_of :: "invite_end \<Rightarrow> cmd_result" where
  "invite_result_of InviteOk = Some (Inr ())"
| "invite_result_of (InviteErr e) = Some (Inl (CliIpc e))"
| "invite_result_of InvitePanic = None"

fun peers_cmd ::
  "'j json_lib \<Rightarrow> socket_io \<Rightarrow> (nat \<Rightarrow> string \<Rightarrow> (string, bool) result) \<Rightarrow> string list \<Rightarrow> peers_subcmd
     \<Rightarrow> cmd_result \<times> client_effect list" where
  "peers_cmd js sk ask sockets (PeersInvite name ttl yes) =
     map_prod invite_result_of id (invite_cmd js sk ask sockets name ttl yes)"
| "peers_cmd js sk ask sockets (PeersAllow peer target) =
     ipc_then (ipc_call js sk sockets ''peer.allow'' [(''peer'', ArgStr peer), (''target'', ArgStr target)])
       (\<lambda>v. done_with [Println (''rule added: '' @ jl_show js v)])"
| "peers_cmd js sk ask sockets (PeersRevoke peer target) =
     ipc_then (ipc_call js sk sockets ''peer.revoke'' [(''peer'', ArgStr peer), (''target'', ArgStr target)])
       (\<lambda>v. done_with [Println (if unwrap_or False (get_bool js v ''removed'') then ''rule removed'' else ''no such rule'')])"
| "peers_cmd js sk ask sockets PeersLs =
     ipc_then (ipc_call js sk sockets ''peer.ls'' []) (\<lambda>v. done_with [Println (jl_pretty js v)])"
| "peers_cmd js sk ask sockets (PeersRm peer force) =
     ipc_then (ipc_call js sk sockets ''peer.rm'' [(''peer'', ArgStr peer), (''force'', ArgBool force)])
       (\<lambda>v. done_with [if unwrap_or False (get_bool js v ''removed'') then PrintDebug ''peer '' peer '' removed''
                       else Println ''no such peer''])"

fun ntfy_cmd :: "'j json_lib \<Rightarrow> socket_io \<Rightarrow> string list \<Rightarrow> ntfy_subcmd \<Rightarrow> cmd_result \<times> client_effect list" where
  "ntfy_cmd js sk sockets (NtEnable server) =
     ipc_then (ipc_call js sk sockets ''ntfy.enable'' [(''server'', ArgOptStr server)])
       (\<lambda>v. done_with
          [Println ''ntfy topic created:'',
           Println (''  '' @ unwrap_or [] (get_str js v ''server_url'') @ ''/'' @ unwrap_or [] (get_str js v ''topic'')),
           Println ''Subscribe to this topic to receive notifications.'',
           Println ''Takes effect immediately; no daemon restart needed.''])"
| "ntfy_cmd js sk sockets NtDisable =
     ipc_then (ipc_call js sk sockets ''ntfy.disable'' [])
       (\<lambda>v. done_with [Println (if unwrap_or False (get_bool js v ''removed'') then ''ntfy notifications disabled''
                                else ''ntfy notifications were not enabled'')])"
| "ntfy_cmd js sk sockets NtTopic =
     ipc_then (ipc_call js sk sockets ''ntfy.status'' [])
       (\<lambda>v. if \<not> unwrap_or False (get_bool js v ''enabled'') then (Some (Inl CliNtfyDisabled), [])
            else done_with [Println (unwrap_or [] (get_str js v ''topic''))])"
| "ntfy_cmd js sk sockets (NtTest message) =
     ipc_then (ipc_call js sk sockets ''ntfy.test'' [(''message'', ArgOptStr message)])
       (\<lambda>v. done_with [Println ''test notification sent''])"

definition status_cmd ::
  "'j json_lib \<Rightarrow> ('j \<Rightarrow> (string, sessions_result) result) \<Rightarrow> socket_io \<Rightarrow> string list \<Rightarrow> cmd_result \<times> client_effect list" where
  "status_cmd js from_value sk sockets =
     ipc_then (ipc_call js sk sockets ''daemon.sessions'' [])
       (\<lambda>v. case from_value v of
              Inl e \<Rightarrow> (Some (Inl (CliFromValue e)), [])
            | Inr result \<Rightarrow> done_with (map Println (print_sessions_table result)))"

fun admin_cmd ::
  "'j json_lib \<Rightarrow> ('j \<Rightarrow> (string, sessions_result) result) \<Rightarrow> socket_io \<Rightarrow> (nat \<Rightarrow> string \<Rightarrow> (string, bool) result)
     \<Rightarrow> string list \<Rightarrow> admin_subcmd \<Rightarrow> cmd_result \<times> client_effect list" where
  "admin_cmd js from_value sk ask sockets AdminStatus = status_cmd js from_value sk sockets"
| "admin_cmd js from_value sk ask sockets (AdminPeers c) = peers_cmd js sk ask sockets c"
| "admin_cmd js from_value sk ask sockets (AdminNtfy c) = ntfy_cmd js sk sockets c"

section \<open>Pairing\<close>

fun show_code_error :: "code_error \<Rightarrow> string" where
  "show_code_error (WrongWordCount got) = ''expected exactly 5 words, got '' @ show_nat got"
| "show_code_error (UnknownWord w) = ''unknown word: '' @ w"
| "show_code_error LastWordInvalid = ''invalid final word''"
| "show_code_error ChecksumMismatch = ''checksum mismatch''"
| "show_code_error Malformed = ''malformed code''"

text \<open>\<open>prompt_code\<close>: the k-th answer at the prompt, trimmed.\<close>

definition prompt_code :: "(nat \<Rightarrow> (string, string) result) \<Rightarrow> nat \<Rightarrow> (cli_error, string) result" where
  "prompt_code prompt k = (case prompt k of Inl e \<Rightarrow> Inl (CliPrompt e) | Inr c \<Rightarrow> Inr (trim c))"

text \<open>The loop over codes: the result, the lines on the error stream, and how often it has asked.\<close>

function pair_code_loop ::
  "code_lib \<Rightarrow> (nat \<Rightarrow> (string, string) result) \<Rightarrow> string option \<Rightarrow> nat \<Rightarrow> nat
     \<Rightarrow> (cli_error, string) result \<times> client_effect list \<times> nat" where
  "pair_code_loop lib prompt code_opt attempts asked =
     (case (case code_opt of Some c \<Rightarrow> (Inr c, asked) | None \<Rightarrow> (prompt_code prompt asked, Suc asked)) of
        (Inl e, asked') \<Rightarrow> (Inl e, [], asked')
      | (Inr code, asked') \<Rightarrow>
          (case code_to_entropy lib code of
             Inr _ \<Rightarrow> (Inr code, [], asked')
           | Inl e \<Rightarrow>
               if Suc attempts \<ge> PAIR_MAX_ATTEMPTS then (Inl (CliInvalidCode e), [], asked')
               else (let (r, out, n) = pair_code_loop lib prompt None (Suc attempts) asked'
                     in (r, EPrintln (''tmite: '' @ show_code_error e @ ''; try again (''
                              @ show_nat (PAIR_MAX_ATTEMPTS - Suc attempts) @ ''/'' @ show_nat PAIR_MAX_ATTEMPTS
                              @ '' attempts left)'') # out, n))))"
  by pat_completeness auto
termination by (relation "measure (\<lambda>(_, _, _, attempts, _). PAIR_MAX_ATTEMPTS - attempts)") (auto simp: PAIR_MAX_ATTEMPTS_def)

declare pair_code_loop.simps [simp del]

text \<open>The command: its result, the exit code it stored, the effects, and the store of servers.\<close>

fun pair_prompt_ui :: "pair_ui_call \<Rightarrow> client_effect list" where
  "pair_prompt_ui (PuInfo msg) = [Println msg]"
| "pair_prompt_ui (PuShowNodeId own_id) = [Println ''This client's NodeId:'', Println (''  '' @ grouped_hex own_id)]"
| "pair_prompt_ui (PuPaired name server_id) = [PrintDebug ''Paired as '' name '' on:'', Println (''  '' @ grouped_hex server_id)]"

definition pair_cmd ::
  "('r, 'u) pair_io \<Rightarrow> (bytes \<Rightarrow> bytes) \<Rightarrow> (nat \<Rightarrow> (string, string) result) \<Rightarrow> (fs_error, string) result \<Rightarrow> string option \<Rightarrow> string option
     \<Rightarrow> string option \<Rightarrow> cmd_result \<times> int \<times> client_effect list \<times> string option" where
  "pair_cmd io public prompt data_dir code name file =
     (let name' = (case name of Some n \<Rightarrow> if trim n = [] then None else Some (trim n) | None \<Rightarrow> None) in
      case pair_code_loop (pi_lib io) prompt code 0 0 of
        (Inl (CliInvalidCode e), out, _) \<Rightarrow> (Some (Inl (CliInvalidCode e)), 2, out, file)
      | (Inl e, out, _) \<Rightarrow> (Some (Inl e), 0, out, file)
      | (Inr code', out, _) \<Rightarrow>
          (case data_dir of
             Inl e \<Rightarrow> (Some (Inl (CliFs e)), 0, out, file)
           | Inr _ \<Rightarrow>
               (let params = \<lparr>pp_code = code', pp_net_opts = net_opts_default, pp_name = name'\<rparr>;
                    out' = out @ concat (map pair_prompt_ui (pair_ui_calls io public params file)) in
                case pair_run io params file of
                  (Inr _, file') \<Rightarrow> (Some (Inr ()), 0, out', file')
                | (Inl e, file') \<Rightarrow> (Some (Inl (CliPair e)), exit_code e, out', file'))))"

section \<open>Connecting\<close>

record ('r, 'u) connect_env =
  xc_toml_de :: "string \<Rightarrow> (string, client_store) result"
  xc_toml_ser :: "client_store \<Rightarrow> (string, string) result"
  xc_read_err :: "io_error option"
  xc_mkdir :: "io_error option"
  xc_fs :: fs_outcome
  xc_connect :: "('r, 'u) connect_io"
  xc_terminal :: bool

fun parse_specs :: "string list \<Rightarrow> (connect_error, fwd_spec list) result" where
  "parse_specs [] = Inr []"
| "parse_specs (s # ss) = rbind (parse_fwd_spec s) (\<lambda>spec. rbind (parse_specs ss) (\<lambda>specs. Inr (spec # specs)))"

text \<open>\<open>connect::run\<close> reads the store again; it returns when start-up failed, or after the session.\<close>

definition connect_run :: "('r, 'u) connect_env \<Rightarrow> string \<Rightarrow> fwd_spec list \<Rightarrow> string option \<Rightarrow> cmd_result" where
  "connect_run env name specs file =
     (case connect_start ((xc_connect env)\<lparr>ci_store := store_load (xc_toml_de env) (file_read (xc_read_err env) file)\<rparr>)
             name specs net_opts_default of
        None \<Rightarrow> None
      | Some (Inl e) \<Rightarrow> Some (Inl (CliConnect e))
      | Some (Inr _) \<Rightarrow> Some (Inr ()))"

text \<open>From the forwards to the session, with the store as it is after saving.\<close>

definition connect_with ::
  "('r, 'u) connect_env \<Rightarrow> string \<Rightarrow> string list \<Rightarrow> bool \<Rightarrow> client_store \<Rightarrow> string option \<Rightarrow> cmd_result \<times> client_effect list" where
  "connect_with env name fwd no_tui store file =
     (let spec_strs = (if fwd = [] then (case store_get store name of Some e \<Rightarrow> se_forwards e | None \<Rightarrow> []) else fwd) in
      if spec_strs = [] then (Some (Inl (CliNoForwards name)), [])
      else case parse_specs spec_strs of
        Inl e \<Rightarrow> (Some (Inl (CliConnect e)), [])
      | Inr specs \<Rightarrow>
          (connect_run env name specs file,
           if \<not> no_tui \<and> xc_terminal env then [] else [Println (''Connecting to '' @ name @ ''...'')]))"

definition connect_cmd ::
  "('r, 'u) connect_env \<Rightarrow> (fs_error, string) result \<Rightarrow> string \<Rightarrow> string list \<Rightarrow> bool \<Rightarrow> bool \<Rightarrow> string option
     \<Rightarrow> cmd_result \<times> client_effect list \<times> string option" where
  "connect_cmd env data_dir name fwd save_defaults no_tui file =
     (case data_dir of
        Inl e \<Rightarrow> (Some (Inl (CliFs e)), [], file)
      | Inr _ \<Rightarrow>
      (case store_load (xc_toml_de env) (file_read (xc_read_err env) file) of
         Inl e \<Rightarrow> (Some (Inl (CliFs e)), [], file)
       | Inr store \<Rightarrow>
           if store_get store name = None then (Some (Inl (CliUnknownServer name)), [], file)
           else if save_defaults then
             (let store' = snd (set_forwards name fwd store) in
              case store_save (xc_toml_ser env) (xc_mkdir env) (xc_fs env) store' file of
                (Inl e, file') \<Rightarrow> (Some (Inl (CliFs e)), [], file')
              | (Inr _, file') \<Rightarrow>
                  (let (r, out) = connect_with env name fwd no_tui store' file'
                   in (r, Println ((if fwd \<noteq> [] then ''saved'' else ''cleared'') @ '' default forwards for '' @ name) # out, file')))
           else (let (r, out) = connect_with env name fwd no_tui store file in (r, out, file))))"

section \<open>The process\<close>

definition node_id_cmd ::
  "(bytes \<Rightarrow> bytes) \<Rightarrow> key_io \<Rightarrow> bytes \<Rightarrow> (fs_error, string) result \<Rightarrow> string option
     \<Rightarrow> cmd_result \<times> client_effect list \<times> string option" where
  "node_id_cmd public io generated data_dir key_file =
     (case data_dir of
        Inl e \<Rightarrow> (Some (Inl (CliFs e)), [], key_file)
      | Inr _ \<Rightarrow>
          (case load_or_create_keypair io generated key_file of
             (Inl e, key_file') \<Rightarrow> (Some (Inl (CliFs e)), [], key_file')
           | (Inr key, key_file') \<Rightarrow> (Some (Inr ()), [Println (grouped_hex (public key))], key_file')))"

definition daemon_config_of ::
  "string option \<Rightarrow> cli \<Rightarrow> string list \<Rightarrow> string option \<Rightarrow> u16 option \<Rightarrow> u64 \<Rightarrow> daemon_config" where
  "daemon_config_of runtime_dir cli relays pkarr port idle_timeout =
     \<lparr>dc_data_dir = (case cli_data_dir cli of Some d \<Rightarrow> d | None \<Rightarrow> ''/var/lib/tmite''),
      dc_socket_path = (case cli_socket_path cli of Some p \<Rightarrow> p | None \<Rightarrow> default_socket_path runtime_dir),
      dc_idle_timeout = secs (unat idle_timeout),
      dc_net_opts = \<lparr>no_relay_urls = relays, no_pkarr_url = pkarr, no_bind_port = port\<rparr>\<rparr>"

text \<open>What the process meets, and the two files of the client.\<close>

record ('j, 'r, 'u) cli_env =
  xe_js :: "'j json_lib"
  xe_from_value :: "'j \<Rightarrow> (string, sessions_result) result"
  xe_socket :: socket_io
  xe_ask :: "nat \<Rightarrow> string \<Rightarrow> (string, bool) result"
  xe_runtime_dir :: "string option"
  xe_data_home :: "string option"
  xe_key_io :: key_io
  xe_key_gen :: bytes
  xe_public :: "bytes \<Rightarrow> bytes"
  xe_prompt :: "nat \<Rightarrow> (string, string) result"
  xe_pair :: "('r, 'u) pair_io"
  xe_connect :: "('r, 'u) connect_env"
  xe_daemon :: "('r, 'u) daemon_io"
  xe_ntfy_file :: "string option"

record cli_files =
  xf_servers :: "string option"
  xf_key :: "string option"

text \<open>The match of \<open>main\<close>: the result, the stored exit code, the effects and the files.\<close>

fun command_run ::
  "('j, 'r, 'u) cli_env \<Rightarrow> cli \<Rightarrow> command \<Rightarrow> cli_files \<Rightarrow> cmd_result \<times> int \<times> client_effect list \<times> cli_files" where
  "command_run env cli (CmdDaemon relays pkarr port idle) fs =
     (case daemon_start (xe_daemon env) (daemon_config_of (xe_runtime_dir env) cli relays pkarr port idle) (xe_ntfy_file env) of
        Inl e \<Rightarrow> (Some (Inl (CliDaemon e)), 0, [], fs)
      | Inr _ \<Rightarrow> (Some (Inr ()), 0, [], fs))"
| "command_run env cli (CmdAdmin c) fs =
     (let (r, out) = admin_cmd (xe_js env) (xe_from_value env) (xe_socket env) (xe_ask env)
                       (daemon_socket_candidates (xe_runtime_dir env) cli) c
      in (r, 0, out, fs))"
| "command_run env cli (CmdPair code yes name) fs =
     (let (r, ec, out, file) = pair_cmd (xe_pair env) (xe_public env) (xe_prompt env) (client_data_dir (xe_data_home env) cli) code name (xf_servers fs)
      in (r, ec, out, fs\<lparr>xf_servers := file\<rparr>))"
| "command_run env cli (CmdConnect name fwd save no_tui) fs =
     (let (r, out, file) = connect_cmd (xe_connect env) (client_data_dir (xe_data_home env) cli) name fwd save no_tui (xf_servers fs)
      in (r, 0, out, fs\<lparr>xf_servers := file\<rparr>))"
| "command_run env cli CmdNodeId fs =
     (let (r, out, file) = node_id_cmd (xe_public env) (xe_key_io env) (xe_key_gen env) (client_data_dir (xe_data_home env) cli) (xf_key fs)
      in (r, 0, out, fs\<lparr>xf_key := file\<rparr>))"

text \<open>The exit status: a panic has Rust's 101, success 0, an error the stored code or at least 1.\<close>

definition exit_status :: "cmd_result \<Rightarrow> int \<Rightarrow> int" where
  "exit_status r stored = (case r of None \<Rightarrow> 101 | Some (Inr _) \<Rightarrow> 0 | Some (Inl _) \<Rightarrow> max stored 1)"

definition main_exit :: "('j, 'r, 'u) cli_env \<Rightarrow> cli \<Rightarrow> command \<Rightarrow> cli_files \<Rightarrow> int" where
  "main_exit env cli cmd fs = (let (r, ec, _, _) = command_run env cli cmd fs in exit_status r ec)"

section \<open>Laws\<close>

lemma parse_specs_ok:
  "parse_specs ss = Inr specs \<longleftrightarrow> map parse_fwd_spec ss = map Inr specs"
proof (induction ss arbitrary: specs)
  case (Cons s ss)
  then show ?case by (cases specs) (auto simp: rbind_eq_Inr)
qed auto

text \<open>The codes a run of the loop looks at, if every prompt is answered: the one on the command line
  first, then what is typed.\<close>

definition candidates :: "(nat \<Rightarrow> string) \<Rightarrow> string option \<Rightarrow> string list" where
  "candidates typed code =
     (case code of Some c \<Rightarrow> [c, trim (typed 0), trim (typed 1)] | None \<Rightarrow> [trim (typed 0), trim (typed 1), trim (typed 2)])"

abbreviation valid_code :: "code_lib \<Rightarrow> string \<Rightarrow> bool" where
  "valid_code lib c \<equiv> is_ok (code_to_entropy lib c)"

lemma code_loop_step:
  assumes "prompt = (\<lambda>k. Inr (typed k))"
  shows "pair_code_loop lib prompt code_opt attempts asked =
     (let c = (case code_opt of Some c \<Rightarrow> c | None \<Rightarrow> trim (typed asked));
          asked' = (if code_opt = None then Suc asked else asked)
      in case code_to_entropy lib c of
           Inr _ \<Rightarrow> (Inr c, [], asked')
         | Inl e \<Rightarrow>
             if 2 \<le> attempts then (Inl (CliInvalidCode e), [], asked')
             else (let (r, out, n) = pair_code_loop lib prompt None (Suc attempts) asked'
                     in (r, EPrintln (''tmite: '' @ show_code_error e @ ''; try again (''
                              @ show_nat (PAIR_MAX_ATTEMPTS - Suc attempts) @ ''/'' @ show_nat PAIR_MAX_ATTEMPTS
                              @ '' attempts left)'') # out, n)))"
  by (subst pair_code_loop.simps)
     (auto simp: prompt_code_def PAIR_MAX_ATTEMPTS_def Let_def assms split: option.split sum.split)

lemma code_loop_asked:
  "asked \<le> snd (snd (pair_code_loop lib prompt code_opt attempts asked))
   \<and> snd (snd (pair_code_loop lib prompt code_opt attempts asked))
       \<le> asked + (if code_opt = None then 1 else 0) + (PAIR_MAX_ATTEMPTS - Suc attempts)"
proof (induction lib prompt code_opt attempts asked rule: pair_code_loop.induct)
  case (1 lib prompt code_opt attempts asked)
  show ?case
  proof (cases "case code_opt of Some c \<Rightarrow> (Inr c, asked) | None \<Rightarrow> (prompt_code prompt asked, Suc asked)")
    case (Pair x asked')
    have le: "asked \<le> asked'" "asked' = asked + (if code_opt = None then 1 else 0)"
      using Pair by (auto split: option.splits)
    show ?thesis
    proof (cases "\<exists>code e. x = Inr code \<and> code_to_entropy lib code = Inl e \<and> Suc attempts < PAIR_MAX_ATTEMPTS")
      case True
      then obtain code e where x: "x = Inr code" "code_to_entropy lib code = Inl e" "Suc attempts < PAIR_MAX_ATTEMPTS" by blast
      with 1 [OF Pair [symmetric] x(1,2)] le show ?thesis
        by (subst (1 2) pair_code_loop.simps) (auto simp: Pair case_prod_unfold Let_def)
    next
      case False
      with le show ?thesis
        by (subst (1 2) pair_code_loop.simps) (auto simp: Pair not_less split: sum.splits)
    qed
  qed
qed

lemma command_code:
  "fst (snd (command_run env cli cmd fs)) \<noteq> 0 \<Longrightarrow> \<exists>code yes name. cmd = CmdPair code yes name"
  by (cases cmd) (auto simp: case_prod_unfold Let_def split: sum.splits)

text \<open>What \<open>tmite pair\<close> stores for its error; the questions end only in an invalid code or a failed
  prompt.\<close>

lemma code_loop_errors:
  "fst (pair_code_loop lib prompt code attempts asked) = Inl e \<Longrightarrow> (\<exists>x. e = CliInvalidCode x) \<or> (\<exists>m. e = CliPrompt m)"
proof (induction lib prompt code attempts asked rule: pair_code_loop.induct)
  case (1 lib prompt code attempts asked)
  from 1(2) show ?case
    unfolding pair_code_loop.simps [of lib prompt code attempts asked]
    by (auto simp: case_prod_unfold Let_def prompt_code_def 1(1) split: option.splits sum.splits if_splits)
qed

fun stored_code :: "cli_error \<Rightarrow> int" where
  "stored_code (CliInvalidCode _) = 2"
| "stored_code (CliPair e) = exit_code e"
| "stored_code _ = 0"

lemma pair_cmd_code:
  "fst (pair_cmd io public prompt data_dir code name file) = Some (Inl e) \<Longrightarrow>
     fst (snd (pair_cmd io public prompt data_dir code name file)) = stored_code e"
  using code_loop_errors [of "pi_lib io" prompt code 0 0]
  by (auto simp: pair_cmd_def Let_def split: prod.splits sum.splits cli_error.splits)

section \<open>Properties\<close>



definition witness_store :: "string list \<Rightarrow> client_store" where
  "witness_store fwd = \<lparr>cs_version = 1, cs_servers = [\<lparr>se_name = ''s'', se_node_id = ''srv'', se_paired_at = [], se_forwards = fwd\<rparr>]\<rparr>"

definition witness_connect_env :: "(unit, unit) connect_env" where
  "witness_connect_env = \<lparr>xc_toml_de = (\<lambda>t. Inr (witness_store (if t = ''new'' then [''x''] else []))),
     xc_toml_ser = (\<lambda>_. Inr ''new''), xc_read_err = None, xc_mkdir = None, xc_fs = FsOk, xc_connect = witness_connect_io,
     xc_terminal = False\<rparr>"

definition witness_cli_env :: "(string, unit, unit) cli_env" where
  "witness_cli_env = \<lparr>xe_js = witness_json, xe_from_value = (\<lambda>_. Inl ''e''), xe_socket = witness_socket [], xe_ask = (\<lambda>_ _. Inr False),
     xe_runtime_dir = None, xe_data_home = None,
     xe_key_io = \<lparr>ki_read_err = None, ki_mkdir = None, ki_open = None, ki_write = None, ki_newline = None\<rparr>, xe_key_gen = [],
     xe_public = id, xe_prompt = (\<lambda>_. Inl ''no tty''), xe_pair = witness_pair_io Never Never, xe_connect = witness_connect_env,
     xe_daemon = witness_daemon_io, xe_ntfy_file = None\<rparr>"


text \<open>\<open>--save-defaults\<close> stores forwards before they are looked at: with a specification that does
  not parse the command fails, but the file already has it as the server's default, so that the next
  start without \<open>--fwd\<close> fails too.\<close>

lemma bad_spec_saved:
  assumes "store_load (xc_toml_de env) (file_read (xc_read_err env) file) = Inr store"
    and "store_get store name \<noteq> None" and "parse_specs fwd = Inl e" and "fwd \<noteq> []"
    and "xc_toml_ser env (snd (set_forwards name fwd store)) = Inr contents" and "xc_mkdir env = None" and "xc_fs env = FsOk"
    and "xc_toml_de env contents = Inr (snd (set_forwards name fwd store))" and "xc_read_err env = None"
  shows "let (r, _, file') = connect_cmd env (Inr d) name fwd True no_tui file in
     r = Some (Inl (CliConnect e)) \<and> file' = Some contents
     \<and> fst (connect_cmd env (Inr d) name [] False no_tui file') = Some (Inl (CliConnect e))"
proof -
  let ?store = "snd (set_forwards name fwd store)"
  obtain s where s: "store_get store name = Some s" using assms(2) by blast
  then have "list_ex (\<lambda>s. se_name s = name) (cs_servers store)"
    using find_Some_imp by (fastforce simp: store_get_def list_ex_iff)
  with s have get: "store_get ?store name = Some (s\<lparr>se_forwards := fwd\<rparr>)"
    by (simp add: store_get_def set_forwards_def find_update_first)
  have first: "connect_cmd env (Inr d) name fwd True no_tui file =
      (Some (Inl (CliConnect e)), [Println ((if fwd \<noteq> [] then ''saved'' else ''cleared'') @ '' default forwards for '' @ name)], Some contents)"
    using assms s by (simp add: connect_cmd_def store_save_def connect_with_def Let_def)
  have "fst (connect_cmd env (Inr d) name [] False no_tui (Some contents)) = Some (Inl (CliConnect e))"
    using assms get by (simp add: connect_cmd_def file_read_def store_load_def map_err_def connect_with_def Let_def)
  with first show ?thesis by simp
qed

lemma witness_bad_spec: "parse_specs [''x''] = Inl (BadSpec ''x'' ''expected [ADDR:]PORT:TARGET'')"
  by (simp add: parse_fwd_spec_def)

lemma bad_spec_saved_example:
  "fst (connect_cmd witness_connect_env (Inr ''d'') ''s'' [] False True (Some ''new'')) =
     Some (Inl (CliConnect (BadSpec ''x'' ''expected [ADDR:]PORT:TARGET'')))"
proof -
  let ?e = "BadSpec ''x'' ''expected [ADDR:]PORT:TARGET''"
  have saved: "snd (set_forwards ''s'' [''x''] (witness_store [])) = witness_store [''x'']"
    by (simp add: set_forwards_def witness_store_def)
  have load: "store_load (xc_toml_de witness_connect_env) (file_read (xc_read_err witness_connect_env) (Some ''old'')) = Inr (witness_store [])"
    by (simp add: witness_connect_env_def store_load_def file_read_def map_err_def)
  have get: "store_get (witness_store []) ''s'' \<noteq> None" by (simp add: store_get_def witness_store_def)
  have env: "xc_toml_ser witness_connect_env (snd (set_forwards ''s'' [''x''] (witness_store []))) = Inr ''new''"
    "xc_mkdir witness_connect_env = None" "xc_fs witness_connect_env = FsOk" "xc_read_err witness_connect_env = None"
    "xc_toml_de witness_connect_env ''new'' = Inr (snd (set_forwards ''s'' [''x''] (witness_store [])))"
    by (simp_all add: witness_connect_env_def saved)
  from bad_spec_saved [OF load get witness_bad_spec _ env(1-3,5,4), of "''d''" True]
  show ?thesis by (auto simp: case_prod_unfold Let_def)
qed

end
