(* ===== verification/Admin_Path.thy ===== *)
theory Admin_Path
  imports Cli Daemon
begin

text \<open>
  An admin command and the daemon behind its socket: the line the command writes (\<open>ipc_call\<close> of
  \<open>tmite/src/main.rs\<close>) is read and dispatched by the daemon (\<open>handle_conn\<close> and \<open>dispatch\<close> of
  \<open>tmite-core/src/daemon/ipc.rs\<close>), and the lines of its replies go back to the command.  The two
  sides meet only in the text on the socket, so what is needed of the JSON library is that each side
  reads what the other wrote.
\<close>

section \<open>The daemon at the other end\<close>

text \<open>The replies to one line, written in order, each as one line; the daemon's handlers run one after
  the other.\<close>

fun dispatch_replies :: "'p ipc_env \<Rightarrow> 'p request list \<Rightarrow> daemon_handle \<Rightarrow> ipc_value reply list \<times> daemon_handle" where
  "dispatch_replies env [] h = ([], h)"
| "dispatch_replies env (req # reqs) h =
     (let (r, h1) = dispatch env req h; (rs, h2) = dispatch_replies env reqs h1 in (r # rs, h2))"

definition daemon_answers ::
  "(string \<Rightarrow> (string, 'p request) result) \<Rightarrow> (ipc_value reply \<Rightarrow> string) \<Rightarrow> 'p ipc_env \<Rightarrow> string \<Rightarrow> daemon_handle
     \<Rightarrow> ipc_lines \<times> daemon_handle" where
  "daemon_answers from_str to_string env line h =
     (let (reqs, bad) = handle_conn from_str [line];
          (replies, h') = dispatch_replies env reqs h
      in (map (Inr \<circ> to_string) (replies @ (case bad of Some r \<Rightarrow> [r] | None \<Rightarrow> [])), h'))"

text \<open>The client reads a reply as it was written, up to the representation of its result.\<close>

definition reads_reply :: "'j json_lib \<Rightarrow> (ipc_value reply \<Rightarrow> string) \<Rightarrow> ipc_value reply \<Rightarrow> bool" where
  "reads_reply js to_string r =
     (case jl_reply js (trim (to_string r)) of
        Inl _ \<Rightarrow> False
      | Inr r' \<Rightarrow> rp_id r' = rp_id r \<and> rp_error r' = rp_error r \<and> (rp_result r' = None) = (rp_result r = None))"

section \<open>Laws\<close>

lemma daemon_answers_one:
  assumes "from_str (trim line) = Inr req" and "method_parse (rq_method req) \<noteq> None" and "trim line \<noteq> []"
  shows "daemon_answers from_str to_string env line h = ([Inr (to_string (fst (dispatch env req h)))], snd (dispatch env req h))"
  using assms by (auto simp: daemon_answers_def parse_request_def case_prod_unfold Let_def)

lemma daemon_answers_blank: "trim line = [] \<Longrightarrow> daemon_answers from_str to_string env line h = ([], h)"
  by (simp add: daemon_answers_def)

text \<open>A call that succeeded had its request dispatched, and the method gave a result.\<close>

lemma ipc_call_served:
  assumes "fst (ipc_call js sk paths method params) = Inr v"
    and "from_str (trim (ipc_request js 1 method params)) = Inr req"
    and "rq_id req = 1" and "method_parse (rq_method req) = Some m"
    and "daemon_answers from_str to_string env (ipc_request js 1 method params) h = (sk_lines sk, h')"
    and "reads_reply js to_string (fst (dispatch env req h))"
  shows "\<exists>w. dispatch_method m env req h = (Inr w, h')"
proof -
  let ?line = "ipc_request js 1 method params" and ?r = "fst (dispatch env req h)"
  have ok: "await_reply js (sk_lines sk) = Inr v"
    using assms(1) by (auto simp: ipc_call_def split: sum.splits option.splits)
  then have "trim ?line \<noteq> []" using assms(5) by (auto simp: daemon_answers_blank)
  then have lines: "sk_lines sk = [Inr (to_string ?r)]" and h': "h' = snd (dispatch env req h)"
    using daemon_answers_one [of from_str ?line req to_string env h] assms(2,4,5) by auto
  have "rp_error ?r = None"
    using ok assms(6) unfolding lines
    by (auto simp: reads_reply_def map_err_def split: sum.splits if_splits option.splits)
  then show ?thesis
    using h' assms(4) by (auto simp: dispatch_def reply_error_def split: sum.splits prod.splits)
qed

lemma add_rule_grants:
  assumes "add_rule io p t st = (Inr i, st')"
  shows "rule_allows st' p t"
proof -
  have "p \<in> p_name ` set (peers_of st)" "length (rules_of st) < MAX_RULES"
    using assms by (auto simp: add_rule_def list_ex_iff not_le split: if_splits)
  with acl_add_rule [of io p t st] assms show ?thesis by (simp add: rule_allows_iff)
qed

lemma remove_rule_withdraws:
  assumes "remove_rule io p t st = (Inr b, st')"
  shows "\<not> rule_allows st' p t"
proof -
  have "p \<in> p_name ` set (peers_of st)"
    using assms by (auto simp: remove_rule_def list_ex_iff split: if_splits)
  with acl_remove_rule [of io p t st] assms show ?thesis by (simp add: rule_allows_iff)
qed

lemma peers_cmd_ok:
  assumes "fst (ipc_then call k) = Some (Inr ())"
  shows "\<exists>v. fst call = Inr v"
  using assms by (auto simp: ipc_then_def split: prod.splits sum.splits)

section \<open>Properties\<close>

text \<open>A socket with such a daemon behind it, for the witnesses.\<close>

definition line_json :: "string json_lib" where
  "line_json = witness_json\<lparr>jl_render := (\<lambda>_ method _. ''x''), jl_reply := (\<lambda>_. Inr (reply_result 1 ''v''))\<rparr>"

abbreviation one_peer :: daemon_handle where
  "one_peer \<equiv> witness_handle\<lparr>dh_state := witness_st\<lparr>st_inner := witness_state\<rparr>\<rparr>"

abbreviation both_env :: "unit ipc_env" where
  "both_env \<equiv> witness_env\<lparr>en_revoke_params := (\<lambda>_. Inr \<lparr>rv_peer = ''a'', rv_target = ''h:1''\<rparr>)\<rparr>"

abbreviation ok_line :: "ipc_lines" where
  "ok_line \<equiv> [Inr ''ok'']"

abbreviation one_request :: "string \<Rightarrow> unit request" where
  "one_request method \<equiv> \<lparr>rq_id = 1, rq_method = method, rq_params = ()\<rparr>"

lemma trim_x: "trim ''x'' = ''x''"
  by code_simp

lemma witness_cmd_ok:
  "fst (peers_cmd line_json (witness_socket ok_line) ask [''s''] (PeersAllow p t)) = Some (Inr ())"
  "fst (peers_cmd line_json (witness_socket ok_line) ask [''s''] (PeersRevoke p t)) = Some (Inr ())"
  by (simp_all add: ipc_then_def ipc_call_def ipc_connect_def witness_socket_def line_json_def map_err_def reply_result_def)

lemma witness_line:
  "ipc_request line_json 1 method args = ''x''"
  by (simp add: ipc_request_def line_json_def)

lemma witness_answers:
  assumes "method_parse method \<noteq> None"
  shows "daemon_answers (\<lambda>_. Inr (one_request method)) (\<lambda>_. ''ok'') both_env ''x'' h
    = (ok_line, snd (dispatch both_env (one_request method) h))"
  using assms daemon_answers_one [of "\<lambda>_. Inr (one_request method)" "''x''" "one_request method" "\<lambda>_. ''ok''" both_env h]
  by (simp add: trim_x)

lemma witness_reads:
  assumes "method_parse method = Some m" and "dispatch_method m both_env (one_request method) h = (Inr w, h')"
  shows "reads_reply line_json (\<lambda>_. ''ok'') (fst (dispatch both_env (one_request method) h))"
  using assms by (simp add: reads_reply_def dispatch_def line_json_def reply_result_def)

text \<open>C5: an admin who sees \<open>tmite admin peers allow\<close> succeed has opened the way: for a daemon behind the
  socket and a JSON library with which each side reads what the other wrote, the daemon then has the
  rule, and a FORWARD for the target by that peer is dialled.\<close>

theorem allow_cmd_takes_effect:
  assumes "fst (peers_cmd js sk ask sockets (PeersAllow peer target)) = Some (Inr ())"
    and "from_str (trim (ipc_request js 1 ''peer.allow'' [(''peer'', ArgStr peer), (''target'', ArgStr target)])) =
       Inr \<lparr>rq_id = 1, rq_method = ''peer.allow'', rq_params = pv\<rparr>"
    and "en_allow_params env pv = Inr \<lparr>ap_peer = peer, ap_target = target\<rparr>"
    and "daemon_answers from_str to_string env
       (ipc_request js 1 ''peer.allow'' [(''peer'', ArgStr peer), (''target'', ArgStr target)]) h = (sk_lines sk, h')"
    and "reads_reply js to_string (fst (dispatch env \<lparr>rq_id = 1, rq_method = ''peer.allow'', rq_params = pv\<rparr> h))"
  shows "rule_allows (dh_state h') peer target
    \<and> Dial target \<in> set (handle_stream (Inr (TYPE_FORWARD, Forward target)) peer (dh_state h') dial ok_sent)"
proof -
  let ?req = "\<lparr>rq_id = 1, rq_method = ''peer.allow'', rq_params = pv\<rparr>"
  have m: "method_parse ''peer.allow'' = Some PeerAllow" by (simp add: method_parse_def)
  obtain v where "fst (ipc_call js sk sockets ''peer.allow'' [(''peer'', ArgStr peer), (''target'', ArgStr target)]) = Inr v"
    using assms(1) peers_cmd_ok by fastforce
  from ipc_call_served [OF this assms(2) _ _ assms(4,5), of PeerAllow] m
  obtain w where "dispatch_allow env ?req h = (Inr w, h')" by auto
  with assms(3) obtain i st where "valid_target target" "add_rule (en_state_io env) peer target (dh_state h) = (Inr i, st)"
    "dh_state h' = st"
    by (auto simp: dispatch_allow_def split: if_splits sum.splits prod.splits)
  with add_rule_grants show ?thesis by (auto simp: handle_stream_dial_iff)
qed

theorem allow_cmd_takes_effect_witness:
  "Dial ''h:1'' \<in> set (handle_stream (Inr (TYPE_FORWARD, Forward ''h:1'')) ''a''
     (dh_state (snd (dispatch both_env (one_request ''peer.allow'') one_peer))) ConnectHangs True)"
proof -
  have m: "method_parse ''peer.allow'' = Some PeerAllow" by (simp add: method_parse_def)
  have "\<exists>i st. add_rule (en_state_io both_env) ''a'' ''h:1'' (dh_state one_peer) = (Inr i, st)"
    by (simp add: add_rule_def witness_env_def witness_state_def MAX_RULES_def persist_locked_def witness_io_def)
  then obtain w h' where "dispatch_method PeerAllow both_env (one_request ''peer.allow'') one_peer = (Inr w, h')"
    by (auto simp: dispatch_allow_def witness_env_def valid_target_h1)
  note reads = witness_reads [OF m this]
  from allow_cmd_takes_effect [OF witness_cmd_ok(1) _ _ _ reads, of "\<lambda>_. Inr (one_request ''peer.allow'')"
      "''a''" "''h:1''"] witness_answers [of "''peer.allow''" one_peer] m
  show ?thesis by (simp add: witness_line witness_socket_def witness_env_def)
qed

text \<open>C6: an admin who sees \<open>tmite admin peers revoke\<close> succeed, whether it printed that a rule was removed
  or that there was none, has closed the way: under the same conditions the daemon has no such rule,
  and no stream of that peer makes it dial the target.\<close>

theorem revoke_cmd_takes_effect:
  assumes "fst (peers_cmd js sk ask sockets (PeersRevoke peer target)) = Some (Inr ())"
    and "from_str (trim (ipc_request js 1 ''peer.revoke'' [(''peer'', ArgStr peer), (''target'', ArgStr target)])) =
       Inr \<lparr>rq_id = 1, rq_method = ''peer.revoke'', rq_params = pv\<rparr>"
    and "en_revoke_params env pv = Inr \<lparr>rv_peer = peer, rv_target = target\<rparr>"
    and "daemon_answers from_str to_string env
       (ipc_request js 1 ''peer.revoke'' [(''peer'', ArgStr peer), (''target'', ArgStr target)]) h = (sk_lines sk, h')"
    and "reads_reply js to_string (fst (dispatch env \<lparr>rq_id = 1, rq_method = ''peer.revoke'', rq_params = pv\<rparr> h))"
  shows "\<not> rule_allows (dh_state h') peer target
    \<and> Dial target \<notin> set (handle_stream f peer (dh_state h') dial ok_sent)"
proof -
  let ?req = "\<lparr>rq_id = 1, rq_method = ''peer.revoke'', rq_params = pv\<rparr>"
  have m: "method_parse ''peer.revoke'' = Some PeerRevoke" by (simp add: method_parse_def)
  obtain v where "fst (ipc_call js sk sockets ''peer.revoke'' [(''peer'', ArgStr peer), (''target'', ArgStr target)]) = Inr v"
    using assms(1) peers_cmd_ok by fastforce
  from ipc_call_served [OF this assms(2) _ _ assms(4,5), of PeerRevoke] m
  obtain w where "dispatch_revoke env ?req h = (Inr w, h')" by auto
  with assms(3) obtain b st where "remove_rule (en_state_io env) peer target (dh_state h) = (Inr b, st)"
    "dh_state h' = st"
    by (auto simp: dispatch_revoke_def split: if_splits sum.splits prod.splits)
  with remove_rule_withdraws show ?thesis by (auto simp: handle_stream_dial_iff)
qed

definition one_rule :: daemon_handle where
  "one_rule = one_peer\<lparr>dh_state := witness_st\<lparr>st_inner :=
     witness_state\<lparr>ps_rules := [\<lparr>r_peer = ''a'', r_target = ''h:1'', r_created_at = []\<rparr>]\<rparr>\<rparr>\<rparr>"

theorem revoke_cmd_takes_effect_witness:
  "rule_allows (dh_state one_rule) ''a'' ''h:1''
   \<and> \<not> rule_allows (dh_state (snd (dispatch both_env (one_request ''peer.revoke'') one_rule))) ''a'' ''h:1''"
proof
  have m: "method_parse ''peer.revoke'' = Some PeerRevoke" by (simp add: method_parse_def)
  have "\<exists>b st. remove_rule (en_state_io both_env) ''a'' ''h:1'' (dh_state one_rule) = (Inr b, st)"
    by (simp add: one_rule_def remove_rule_def witness_env_def witness_state_def Let_def persist_locked_def witness_io_def) blast
  then obtain w h' where "dispatch_method PeerRevoke both_env (one_request ''peer.revoke'') one_rule = (Inr w, h')"
    by (auto simp: dispatch_revoke_def)
  note reads = witness_reads [OF m this]
  from revoke_cmd_takes_effect [OF witness_cmd_ok(2) _ _ _ reads, of "\<lambda>_. Inr (one_request ''peer.revoke'')"
      "''a''" "''h:1''"] witness_answers [of "''peer.revoke''" one_rule] m
  show "\<not> rule_allows (dh_state (snd (dispatch both_env (one_request ''peer.revoke'') one_rule))) ''a'' ''h:1''"
    by (simp add: witness_line witness_socket_def)
qed (simp add: one_rule_def rule_allows_def)

end
