(* ===== verification/Client_Run.thy ===== *)
theory Client_Run
  imports Client_Connect
begin

text \<open>
  The running client, the rest of \<open>connect::run\<close> in \<open>tmite-core/src/client/connect.rs\<close>: the
  messages to the user in both user interfaces, the tasks that watch the session, the byte counters
  and the transport paths, the accept loops, and the end of the run.  Each task is a function from
  what it is woken by to what it emits, in order.
\<close>

section \<open>User interface\<close>

datatype ui_call =
    UiListening fwd_spec
  | UiInfo string
  | UiWarn string
  | UiDenied string data_deny_reason
  | UiPath string

text \<open>With the terminal: every message is a notice, the listeners are shown from the start; the format
  \<open>{:?}\<close> of a reason is an argument.\<close>

fun ui_bridge :: "(data_deny_reason \<Rightarrow> string) \<Rightarrow> ui_call \<Rightarrow> ui_event list" where
  "ui_bridge show_reason (UiListening spec) = []"
| "ui_bridge show_reason (UiInfo msg) = [EvNotice msg]"
| "ui_bridge show_reason (UiWarn msg) = [EvNotice msg]"
| "ui_bridge show_reason (UiDenied target reason) =
     [EvNotice (''forward to '' @ target @ '' denied: '' @ show_reason reason)]"
| "ui_bridge show_reason (UiPath msg) = [EvNotice msg]"

text \<open>Without it: lines on the standard output and entries of the log.\<close>

datatype plain_out = OutLine string | OutLogInfo string | OutLogWarn string | OutLogDenied string data_deny_reason

definition RIGHT_ARROW :: string where
  "RIGHT_ARROW = [CHR 0xE2, CHR 0x86, CHR 0x92]"

fun forwarding_ui :: "ui_call \<Rightarrow> plain_out" where
  "forwarding_ui (UiListening spec) =
     OutLine (''listening on '' @ show_ipv4 (fw_local_addr spec) @ '':'' @ show_nat (fw_local_port spec)
       @ '' '' @ RIGHT_ARROW @ '' '' @ fw_target spec)"
| "forwarding_ui (UiInfo msg) = OutLogInfo msg"
| "forwarding_ui (UiWarn msg) = OutLogWarn msg"
| "forwarding_ui (UiDenied target reason) = OutLogDenied target reason"
| "forwarding_ui (UiPath msg) = OutLine msg"

text \<open>The messages among the effects of the handler of a local connection.\<close>

fun local_ui :: "local_effect \<Rightarrow> ui_call list" where
  "local_ui (LWarn msg) = [UiWarn msg]"
| "local_ui (LDenied target reason) = [UiDenied target reason]"
| "local_ui _ = []"

section \<open>Start\<close>

text \<open>The events before the dial, and those when the listeners are up.\<close>

definition start_events :: "string \<Rightarrow> string \<Rightarrow> fwd_spec list \<Rightarrow> ui_event list" where
  "start_events name server_id specs =
     [EvServer name server_id, EvForwards (map (\<lambda>s. \<lparr>fr_local = show_local s, fr_target = fw_target s\<rparr>) specs)]"

definition ready_calls :: "fwd_spec list \<Rightarrow> ui_call list" where
  "ready_calls specs = map UiListening specs"

definition ready_events :: "(data_deny_reason \<Rightarrow> string) \<Rightarrow> fwd_spec list \<Rightarrow> ui_event list" where
  "ready_events show_reason specs = concat (map (ui_bridge show_reason) (ready_calls specs)) @ [EvStarted]"

section \<open>Watchers\<close>

text \<open>Each task below is given by what wakes it, in order.  A send fails only when the terminal has gone;
  the task then ends and nothing more of it is seen, as after the shutdown.\<close>

text \<open>The watch on the session's status: the value at the start, then the value at every change; the
  sender may go away.\<close>

datatype status_wake = StatusShutdown | StatusChanged session_status | StatusGone

fun status_watch :: "status_wake list \<Rightarrow> ui_event list" where
  "status_watch [] = []"
| "status_watch (StatusChanged st # ws) = EvSessionState st # status_watch ws"
| "status_watch (_ # ws) = []"

definition status_task :: "session_status \<Rightarrow> status_wake list \<Rightarrow> ui_event list" where
  "status_task initial ws = EvSessionState initial # status_watch ws"

text \<open>One tick of the byte counters, and the task over the registries its ticks see; \<open>None\<close> is the
  shutdown.\<close>

definition bytes_events :: "conn_registry \<Rightarrow> ui_event list" where
  "bytes_events reg = map (\<lambda>(i, tx, rx). EvConnectionBytes i tx rx) (registry_snapshot reg)"

fun bytes_task :: "conn_registry option list \<Rightarrow> ui_event list" where
  "bytes_task [] = []"
| "bytes_task (None # ws) = []"
| "bytes_task (Some reg # ws) = bytes_events reg @ bytes_task ws"

text \<open>The path snapshots of the terminal: what each tick gets from the session.\<close>

fun paths_task :: "(session_error, ui_path list) result option list \<Rightarrow> ui_event list" where
  "paths_task [] = []"
| "paths_task (None # ws) = []"
| "paths_task (Some (Inl e) # ws) = EvPaths [] # paths_task ws"
| "paths_task (Some (Inr ps) # ws) = EvPaths (snapshot_paths ps) # paths_task ws"

text \<open>Without the terminal, the events of one connection's paths until they end or the shutdown.\<close>

datatype path_event = PathOpened string | PathSelected string | PathClosed string | PathLagged nat | PathOther

fun path_call :: "path_event \<Rightarrow> ui_call list" where
  "path_call (PathOpened a) = [UiPath (''path opened: '' @ a)]"
| "path_call (PathSelected a) = [UiPath (''path selected: '' @ a)]"
| "path_call (PathClosed a) = [UiPath (''path closed: '' @ a)]"
| "path_call (PathLagged n) = [UiWarn (''path events lagged ('' @ show_nat n @ '' dropped)'')]"
| "path_call PathOther = []"

text \<open>A connection's events with whether its stream ended (else the shutdown came), and the watch over
  the connections: an ended one is invalidated and the next is asked for.\<close>

datatype watch_effect = WatchCall ui_call | WatchInvalidate

fun path_watch :: "(session_error, path_event list \<times> bool) result list \<Rightarrow> (session_error \<Rightarrow> string) \<Rightarrow> watch_effect list" where
  "path_watch [] show_err = []"
| "path_watch (Inl e # cs) show_err = [WatchCall (UiWarn (''cannot reach server for path watch: '' @ show_err e))]"
| "path_watch (Inr (evs, ended) # cs) show_err =
     map WatchCall (concat (map path_call evs)) @ (if ended then WatchInvalidate # path_watch cs show_err else [])"

section \<open>Accept loops\<close>

datatype accept_wake = AcceptShutdown | Accepted string | AcceptErr string

datatype accept_effect = SpawnLocal nat string | AcceptWarn string

fun accept_loop :: "nat \<Rightarrow> accept_wake list \<Rightarrow> accept_effect list" where
  "accept_loop idx [] = []"
| "accept_loop idx (AcceptShutdown # ws) = []"
| "accept_loop idx (Accepted peer # ws) = SpawnLocal idx peer # accept_loop idx ws"
| "accept_loop idx (AcceptErr e # ws) = AcceptWarn (''accept failed: '' @ e) # accept_loop idx ws"

section \<open>The end of the run\<close>

text \<open>
  With the terminal, the run and its tasks share the \<open>Notify\<close> \<open>shutdown\<close>.  A task waits for it only
  while it is inside a \<open>select!\<close> on \<open>notified()\<close>; taking another arm drops that future, and
  \<open>notify_waiters\<close> wakes the tasks that wait at that moment and keeps nothing for later ones.  The run
  itself is a sequence of awaits before it spawns its tasks and gets to its own \<open>select!\<close>, with the
  first of the list being awaited.
\<close>

datatype start_await = AwEndpoint | AwBind fwd_spec | AwDial | AwValidate fwd_spec

definition start_awaits :: "fwd_spec list \<Rightarrow> start_await list" where
  "start_awaits specs = AwEndpoint # map AwBind specs @ AwDial # map AwValidate specs"

datatype run_task = TaskRun | TaskStatus | TaskBytes | TaskPaths | TaskAccept nat

definition spawned_tasks :: "fwd_spec list \<Rightarrow> run_task set" where
  "spawned_tasks specs = {TaskStatus, TaskBytes, TaskPaths} \<union> TaskAccept ` {..<length specs}"

datatype run_pc = RunAwait "start_await list" | RunSelect | RunReturned

record run_state =
  rn_pc :: run_pc
  rn_terminal :: bool
  rn_tasks :: "run_task set"
  rn_waiting :: "run_task set"
  rn_woken :: "run_task set"

definition notify_waiters :: "run_state \<Rightarrow> run_state" where
  "notify_waiters s = s\<lparr>rn_woken := rn_woken s \<union> rn_waiting s, rn_waiting := {}\<rparr>"

text \<open>The end of the run: it wakes whoever waits and aborts its tasks.\<close>

definition run_return :: "run_state \<Rightarrow> run_state" where
  "run_return s = (notify_waiters s)\<lparr>rn_pc := RunReturned, rn_tasks := {}\<rparr>"

datatype run_label = Progress | Quit | StartFailed | Killed | Interrupted

inductive run_step :: "fwd_spec list \<Rightarrow> run_label \<Rightarrow> run_state \<Rightarrow> run_state \<Rightarrow> bool" for specs where
  awaited: "rn_pc s = RunAwait (a # b # rest) \<Longrightarrow> run_step specs Progress s (s\<lparr>rn_pc := RunAwait (b # rest)\<rparr>)"
| started: "rn_pc s = RunAwait [a] \<Longrightarrow>
    run_step specs Progress s
      (s\<lparr>rn_pc := RunSelect, rn_tasks := spawned_tasks specs, rn_waiting := insert TaskRun (rn_waiting s)\<rparr>)"
| start_failed: "rn_pc s = RunAwait (a # rest) \<Longrightarrow> run_step specs StartFailed s (s\<lparr>rn_pc := RunReturned\<rparr>)"
| killed: "rn_pc s = RunAwait (a # rest) \<Longrightarrow> run_step specs Killed s (s\<lparr>rn_pc := RunReturned, rn_terminal := False\<rparr>)"
| task_waits: "t \<in> rn_tasks s \<Longrightarrow> t \<notin> rn_woken s \<Longrightarrow>
    run_step specs Progress s (s\<lparr>rn_waiting := insert t (rn_waiting s)\<rparr>)"
| task_other_arm: "t \<in> rn_tasks s \<Longrightarrow> run_step specs Progress s (s\<lparr>rn_waiting := rn_waiting s - {t}\<rparr>)"
| task_woken: "t \<in> rn_tasks s \<Longrightarrow> t \<in> rn_woken s \<Longrightarrow>
    run_step specs Progress s (s\<lparr>rn_tasks := rn_tasks s - {t}, rn_woken := rn_woken s - {t}\<rparr>)"
| run_woken: "rn_pc s = RunSelect \<Longrightarrow> TaskRun \<in> rn_woken s \<Longrightarrow> run_step specs Progress s (run_return s)"
| interrupted: "rn_pc s = RunSelect \<Longrightarrow> run_step specs Interrupted s (run_return s)"
| quit: "rn_terminal s \<Longrightarrow> run_step specs Quit s ((notify_waiters s)\<lparr>rn_terminal := False\<rparr>)"

inductive_cases run_stepE: "run_step specs l s s'"

definition run_begin :: "fwd_spec list \<Rightarrow> run_state" where
  "run_begin specs =
     \<lparr>rn_pc = RunAwait (start_awaits specs), rn_terminal = True, rn_tasks = {}, rn_waiting = {}, rn_woken = {}\<rparr>"

section \<open>Laws\<close>

lemma apply_bytes:
  "cm_connections (apply_event now (EvConnectionBytes i tx rx) m) =
     update_first (\<lambda>c. co_id c = i) (\<lambda>c. c\<lparr>co_tx_bytes := tx, co_rx_bytes := rx\<rparr>) (cm_connections m)"
  by simp

text \<open>An update of the row with an id, where ids are distinct, and a whole tick of them.\<close>

lemma update_first_map:
  "distinct (map co_id cs) \<Longrightarrow>
     update_first (\<lambda>c. co_id c = i) f cs = map (\<lambda>c. if co_id c = i then f c else c) cs"
proof (induction cs)
  case (Cons c cs)
  have "map (\<lambda>x. if co_id x = co_id c then f x else x) cs = cs"
    using Cons.prems by (intro map_idI) (metis distinct.simps(2) image_eqI list.set_map list.simps(9))
  with Cons show ?case by auto
qed simp

definition set_bytes :: "(u64 \<times> u64 \<times> u64) list \<Rightarrow> conn_row \<Rightarrow> conn_row" where
  "set_bytes ticks c =
     (case map_of ticks (co_id c) of Some (tx, rx) \<Rightarrow> c\<lparr>co_tx_bytes := tx, co_rx_bytes := rx\<rparr> | None \<Rightarrow> c)"

lemma set_bytes_Cons:
  "i \<notin> fst ` set ticks \<Longrightarrow>
     set_bytes ticks (if co_id c = i then c\<lparr>co_tx_bytes := tx, co_rx_bytes := rx\<rparr> else c)
       = set_bytes ((i, tx, rx) # ticks) c"
  using map_of_eq_None_iff [of ticks i] by (auto simp: set_bytes_def)

lemma replay_bytes:
  assumes "distinct (map co_id (cm_connections m))" and "distinct (map fst ticks)"
  shows "cm_connections (replay now (map (\<lambda>(i, tx, rx). EvConnectionBytes i tx rx) ticks) m)
    = map (set_bytes ticks) (cm_connections m)"
  using assms
proof (induction ticks arbitrary: m)
  case (Cons t ticks)
  obtain i tx rx where t: "t = (i, tx, rx)" by (cases t)
  let ?m = "apply_event now (EvConnectionBytes i tx rx) m"
  have m: "cm_connections ?m
    = map (\<lambda>c. if co_id c = i then c\<lparr>co_tx_bytes := tx, co_rx_bytes := rx\<rparr> else c) (cm_connections m)"
    using Cons.prems by (simp add: update_first_map)
  have "map co_id (cm_connections ?m) = map co_id (cm_connections m)" by (simp add: m del: apply_event.simps)
  with Cons.IH [of ?m] Cons.prems t have
    "cm_connections (replay now (map (\<lambda>(i, tx, rx). EvConnectionBytes i tx rx) (t # ticks)) m)
      = map (set_bytes ticks) (cm_connections ?m)"
    by (simp del: apply_event.simps)
  then show ?case
    using Cons.prems t by (simp add: m set_bytes_Cons del: apply_event.simps)
qed (simp add: set_bytes_def [abs_def])

text \<open>The entries of a tick are the started handles of the registry, by id.\<close>

lemma snapshot_entries:
  assumes "hm_wf conns" and "\<And>i h. map_of conns i = Some h \<Longrightarrow> ch_id h = i"
  shows "distinct (map fst (map (\<lambda>(_, h). (ch_id h, ch_tx h, ch_rx h)) (filter (\<lambda>(_, h). ch_started h) conns)))
    \<and> (map_of conns i = Some h \<and> ch_started h \<longrightarrow>
        map_of (map (\<lambda>(_, h). (ch_id h, ch_tx h, ch_rx h)) (filter (\<lambda>(_, h). ch_started h) conns)) i
          = Some (ch_tx h, ch_rx h))"
proof -
  let ?ts = "map (\<lambda>(_, h). (ch_id h, ch_tx h, ch_rx h)) (filter (\<lambda>(_, h). ch_started h) conns)"
  have d: "distinct (map fst conns)" using assms(1) by (simp add: hm_wf_def)
  have key: "ch_id k = j" if "(j, k) \<in> set conns" for j k
    using that d assms(2) by simp
  have "map fst ?ts = map fst (filter (\<lambda>(_, h). ch_started h) conns)"
    using key by auto
  then have dt: "distinct (map fst ?ts)" using d by (simp only: distinct_map_filter)
  moreover have "(i, ch_tx h, ch_rx h) \<in> set ?ts" if "map_of conns i = Some h" "ch_started h"
    using that key map_of_SomeD [of conns i h] by (force simp: image_iff)
  ultimately show ?thesis by (simp del: set_map map_map)
qed

text \<open>Distinct forwards are distinct rows of the view: a row determines the specification it is of.\<close>

lemma start_rows_distinct:
  assumes "list_all (\<lambda>spec. fw_local_port spec \<le> 65535 \<and> valid_target (fw_target spec)) specs"
    and "EvForwards rows \<in> set (start_events name server_id specs)"
  shows "distinct rows = distinct specs"
proof -
  have rows: "rows = map (\<lambda>s. \<lparr>fr_local = show_local s, fr_target = fw_target s\<rparr>) specs"
    using assms(2) by (simp add: start_events_def)
  have shown: "map show_spec specs = map (\<lambda>r. fr_local r @ '':'' @ fr_target r) rows"
    by (simp add: rows show_spec_def)
  have "distinct specs" if "distinct rows" using that by (simp add: rows distinct_map)
  moreover have "distinct rows" if "distinct specs"
    using that spec_text.distinct_print [OF assms(1)] shown by (metis distinct_map)
  ultimately show ?thesis by blast
qed

subsection \<open>Quitting\<close>

text \<open>Nobody waits for the shutdown before the run gets to its own \<open>select!\<close>; there the run waits or has been
  woken.\<close>

definition run_inv :: "run_state \<Rightarrow> bool" where
  "run_inv s =
     ((\<forall>as. rn_pc s = RunAwait as \<longrightarrow> rn_tasks s = {} \<and> rn_waiting s = {} \<and> rn_woken s = {}) \<and> TaskRun \<notin> rn_tasks s
      \<and> (rn_pc s = RunSelect \<longrightarrow> TaskRun \<in> rn_waiting s \<union> rn_woken s))"

interpretation quitting: transition_system "\<lambda>s. s = run_begin specs" "\<lambda>s s'. \<exists>l. run_step specs l s s'" run_inv
proof unfold_locales
  fix s t assume "run_inv s" and "\<exists>l. run_step specs l s t"
  then show "run_inv t"
    by (auto simp: run_inv_def run_return_def notify_waiters_def spawned_tasks_def elim!: run_stepE)
qed (simp add: run_inv_def run_begin_def)

text \<open>The run goes on without a terminal and cannot be woken.\<close>

definition run_deaf :: "run_state \<Rightarrow> bool" where
  "run_deaf s = (rn_pc s \<noteq> RunReturned \<and> \<not> rn_terminal s \<and> TaskRun \<notin> rn_woken s)"

lemma run_deaf_step: "run_deaf s \<Longrightarrow> run_step specs l s s' \<Longrightarrow> l \<in> {Progress, Quit} \<Longrightarrow> run_deaf s'"
  by (auto simp: run_deaf_def elim!: run_stepE)

text \<open>A quit key while the client starts closes the terminal and nothing else: however the run goes on, it
  does not return unless the start fails or a signal ends it.\<close>

lemma quit_during_start_lost:
  assumes "reaches (\<lambda>s s'. \<exists>l. run_step specs l s s') (run_begin specs) s" and "rn_pc s = RunAwait as"
    and "run_step specs Quit s s'" and "reaches (\<lambda>s s'. \<exists>l \<in> {Progress, Quit}. run_step specs l s s') s' s''"
  shows "rn_pc s'' \<noteq> RunReturned \<and> \<not> rn_terminal s''"
proof -
  have "run_inv s" by (rule quitting.inv_reachable [OF HOL.refl assms(1)])
  with assms(2,3) have "run_deaf s'" by (auto simp: run_inv_def run_deaf_def notify_waiters_def elim!: run_stepE)
  with assms(4) have "run_deaf s''" by (induction rule: reaches.induct) (auto intro: run_deaf_step)
  then show ?thesis by (simp add: run_deaf_def)
qed

text \<open>A quit key in the running client wakes the run, which can then return.\<close>

lemma quit_when_running_returns:
  assumes "reaches (\<lambda>s s'. \<exists>l. run_step specs l s s') (run_begin specs) s" and "rn_pc s = RunSelect"
    and "run_step specs Quit s s'"
  shows "run_step specs Progress s' (run_return s') \<and> rn_pc (run_return s') = RunReturned"
proof -
  have "run_inv s" by (rule quitting.inv_reachable [OF HOL.refl assms(1)])
  with assms(2,3) have "rn_pc s' = RunSelect" "TaskRun \<in> rn_woken s'"
    by (auto simp: run_inv_def notify_waiters_def elim!: run_stepE)
  then show ?thesis by (intro conjI run_step.run_woken) (simp_all add: run_return_def)
qed

section \<open>Properties\<close>

text \<open>C37: a tick of the byte counters brings the whole view up to date: if the view lists the admitted
  connections of the registry, then after the events of one tick it lists the same rows in the same
  order, and the bytes of each row are the counters of its connection at the tick.\<close>

theorem tick_shows_counters:
  assumes "mirrors reg m"
  shows "let m' = fold (apply_event now) (bytes_events reg) m in
     map co_id (cm_connections m') = map co_id (cm_connections m)
     \<and> (\<forall>c \<in> set (cm_connections m'). \<exists>h. map_of (cr_conns reg) (co_id c) = Some h \<and> ch_started h
          \<and> co_tx_bytes c = ch_tx h \<and> co_rx_bytes c = ch_rx h)"
proof -
  let ?ts = "registry_snapshot reg"
  have reg: "hm_wf (cr_conns reg)" "\<And>i h. map_of (cr_conns reg) i = Some h \<Longrightarrow> ch_id h = i"
    and ids: "distinct (map co_id (cm_connections m))"
    and rows: "\<And>c. c \<in> set (cm_connections m) \<Longrightarrow> \<exists>h. map_of (cr_conns reg) (co_id c) = Some h \<and> ch_started h"
    using assms by (auto simp: mirrors_def)
  have "cm_connections (replay now (bytes_events reg) m) = map (set_bytes ?ts) (cm_connections m)"
    unfolding bytes_events_def using snapshot_entries [OF reg]
    by (intro replay_bytes [OF ids]) (simp only: registry_snapshot_def)
  moreover have "\<exists>h. map_of (cr_conns reg) (co_id (set_bytes ?ts c)) = Some h \<and> ch_started h
      \<and> co_tx_bytes (set_bytes ?ts c) = ch_tx h \<and> co_rx_bytes (set_bytes ?ts c) = ch_rx h"
    if "c \<in> set (cm_connections m)" for c
    using rows [OF that] snapshot_entries [OF reg, where i = "co_id c"]
    by (auto simp: set_bytes_def registry_snapshot_def)
  moreover have "co_id (set_bytes ?ts c) = co_id c" for c
    by (simp add: set_bytes_def split: option.split prod.split)
  ultimately show ?thesis by (simp add: Let_def)
qed

definition witness_counting :: conn_registry where
  "witness_counting = \<lparr>cr_next_id = 1,
     cr_conns = [(0, \<lparr>ch_id = 0, ch_spec = 0, ch_peer = ''p'', ch_tx = 5, ch_rx = 7, ch_started = True\<rparr>)],
     cr_events = []\<rparr>"

definition witness_view :: connect_model where
  "witness_view = connect_model_default\<lparr>cm_connections :=
     [\<lparr>co_id = 0, co_peer = ''p'', co_spec = 0, co_opened_at = 0, co_tx_bytes = 0, co_rx_bytes = 0\<rparr>]\<rparr>"

theorem tick_shows_counters_witness:
  "map (\<lambda>c. (co_id c, co_tx_bytes c, co_rx_bytes c))
     (cm_connections (fold (apply_event 0) (bytes_events witness_counting) witness_view)) = [(0, 5, 7)]"
proof -
  let ?cs = "cm_connections (fold (apply_event 0) (bytes_events witness_counting) witness_view)"
  have "mirrors witness_counting witness_view"
    by (auto simp: mirrors_def witness_counting_def witness_view_def hm_wf_def)
  note t = tick_shows_counters [OF this, of 0, unfolded Let_def]
  then have "map co_id ?cs = [0]" by (simp add: witness_view_def)
  then obtain c where "?cs = [c]" "co_id c = 0" by (auto simp: map_eq_Cons_conv)
  with t show ?thesis by (auto simp: witness_counting_def)
qed

end
