(* ===== verification/Tui.thy ===== *)
theory Tui
  imports Client_Model Status_Table Complex_Main "HOL-Library.Log_Nat"
begin

text \<open>
  The terminal of \<open>tmite connect\<close>, \<open>tmite/src/tui.rs\<close>: the loop that applies events and
  keys to the view model, the contents of the panes as styled spans, and the summary at the end.
  Where the cells go on the screen is \<open>ratatui\<close>'s; the heights it gives are arguments.
\<close>

section \<open>Numbers as text\<close>

definition fmt_elapsed :: "duration \<Rightarrow> string" where
  "fmt_elapsed d =
     (let s = d div 1000 in
      if s < 60 then show_nat s @ ''s''
      else if s < 3600 then show_nat (s div 60) @ ''m'' @ show_nat (s mod 60) @ ''s''
      else show_nat (s div 3600) @ ''h''
           @ (let m = (s mod 3600) div 60 in if m < 10 then ''0'' @ show_nat m else show_nat m) @ ''m'')"

text \<open>Doubles as the rational numbers they are: rounding to 53 bits, ties to even, for values that are 0 or
  at least 1; no others occur below.\<close>

definition round_half_even :: "rat \<Rightarrow> int" where
  "round_half_even x =
     (let f = \<lfloor>x\<rfloor>; d = x - of_int f in
      if d < 1 / 2 then f else if d > 1 / 2 then f + 1 else if even f then f else f + 1)"

definition f64_round :: "rat \<Rightarrow> rat" where
  "f64_round x =
     (let e = floorlog 2 (nat \<lfloor>x\<rfloor>) in
      if e \<le> 53 then of_int (round_half_even (x * 2 ^ (53 - e))) / 2 ^ (53 - e)
      else of_int (round_half_even (x / 2 ^ (e - 53))) * 2 ^ (e - 53))"

definition UNITS :: "string list" where
  "UNITS = [''B'', ''KB'', ''MB'', ''GB'', ''TB'']"

function scale_units :: "rat \<Rightarrow> nat \<Rightarrow> rat \<times> nat" where
  "scale_units v u = (if v \<ge> 1000 \<and> u < length UNITS - 1 then scale_units (f64_round (v / 1000)) (Suc u) else (v, u))"
  by pat_completeness auto
termination by (relation "measure (\<lambda>(_, u). length UNITS - u)") auto

declare scale_units.simps [simp del]

text \<open>The format \<open>{:.1}\<close>: the exact value rounded to a tenth.\<close>

definition show_tenths :: "rat \<Rightarrow> string" where
  "show_tenths v = (let t = nat (round_half_even (v * 10)) in show_nat (t div 10) @ ''.'' @ show_nat (t mod 10))"

definition fmt_bytes :: "u64 \<Rightarrow> string" where
  "fmt_bytes b =
     (let (v, u) = scale_units (f64_round (of_nat (unat b))) 0 in
      if u = 0 then show_nat (unat b) @ '' B'' else show_tenths v @ '' '' @ UNITS ! u)"

text \<open>The first twelve characters.\<close>

definition short_node :: "string \<Rightarrow> string" where
  "short_node node = char_take 12 node"

definition TICK :: duration where "TICK = 500"
definition NOTICE_TTL :: duration where "NOTICE_TTL = 5000"
definition MAX_WIDTH :: u16 where "MAX_WIDTH = 120"

definition saturating_add :: "u16 \<Rightarrow> u16 \<Rightarrow> u16" where
  "saturating_add a b = (if unat a + unat b > 65535 then 65535 else a + b)"

definition saturating_sub :: "u16 \<Rightarrow> u16 \<Rightarrow> u16" where
  "saturating_sub a b = (if a < b then 0 else a - b)"

definition viewport_height :: "nat \<Rightarrow> u16 \<Rightarrow> u16" where
  "viewport_height n_forwards term_rows =
     (let want = saturating_add 19 (word_of_nat (min n_forwards 10))
      in max (min want (saturating_sub term_rows 2)) 8)"

section \<open>Panes\<close>

datatype span_style = Raw | Bold | Dim | Green | GreenBold | Yellow

type_synonym span = "span_style \<times> string"

datatype layout_constraint = LenC nat | MinC nat

definition HALF_DOT :: string where
  "HALF_DOT = [CHR 0xE2, CHR 0x97, CHR 0x90]"

definition MIDDLE_DOT :: string where
  "MIDDLE_DOT = [CHR 0xC2, CHR 0xB7]"

definition EN_DASH :: string where
  "EN_DASH = [CHR 0xE2, CHR 0x80, CHR 0x93]"

definition UP_ARROW :: string where
  "UP_ARROW = [CHR 0xE2, CHR 0x86, CHR 0x91]"

definition DOWN_ARROW :: string where
  "DOWN_ARROW = [CHR 0xE2, CHR 0x86, CHR 0x93]"

definition render_layout :: "connect_model \<Rightarrow> layout_constraint list" where
  "render_layout m = [LenC 1, LenC 6, LenC (min (length (cm_forwards m)) 10 + 3), MinC 3, LenC 1]"

fun state_label :: "session_state \<Rightarrow> string \<times> string \<times> bool" where
  "state_label Established = (FILLED_DOT, ''established'', True)"
| "state_label Dialing = (HALF_DOT, ''dialing'' @ ELLIPSIS, False)"
| "state_label (Reconnecting since) = (HALF_DOT, ''reconnecting'' @ ELLIPSIS, False)"

definition header_line :: "instant \<Rightarrow> connect_model \<Rightarrow> span list" where
  "header_line now m =
     [(Bold, ''tmite connect ''), (Raw, ARROW @ '' ''), (Bold, cm_server_name m), (Raw, '' ''),
      (Dim, ''('' @ short_node (cm_server_node m) @ '') '')]
     @ (case cm_session m of
          Some s \<Rightarrow>
            (let (dot, label, green) = state_label (sst_state s); style = (if green then Green else Raw)
             in [(style, dot), (Raw, '' ''), (style, label)]
                @ (if sst_redials s > 0 then [(Raw, '' '' @ MIDDLE_DOT @ '' '' @ show_nat (unat (sst_redials s)) @ '' re-dial(s)'')] else []))
        | None \<Rightarrow> [(Dim, ''starting'' @ ELLIPSIS)])
     @ (case cm_started_at m of
          Some started \<Rightarrow> [(Raw, '' '' @ MIDDLE_DOT @ '' up '' @ fmt_elapsed (now - started))]
        | None \<Rightarrow> [])"

definition path_cells :: "path_row \<Rightarrow> span list" where
  "path_cells p =
     [(if pr_selected p then GreenBold else Dim, if pr_selected p then FILLED_DOT else EMPTY_DOT),
      (Raw, if pr_relay p then ''relay'' else ''direct''),
      (Raw, pr_remote_addr p),
      (Dim, case pr_rtt p of Some rtt \<Rightarrow> show_nat rtt @ '' ms'' | None \<Rightarrow> EN_DASH),
      (Raw, fmt_bytes (pr_tx_bytes p)), (Raw, fmt_bytes (pr_rx_bytes p))]"

definition render_paths :: "nat \<Rightarrow> connect_model \<Rightarrow> span list list" where
  "render_paths height m = map path_cells (take height (cm_paths m))"

definition render_forwards :: "nat \<Rightarrow> connect_model \<Rightarrow> span list list" where
  "render_forwards height m =
     (let active = active_per_forward m in
      map (\<lambda>(idx, fwd). [(Raw, fr_local fwd), (Raw, ARROW @ '' ''), (Raw, fr_target fwd),
             (Raw, if idx < length active then show_nat (active ! idx) else [])])
        (enumerate 0 (take height (cm_forwards m))))"

text \<open>The route of a connection: the part of the local address behind its last colon, and the target.\<close>

definition route_of :: "connect_model \<Rightarrow> conn_row \<Rightarrow> string" where
  "route_of m c =
     (if co_spec c < length (cm_forwards m) then
        (let f = cm_forwards m ! co_spec c; local_port = last (split_on (\<lambda>x. x = CHR '':'') (fr_local f))
         in '':'' @ local_port @ '' '' @ ARROW @ '' '' @ fr_target f)
      else ''? '' @ ARROW @ '' ?'')"

definition render_connections :: "instant \<Rightarrow> nat \<Rightarrow> connect_model \<Rightarrow> string \<times> span list list" where
  "render_connections now height m =
     ('' connections ('' @ show_nat (length (cm_connections m)) @ '') '',
      map (\<lambda>c. [(Raw, co_peer c), (Raw, route_of m c), (Dim, fmt_elapsed (now - co_opened_at c)),
               (Raw, fmt_bytes (co_tx_bytes c)), (Raw, fmt_bytes (co_rx_bytes c))])
        (take height (cm_connections m)))"

definition footer_line :: "connect_model \<Rightarrow> span list" where
  "footer_line m =
     (case cm_status m of
        Some (_, msg) \<Rightarrow> [(Yellow, msg)]
      | None \<Rightarrow>
          (Dim, ''q quit '' @ MIDDLE_DOT @ '' p pause'')
          # (if cm_closed_total m > 0 then [(Dim, '' '' @ MIDDLE_DOT @ '' '' @ show_nat (unat (cm_closed_total m)) @ '' closed'')] else []))"

section \<open>The summary\<close>

definition total_tx_bytes :: "connect_model \<Rightarrow> u64" where
  "total_tx_bytes m = cm_total_tx m + sum_list (map co_tx_bytes (cm_connections m))"

definition total_rx_bytes :: "connect_model \<Rightarrow> u64" where
  "total_rx_bytes m = cm_total_rx m + sum_list (map co_rx_bytes (cm_connections m))"

definition served_total :: "connect_model \<Rightarrow> u64" where
  "served_total m = cm_closed_total m + word_of_nat (length (cm_connections m))"

definition print_summary :: "instant \<Rightarrow> connect_model \<Rightarrow> string list" where
  "print_summary now m =
     (let up = (case cm_started_at m of Some t \<Rightarrow> fmt_elapsed (now - t) | None \<Rightarrow> ''0s'') in
      [''tmite connect ended after '' @ up @ '' - '' @ cm_server_name m @ '' ('' @ short_node (cm_server_node m) @ '')'',
       ''served '' @ show_nat (unat (served_total m)) @ '' connection(s) '' @ MIDDLE_DOT @ '' ''
         @ fmt_bytes (total_tx_bytes m) @ '' '' @ UP_ARROW @ '' '' @ MIDDLE_DOT @ '' ''
         @ fmt_bytes (total_rx_bytes m) @ '' '' @ DOWN_ARROW]
      @ map (\<lambda>fwd. ''  '' @ fr_local fwd @ '' '' @ ARROW @ '' '' @ fr_target fwd) (cm_forwards m))"

section \<open>The loop\<close>

text \<open>What one turn of the \<open>select!\<close> can bring.\<close>

datatype tui_input =
    TuiEvent ui_event
  | TuiClosed
  | TuiTick
  | TuiKey char bool
  | TuiOther

record tui_state =
  tu_model :: connect_model
  tu_paused :: bool
  tu_drawn :: "connect_model list"
  tu_shutdown :: bool

definition tui_start :: tui_state where
  "tui_start = \<lparr>tu_model = connect_model_default, tu_paused = False, tu_drawn = [connect_model_default], tu_shutdown = False\<rparr>"

text \<open>The end of a turn: an old notice goes, and the frame is drawn unless paused.\<close>

definition expire_notice :: "instant \<Rightarrow> connect_model \<Rightarrow> connect_model" where
  "expire_notice now m =
     (case cm_status m of Some (shown, _) \<Rightarrow> if now - shown > NOTICE_TTL then m\<lparr>cm_status := None\<rparr> else m | None \<Rightarrow> m)"

definition end_turn :: "instant \<Rightarrow> tui_state \<Rightarrow> tui_state" where
  "end_turn now t =
     (let m = expire_notice now (tu_model t)
      in t\<lparr>tu_model := m, tu_drawn := (if tu_paused t then tu_drawn t else tu_drawn t @ [m])\<rparr>)"

text \<open>One turn; the flag says whether the loop is left.  Keys are the presses, with the control
  modifier.\<close>

fun tui_turn :: "instant \<Rightarrow> tui_input \<Rightarrow> tui_state \<Rightarrow> bool \<times> tui_state" where
  "tui_turn now (TuiEvent ev) t = (False, end_turn now (t\<lparr>tu_model := apply_event now ev (tu_model t)\<rparr>))"
| "tui_turn now TuiClosed t = (True, t)"
| "tui_turn now TuiTick t = (False, end_turn now t)"
| "tui_turn now (TuiKey c ctrl) t =
     (if c = CHR ''q'' \<or> c = CHR ''c'' \<and> ctrl then (True, t\<lparr>tu_shutdown := True\<rparr>)
      else if c = CHR ''p'' then (False, end_turn now (t\<lparr>tu_paused := \<not> tu_paused t\<rparr>))
      else (False, end_turn now t))"
| "tui_turn now TuiOther t = (False, end_turn now t)"

fun tui_loop :: "(instant \<times> tui_input) list \<Rightarrow> tui_state \<Rightarrow> tui_state" where
  "tui_loop [] t = t"
| "tui_loop ((now, i) # is) t = (case tui_turn now i t of (True, t') \<Rightarrow> t' | (False, t') \<Rightarrow> tui_loop is t')"

section \<open>Laws\<close>

text \<open>The model without its notice, which only the clock and the notices touch.\<close>

abbreviation quiet :: "connect_model \<Rightarrow> connect_model" where
  "quiet m \<equiv> m\<lparr>cm_status := None\<rparr>"

lemma quiet_apply: "quiet m = quiet m' \<Longrightarrow> quiet (apply_event now ev m) = quiet (apply_event now ev m')"
proof -
  have "quiet (apply_event now ev m) = quiet (apply_event now ev (quiet m))" for m
    by (cases ev) (auto simp: Let_def split: option.splits)
  then show "quiet m = quiet m' \<Longrightarrow> quiet (apply_event now ev m) = quiet (apply_event now ev m')" by metis
qed

lemma quiet_expire [simp]: "quiet (expire_notice now m) = quiet m"
  by (auto simp: expire_notice_def split: option.splits)

lemma end_turn_simps [simp]:
  "quiet (tu_model (end_turn now t)) = quiet (tu_model t)" "tu_shutdown (end_turn now t) = tu_shutdown t"
  "tu_paused (end_turn now t) = tu_paused t"
  by (simp_all add: end_turn_def Let_def)

text \<open>The events that reach the loop before it is left, and whether a key ends it.\<close>

definition quit_key :: "tui_input \<Rightarrow> bool" where
  "quit_key i = (case i of TuiKey c ctrl \<Rightarrow> c = CHR ''q'' \<or> c = CHR ''c'' \<and> ctrl | _ \<Rightarrow> False)"

definition ends_loop :: "tui_input \<Rightarrow> bool" where
  "ends_loop i = (i = TuiClosed \<or> quit_key i)"

abbreviation before_end :: "(instant \<times> tui_input) list \<Rightarrow> (instant \<times> tui_input) list" where
  "before_end is \<equiv> takeWhile (\<lambda>x. \<not> ends_loop (snd x)) is"

fun tui_apply :: "instant \<times> tui_input \<Rightarrow> connect_model \<Rightarrow> connect_model" where
  "tui_apply (now, TuiEvent ev) m = apply_event now ev m"
| "tui_apply _ m = m"

lemma quiet_tui_apply: "quiet m = quiet m' \<Longrightarrow> quiet (tui_apply x m) = quiet (tui_apply x m')"
proof -
  assume m: "quiet m = quiet m'"
  obtain now i where x: "x = (now, i)" by (cases x)
  show ?thesis
  proof (cases i)
    case (TuiEvent ev)
    with quiet_apply [OF m, of now ev] x show ?thesis by simp
  qed (use m x in simp_all)
qed

lemma quiet_fold: "quiet m = quiet m' \<Longrightarrow> quiet (fold tui_apply xs m) = quiet (fold tui_apply xs m')"
proof (induction xs arbitrary: m m')
  case (Cons x xs)
  from Cons.IH [OF quiet_tui_apply [OF Cons.prems, of x]] show ?case by simp
qed simp

lemma tui_turn_ends: "fst (tui_turn now i t) \<longleftrightarrow> ends_loop i"
  by (cases i) (auto simp: ends_loop_def quit_key_def)

lemma tui_turn_end_state:
  "ends_loop i \<Longrightarrow> snd (tui_turn now i t) = (if quit_key i then t\<lparr>tu_shutdown := True\<rparr> else t)"
  by (cases i) (auto simp: ends_loop_def quit_key_def)

lemma tui_turn_go_on:
  "\<not> ends_loop i \<Longrightarrow> quiet (tu_model (snd (tui_turn now i t))) = quiet (tui_apply (now, i) (tu_model t))
     \<and> tu_shutdown (snd (tui_turn now i t)) = tu_shutdown t"
  by (cases i) (auto simp: ends_loop_def quit_key_def)

lemma tui_loop_model: "quiet (tu_model (tui_loop is t)) = quiet (fold tui_apply (before_end is) (tu_model t))"
proof (induction "is" t rule: tui_loop.induct)
  case (2 now i "is" t)
  obtain b t' where b: "tui_turn now i t = (b, t')" by (cases "tui_turn now i t")
  show ?case
  proof (cases "ends_loop i")
    case True
    with b tui_turn_ends [of now i t] tui_turn_end_state [of i now t] show ?thesis by (auto split: if_splits)
  next
    case False
    with b tui_turn_ends [of now i t] have "b = False" by simp
    with 2 b have "quiet (tu_model (tui_loop is t')) = quiet (fold tui_apply (before_end is) (tu_model t'))" by simp
    also have "\<dots> = quiet (fold tui_apply (before_end is) (tui_apply (now, i) (tu_model t)))"
      using tui_turn_go_on [OF False, of now t] b by (intro quiet_fold) simp
    finally show ?thesis using b \<open>b = False\<close> False by simp
  qed
qed simp

lemma tui_loop_shutdown:
  "tu_shutdown (tui_loop is t) \<longleftrightarrow> tu_shutdown t \<or> (\<exists>x xs. dropWhile (\<lambda>x. \<not> ends_loop (snd x)) is = x # xs \<and> quit_key (snd x))"
proof (induction "is" t rule: tui_loop.induct)
  case (2 now i "is" t)
  obtain b t' where b: "tui_turn now i t = (b, t')" by (cases "tui_turn now i t")
  show ?case
  proof (cases "ends_loop i")
    case True
    with b tui_turn_ends [of now i t] tui_turn_end_state [of i now t] show ?thesis by (auto split: if_splits)
  next
    case False
    with b tui_turn_ends [of now i t] tui_turn_go_on [OF False, of now t] 2 show ?thesis by simp
  qed
qed simp

lemma sum_list_remove_id:
  fixes f :: "conn_row \<Rightarrow> u64"
  assumes "distinct (map co_id cs)" and "List.find (\<lambda>c. co_id c = i) cs = Some row"
  shows "f row + sum_list (map f (filter (\<lambda>c. co_id c \<noteq> i) cs)) = sum_list (map f cs)"
    and "Suc (length (filter (\<lambda>c. co_id c \<noteq> i) cs)) = length cs"
  using assms
proof (induction cs)
  case (Cons c cs)
  { case 1
    show ?case
    proof (cases "co_id c = i")
      case True
      with 1 have "i \<notin> co_id ` set cs" by simp
      then have "filter (\<lambda>c. co_id c \<noteq> i) cs = cs" by (intro filter_True) blast
      with 1 True show ?thesis by simp
    next
      case False
      with Cons 1 show ?thesis by (simp add: add.left_commute)
    qed
  next
    case 2
    show ?case
    proof (cases "co_id c = i")
      case True
      with 2 have "i \<notin> co_id ` set cs" by simp
      then have "filter (\<lambda>c. co_id c \<noteq> i) cs = cs" by (intro filter_True) blast
      with True show ?thesis by simp
    next
      case False
      with Cons 2 show ?thesis by simp
    qed
  }
qed simp_all

lemma scale_units_bounds: "u \<le> 4 \<Longrightarrow> scale_units v u = (v', u') \<Longrightarrow> u \<le> u' \<and> u' \<le> 4 \<and> (u' < 4 \<longrightarrow> v' < 1000)"
proof (induction v u rule: scale_units.induct)
  case (1 v u)
  show ?case
  proof (cases "v \<ge> 1000 \<and> u < length UNITS - 1")
    case True
    then have "scale_units v u = scale_units (f64_round (v / 1000)) (Suc u)" by (simp add: scale_units.simps [of v u])
    with 1 True show ?thesis by (auto simp: UNITS_def)
  next
    case False
    with 1(2,3) show ?thesis by (auto simp: scale_units.simps [of v u] UNITS_def split: if_splits)
  qed
qed

section \<open>Properties\<close>

text \<open>C38: nothing is lost by the terminal: whatever ticks, keys and pauses come between, the model at the
  end is the one that applied every event received before the loop was left, its transient notice
  apart; and the session is told to shut down exactly when a quit key ended the loop.\<close>

theorem tui_applies_all_events:
  "(tu_model (tui_loop is tui_start))\<lparr>cm_status := None\<rparr> =
     (fold tui_apply (takeWhile (\<lambda>x. \<not> ends_loop (snd x)) is) connect_model_default)\<lparr>cm_status := None\<rparr>
   \<and> (tu_shutdown (tui_loop is tui_start) \<longleftrightarrow>
        (\<exists>x xs. dropWhile (\<lambda>x. \<not> ends_loop (snd x)) is = x # xs \<and> quit_key (snd x)))"
  using tui_loop_model [of "is" tui_start] tui_loop_shutdown [of "is" tui_start] by (simp add: tui_start_def)

text \<open>The totals of the summary do not depend on when a connection ends: closing a listed connection
  moves its bytes and its count, changing none of the three figures, modulo 2^64.\<close>

lemma close_keeps_totals:
  assumes "distinct (map co_id (cm_connections m))" and "i \<in> set (map co_id (cm_connections m))"
  shows "total_tx_bytes (apply_event now (EvConnectionClosed i) m) = total_tx_bytes m
     \<and> total_rx_bytes (apply_event now (EvConnectionClosed i) m) = total_rx_bytes m
     \<and> served_total (apply_event now (EvConnectionClosed i) m) = served_total m"
proof -
  obtain row where row: "List.find (\<lambda>c. co_id c = i) (cm_connections m) = Some row"
    using assms(2) by (cases "List.find (\<lambda>c. co_id c = i) (cm_connections m)") (auto simp: find_None_iff)
  note sums = sum_list_remove_id(1) [OF assms(1) row]
  have "length (cm_connections m) = Suc (length (filter (\<lambda>c. co_id c \<noteq> i) (cm_connections m)))"
    using sum_list_remove_id(2) [OF assms(1) row] by simp
  then show ?thesis
    using sums [of co_tx_bytes] sums [of co_rx_bytes] row
    by (simp add: total_tx_bytes_def total_rx_bytes_def served_total_def add.assoc)
qed

lemma close_keeps_totals_example:
  "served_total (apply_event 9 (EvConnectionClosed 3) (connect_model_default\<lparr>cm_connections :=
     [\<lparr>co_id = 3, co_peer = ''p'', co_spec = 0, co_opened_at = 0, co_tx_bytes = 5, co_rx_bytes = 6\<rparr>]\<rparr>)) =
   served_total (connect_model_default\<lparr>cm_connections :=
     [\<lparr>co_id = 3, co_peer = ''p'', co_spec = 0, co_opened_at = 0, co_tx_bytes = 5, co_rx_bytes = 6\<rparr>]\<rparr>)"
  using close_keeps_totals [of "connect_model_default\<lparr>cm_connections :=
     [\<lparr>co_id = 3, co_peer = ''p'', co_spec = 0, co_opened_at = 0, co_tx_bytes = 5, co_rx_bytes = 6\<rparr>]\<rparr>" 3 9]
  by simp

text \<open>The viewport has between 8 and 29 rows and leaves two rows of the terminal free if it has ten;
  but it is not clamped to a terminal of fewer than eight rows.\<close>

lemma viewport_bounds:
  "8 \<le> viewport_height n rows \<and> viewport_height n rows \<le> 29
   \<and> (10 \<le> rows \<longrightarrow> viewport_height n rows \<le> rows - 2)
   \<and> (rows < 8 \<longrightarrow> rows < viewport_height n rows)"
proof -
  have k: "unat (word_of_nat (min n 10) :: u16) = min n 10"
    by (simp add: unat_of_nat min_def)
  obtain w :: u16 where w: "w = word_of_nat (min n 10)" and le: "unat w \<le> 10" using k by simp
  have want: "unat (saturating_add 19 w) \<le> 29"
    using le by (simp add: saturating_add_def unat_word_ariths(1))
  have sub: "unat (rows - 2) = unat rows - 2" if "10 \<le> unat rows"
    using that unat_sub [of 2 rows] by (simp add: word_le_nat_alt)
  show ?thesis
    unfolding viewport_height_def Let_def w [symmetric]
    using want sub by (auto simp: word_le_nat_alt word_less_nat_alt saturating_sub_def max_def min_def)
qed

lemma viewport_bounds_example: "(5 :: u16) < viewport_height 3 5 \<and> viewport_height 3 24 \<le> 24 - 2"
  using viewport_bounds [of 3 5] viewport_bounds [of 3 24] by simp

end
