(* ===== verification/Client_View.thy ===== *)
theory Client_View
  imports Client_Run Tui
begin

text \<open>
  The running client and its terminal as one system.  The tasks of \<open>connect::run\<close> (theory \<open>Client_Run\<close>)
  and the registry of connections send their events into one channel, in whatever order they come to
  run; the loop of the terminal (theory \<open>Tui\<close>) takes them out one by one, between ticks and keys.
\<close>

section \<open>What the terminal received\<close>

fun event_of :: "tui_input \<Rightarrow> ui_event list" where
  "event_of (TuiEvent ev) = [ev]"
| "event_of _ = []"

definition received :: "(instant \<times> tui_input) list \<Rightarrow> ui_event list" where
  "received is = concat (map (event_of \<circ> snd) (takeWhile (\<lambda>x. \<not> ends_loop (snd x)) is))"

text \<open>The events that open and close rows, and those that set the forwards; all others leave the list of
  rows as it is.\<close>

fun conn_event :: "ui_event \<Rightarrow> bool" where
  "conn_event (EvConnectionOpened _ _ _) = True"
| "conn_event (EvConnectionClosed _) = True"
| "conn_event (EvForwards _) = True"
| "conn_event _ = False"

text \<open>The part of the view that does not depend on when an event was applied.\<close>

definition shape :: "connect_model \<Rightarrow> u64 list \<times> forward_row list" where
  "shape m = (map co_id (cm_connections m), cm_forwards m)"

section \<open>Laws\<close>

lemma map_id_filter: "map co_id (filter (\<lambda>c. co_id c \<noteq> i) cs) = filter (\<lambda>j. j \<noteq> i) (map co_id cs)"
  by (simp add: filter_map o_def)

lemma shape_apply:
  assumes "shape m = shape m'"
  shows "shape (apply_event now ev m) = shape (apply_event now' ev m')"
proof (cases ev)
  case (EvConnectionClosed i)
  with assms show ?thesis by (simp add: shape_def map_id_filter del: apply_event.simps)
qed (use assms in \<open>auto simp: shape_def\<close>)

lemma shape_other: "\<not> conn_event ev \<Longrightarrow> shape (apply_event now ev m) = shape m"
  by (cases ev) (simp_all add: shape_def)

lemma shape_replay:
  "shape m = shape m' \<Longrightarrow> shape (replay now evs m) = shape (replay now' (filter conn_event evs) m')"
proof (induction evs arbitrary: m m')
  case (Cons ev evs)
  show ?case
  proof (cases "conn_event ev")
    case True
    with Cons.IH [OF shape_apply [OF Cons.prems]] show ?thesis by simp
  next
    case False
    with Cons.IH [of "apply_event now ev m" m'] Cons.prems show ?thesis
      by (simp add: shape_other del: apply_event.simps)
  qed
qed simp

lemma shape_tui_apply:
  "shape m = shape m' \<Longrightarrow> shape (fold tui_apply xs m) = shape (replay now (concat (map (event_of \<circ> snd) xs)) m')"
proof (induction xs arbitrary: m m')
  case (Cons x xs)
  obtain t i where x: "x = (t, i)" by (cases x)
  show ?case
  proof (cases i)
    case (TuiEvent ev)
    with x Cons.IH [OF shape_apply [OF Cons.prems, of t ev now]] show ?thesis by simp
  qed (use x Cons.IH [OF Cons.prems] in simp_all)
qed simp

lemma shape_quiet: "quiet m = quiet m' \<Longrightarrow> shape m = shape m'"
proof -
  have "shape m = shape (quiet m)" for m by (simp add: shape_def)
  then show "quiet m = quiet m' \<Longrightarrow> shape m = shape m'" by metis
qed

lemma shape_tui_loop: "shape (tu_model (tui_loop is tui_start)) = shape (replay now (received is) connect_model_default)"
  using shape_quiet [OF tui_loop_model [of "is" tui_start]] shape_tui_apply [OF HOL.refl]
  by (simp add: received_def tui_start_def)

section \<open>Properties\<close>

text \<open>C36: the terminal shows the connections of the running client.  However the events of the watchers are
  mixed with those of the registry, and whatever ticks, pauses and other keys come between: when the
  loop has received the events of a start and all events of the registry, the view has a row for each
  forward, and lists exactly the admitted connections that are still open, each once.\<close>

theorem terminal_mirrors_registry:
  assumes "received is = start_events name server specs @ rest"
    and "filter conn_event rest = cr_events reg"
    and "reg = fold registry_step ops registry_new" and "registry_ops_ok (length specs) ops registry_new"
  shows "let m = tu_model (tui_loop is tui_start) in
     map fr_target (cm_forwards m) = map fw_target specs
     \<and> distinct (map co_id (cm_connections m))
     \<and> (\<forall>i. i \<in> set (map co_id (cm_connections m)) \<longleftrightarrow> (\<exists>h. map_of (cr_conns reg) i = Some h \<and> ch_started h))"
proof -
  let ?begun = "replay 0 (start_events name server specs) connect_model_default"
  let ?m = "tu_model (tui_loop is tui_start)"
  have m0: "cm_connections ?begun = []" "length (cm_forwards ?begun) = length specs"
    "map fr_target (cm_forwards ?begun) = map fw_target specs"
    by (simp_all add: start_events_def connect_model_default_def o_def)
  then have "registry_inv 0 ?begun registry_new"
    by (simp add: registry_inv_def registry_new_def mirrors_def del: fold_simps)
  with registry_inv_run [of 0 ?begun registry_new ops] m0 assms(3,4)
  have inv: "registry_inv 0 ?begun reg" by simp
  have "shape ?m = shape (replay 0 (cr_events reg) ?begun)"
    using shape_tui_loop [of "is" 0] shape_replay [OF HOL.refl, of 0 rest ?begun 0] assms(1,2) by simp
  then have "map co_id (cm_connections ?m) = map co_id (cm_connections (replay 0 (cr_events reg) ?begun))"
    "cm_forwards ?m = cm_forwards (replay 0 (cr_events reg) ?begun)"
    by (simp_all add: shape_def)
  with inv m0(3) show ?thesis by (simp add: registry_inv_def mirrors_def Let_def del: set_map list.set_map)
qed

lemma distinct_singleton_list: "distinct xs \<Longrightarrow> set xs = {a} \<Longrightarrow> xs = [a]"
proof (cases xs)
  case (Cons y ys)
  assume "distinct xs" "set xs = {a}"
  with Cons have "y = a" "set ys \<subseteq> {a}" "a \<notin> set ys" by auto
  then have "ys = []" by (cases ys) auto
  with Cons \<open>y = a\<close> show ?thesis by simp
qed simp

text \<open>One forward, one admitted connection, a status change and a pause in between.\<close>

abbreviation witness_specs :: "fwd_spec list" where
  "witness_specs \<equiv> [\<lparr>fw_local_addr = LOCALHOST, fw_local_port = 1, fw_target = ''h:1''\<rparr>]"

definition witness_inputs :: "(instant \<times> tui_input) list" where
  "witness_inputs =
     map (\<lambda>ev. (0, TuiEvent ev)) (start_events ''s'' ''n'' witness_specs)
     @ [(1, TuiEvent EvStarted), (2, TuiKey CHR ''p'' False), (3, TuiEvent (EvConnectionOpened 0 ''p'' 0)), (4, TuiTick)]"

theorem terminal_mirrors_registry_witness:
  "map co_id (cm_connections (tu_model (tui_loop witness_inputs tui_start))) = [0]"
proof -
  let ?reg = "fold registry_step [RegCreate 0 ''p'', RegAdmit 0] registry_new"
  let ?ids = "map co_id (cm_connections (tu_model (tui_loop witness_inputs tui_start)))"
  have r: "received witness_inputs = start_events ''s'' ''n'' witness_specs @ [EvStarted, EvConnectionOpened 0 ''p'' 0]"
    by (simp add: received_def witness_inputs_def start_events_def ends_loop_def quit_key_def)
  have e: "filter conn_event [EvStarted, EvConnectionOpened 0 ''p'' 0] = cr_events ?reg"
    by (simp add: registry_create_def registry_admit_def registry_new_def Let_def)
  have "registry_ops_ok (length witness_specs) [RegCreate 0 ''p'', RegAdmit 0] registry_new"
    by (simp add: registry_new_def fresh_next_def)
  from terminal_mirrors_registry [OF r e HOL.refl this] have
    "distinct ?ids" "\<And>i. i \<in> set ?ids \<longleftrightarrow> (\<exists>h. map_of (cr_conns ?reg) i = Some h \<and> ch_started h)"
    by (simp_all add: Let_def)
  moreover have "(\<exists>h. map_of (cr_conns ?reg) i = Some h \<and> ch_started h) \<longleftrightarrow> i = 0" for i
    by (simp add: registry_create_def registry_admit_def registry_new_def Let_def)
  ultimately have "distinct ?ids" "set ?ids = {0}" by auto
  then show ?thesis by (rule distinct_singleton_list)
qed

end
