(* ===== verification/Vectors.thy ===== *)
theory Vectors
  imports Frame Pairing Fsio
begin

text \<open>
  The generators of the test vectors, \<open>tmite-core/examples/gen_transcript.rs\<close> and
  \<open>gen_vectors.rs\<close>: the frozen bytes of a pairing handshake, and codes with the keys derived from
  them.  The result is the value that is serialised to the file; \<open>None\<close> is a panic of \<open>unwrap\<close>.
\<close>

section \<open>The transcript\<close>

record frame_spec =
  fp_direction :: string
  fp_msg_type :: string
  fp_payload_json :: string
  fp_frame_hex :: string

record transcript_inputs =
  ti_entropy_hex :: string
  ti_code :: string
  ti_client_version :: string
  ti_confirm_node_id_hex :: string
  ti_confirm_name :: string

record transcript =
  tr_description :: string
  tr_inputs :: transcript_inputs
  tr_frames :: "frame_spec list"
  tr_transcript_hex :: string

definition byte_chars :: "bytes \<Rightarrow> string" where
  "byte_chars bs = map (\<lambda>b. char_of (unat b)) bs"

definition push_frame ::
  "(pairing_frame \<Rightarrow> (json_error, bytes) result) \<Rightarrow> string \<times> pairing_frame \<Rightarrow> frame_spec option" where
  "push_frame to_vec df =
     (case encode_frame to_vec (pairing_msg_type (snd df)) (snd df) of
        Inl _ \<Rightarrow> None
      | Inr bs \<Rightarrow>
          if utf8_valid (map unat (drop 5 bs))
          then Some \<lparr>fp_direction = fst df, fp_msg_type = ''0x'' @ hex_byte (pairing_msg_type (snd df)),
                     fp_payload_json = byte_chars (drop 5 bs), fp_frame_hex = hex bs\<rparr>
          else None)"

definition TRANSCRIPT_NODE_ID :: bytes where
  "TRANSCRIPT_NODE_ID = replicate 32 0x11"

definition transcript_frames :: "(string \<times> pairing_frame) list" where
  "transcript_frames =
     [(''client_to_server'', Version 1),
      (''client_to_server'', PairHello ''0.1.0''),
      (''server_to_client'', PairWait),
      (''server_to_client'', PairConfirm TRANSCRIPT_NODE_ID ''laptop'')]"

definition gen_transcript ::
  "(pairing_frame \<Rightarrow> (json_error, bytes) result) \<Rightarrow> code_lib \<Rightarrow> transcript option" where
  "gen_transcript to_vec lib =
     map_option (\<lambda>frames.
         \<lparr>tr_description = ''Pairing handshake transcript (tmite-pair/1) for the given fixed inputs; both independently built parties must produce these exact bytes.'',
          tr_inputs = \<lparr>ti_entropy_hex = ''0000000000'', ti_code = entropy_to_code lib [0, 0, 0, 0, 0],
                       ti_client_version = ''0.1.0'', ti_confirm_node_id_hex = hex TRANSCRIPT_NODE_ID,
                       ti_confirm_name = ''laptop''\<rparr>,
          tr_frames = frames,
          tr_transcript_hex = concat (map fp_frame_hex frames)\<rparr>)
       (those (map (push_frame to_vec) transcript_frames))"

section \<open>Codes\<close>

record vector_row =
  ve_entropy_hex :: string
  ve_words :: string
  ve_invite_seed_hex :: string
  ve_invite_node_id_hex :: string

definition vector :: "code_lib \<Rightarrow> (bytes \<Rightarrow> string) \<Rightarrow> bytes \<Rightarrow> vector_row" where
  "vector lib public entropy =
     (let seed = derive_invite_seed lib entropy in
      \<lparr>ve_entropy_hex = hex entropy, ve_words = entropy_to_code lib entropy,
       ve_invite_seed_hex = hex seed, ve_invite_node_id_hex = public seed\<rparr>)"

text \<open>Four fixed cases and one for each of the forty random ones.\<close>

definition vector_entropies :: "bytes list \<Rightarrow> bytes list" where
  "vector_entropies random =
     [[0, 0, 0, 0, 0], [0xFF, 0xFF, 0xFF, 0xFF, 0xFF], [0x01, 0x00, 0x00, 0x00, 0x00],
      [0x00, 0x00, 0x00, 0x00, 0x10]] @ take 40 random"

definition gen_vectors :: "code_lib \<Rightarrow> (bytes \<Rightarrow> string) \<Rightarrow> bytes list \<Rightarrow> vector_row list" where
  "gen_vectors lib public random = map (vector lib public) (vector_entropies random)"

section \<open>Laws\<close>

lemma hex_append [simp]: "hex (a @ b) = hex a @ hex b"
  by (simp add: hex_def)

lemma concat_hex: "concat (map hex bss) = hex (concat bss)"
  by (induction bss) simp_all

lemma those_eq_Some: "those xs = Some ys \<longleftrightarrow> xs = map Some ys"
  by (induction xs arbitrary: ys) (auto split: option.splits)

lemma push_frame_Some:
  assumes "push_frame to_vec (d, f) = Some s"
  obtains json b where "to_vec f = Inr json" and "frame_bytes (pairing_msg_type f) json = Inr b"
    and "fp_frame_hex s = hex b"
  using assms by (auto simp: push_frame_def encode_frame_def split: sum.splits if_splits)

lemma push_frame_hex:
  assumes "push_frame to_vec df = Some s"
  shows "\<exists>json b. to_vec (snd df) = Inr json \<and> frame_bytes (pairing_msg_type (snd df)) json = Inr b
    \<and> fp_frame_hex s = hex b"
  using assms push_frame_Some [of to_vec "fst df" "snd df" s] by (metis prod.collapse)

text \<open>Different entropies are different vectors.\<close>

lemma vectors_distinct: "distinct (map ve_entropy_hex (gen_vectors lib public random)) = distinct (vector_entropies random)"
  using hex_text.distinct_print [of "vector_entropies random"]
  by (simp add: gen_vectors_def vector_def Let_def o_def list_all_iff)

section \<open>Properties\<close>

text \<open>C40: the frozen transcript replays: its hexadecimal text is the bytes of four control frames that
  the frame reader takes off a stream one by one with nothing left over, and their payloads are, for a
  JSON library that reads back what it wrote, the version, the greeting, the wait and the
  confirmation, in this order, each with its own message type.\<close>

theorem transcript_replays:
  assumes "gen_transcript to_vec lib = Some t"
    and json: "\<And>f bs. to_vec f = Inr bs \<Longrightarrow> from_slice bs = Inr f"
  shows "\<exists>bs ms. parse_hex_pairs (tr_transcript_hex t) = Inr bs
    \<and> dec_many frame_dec 4 bs = Some (ms, [])
    \<and> map fst ms = [TYPE_VERSION, TYPE_PAIR_HELLO, TYPE_PAIR_WAIT, TYPE_PAIR_CONFIRM]
    \<and> map (from_slice \<circ> snd) ms
        = map Inr [Version 1, PairHello ''0.1.0'', PairWait, PairConfirm TRANSCRIPT_NODE_ID ''laptop'']"
proof -
  let ?fs = "map snd transcript_frames"
  obtain specs where specs: "map (push_frame to_vec) transcript_frames = map Some specs"
    and hex: "tr_transcript_hex t = concat (map fp_frame_hex specs)"
    using assms(1) by (auto simp: gen_transcript_def those_eq_Some)
  have len: "length transcript_frames = length specs" using specs by (metis length_map)
  have "\<forall>i < length specs. \<exists>json b. to_vec (?fs ! i) = Inr json
      \<and> frame_bytes (pairing_msg_type (?fs ! i)) json = Inr b \<and> fp_frame_hex (specs ! i) = hex b"
    using specs len push_frame_hex [of to_vec] by (metis length_map nth_map)
  then obtain js bs where
    each: "\<And>i. i < length specs \<Longrightarrow> to_vec (?fs ! i) = Inr (js i)
      \<and> frame_bytes (pairing_msg_type (?fs ! i)) (js i) = Inr (bs i) \<and> fp_frame_hex (specs ! i) = hex (bs i)"
    by metis
  have n: "length specs = 4" using len by (simp add: transcript_frames_def)
  define ms where "ms = map (\<lambda>i. (pairing_msg_type (?fs ! i), js i)) [0..<4]"
  define bss where "bss = map bs [0..<4]"
  have "list_all2 (\<lambda>m b. frame_bytes (fst m) (snd m) = Inr b) ms bss"
    using each n by (auto simp: ms_def bss_def list_all2_conv_all_nth)
  from frames_read_in_order [OF this, of "[]"] have dec: "dec_many frame_dec 4 (concat bss) = Some (ms, [])"
    by (simp add: ms_def)
  have "map fp_frame_hex specs = map hex bss"
    using each n by (auto simp: bss_def intro!: nth_equalityI)
  then have "parse_hex_pairs (tr_transcript_hex t) = Inr (concat bss)"
    by (simp add: hex concat_hex)
  moreover have "from_slice (js i) = Inr (?fs ! i)" if "i < 4" for i
    using each [of i] that n by (intro json) simp
  then have "map (from_slice \<circ> snd) ms = map Inr ?fs"
    by (auto simp: ms_def transcript_frames_def upt_rec)
  moreover have "map fst ms = map pairing_msg_type ?fs"
    by (simp add: ms_def transcript_frames_def upt_rec)
  ultimately show ?thesis
    using dec by (intro exI [of _ "concat bss"] exI [of _ ms]) (simp add: transcript_frames_def)
qed

text \<open>The JSON texts of \<open>vectors/transcript.json\<close>, as a library that writes these four frames.\<close>

definition QUOTE :: string where
  "QUOTE = [CHR 0x22]"

fun file_json :: "pairing_frame \<Rightarrow> (json_error, bytes) result" where
  "file_json (Version v) = (if v = 1
     then Inr (str_bytes (''{'' @ QUOTE @ ''type'' @ QUOTE @ '':'' @ QUOTE @ ''version'' @ QUOTE @ '','' @ QUOTE @ ''version'' @ QUOTE @ '':1}''))
     else Inl ''other'')"
| "file_json (PairHello v) = (if v = ''0.1.0''
     then Inr (str_bytes (''{'' @ QUOTE @ ''type'' @ QUOTE @ '':'' @ QUOTE @ ''pair_hello'' @ QUOTE @ '','' @ QUOTE @ ''client_version'' @ QUOTE @ '':'' @ QUOTE @ ''0.1.0'' @ QUOTE @ ''}''))
     else Inl ''other'')"
| "file_json PairWait = Inr (str_bytes (''{'' @ QUOTE @ ''type'' @ QUOTE @ '':'' @ QUOTE @ ''pair_wait'' @ QUOTE @ ''}''))"
| "file_json (PairConfirm n name) = (if n = TRANSCRIPT_NODE_ID \<and> name = ''laptop''
     then Inr (str_bytes (''{'' @ QUOTE @ ''type'' @ QUOTE @ '':'' @ QUOTE @ ''pair_confirm'' @ QUOTE @ '','' @ QUOTE @ ''node_id'' @ QUOTE @ '':[17,17,17,17,17,17,17,17,17,17,17,17,17,17,17,17,17,17,17,17,17,17,17,17,17,17,17,17,17,17,17,17],'' @ QUOTE @ ''name'' @ QUOTE @ '':'' @ QUOTE @ ''laptop'' @ QUOTE @ ''}''))
     else Inl ''other'')"
| "file_json (PairDeny r) = Inl ''other''"

definition file_from_slice :: "bytes \<Rightarrow> (json_error, pairing_frame) result" where
  "file_from_slice bs =
     (if length bs = 30 then Inr (Version 1)
      else if length bs = 46 then Inr (PairHello ''0.1.0'')
      else if length bs = 20 then Inr PairWait
      else if length bs = 147 then Inr (PairConfirm TRANSCRIPT_NODE_ID ''laptop'')
      else Inl ''unknown'')"

text \<open>The bytes of the model are the bytes of the file, frame by frame.\<close>

lemma hex_digit_table:
  "hex_digit (Suc 0) = CHR ''1''"
  "hex_digit 0 = CHR ''0''"
  "hex_digit 2 = CHR ''2''"
  "hex_digit 3 = CHR ''3''"
  "hex_digit 4 = CHR ''4''"
  "hex_digit 5 = CHR ''5''"
  "hex_digit 6 = CHR ''6''"
  "hex_digit 7 = CHR ''7''"
  "hex_digit 8 = CHR ''8''"
  "hex_digit 9 = CHR ''9''"
  "hex_digit 10 = CHR ''a''"
  "hex_digit 11 = CHR ''b''"
  "hex_digit 12 = CHR ''c''"
  "hex_digit 13 = CHR ''d''"
  "hex_digit 14 = CHR ''e''"
  "hex_digit 15 = CHR ''f''"
  by code_simp+

lemmas file_frame_defs =
  push_frame_def encode_frame_def frame_bytes_def MAX_CONTROL_FRAME_def u32_to_be_bytes_def type_defs
  str_bytes_def hex_byte_def hex_digit_table QUOTE_def

lemma version_frame_of_file:
  "\<exists>s. push_frame file_json (d, Version 1) = Some s \<and> fp_frame_hex s =
     ''010000001e7b2274797065223a2276657273696f6e222c2276657273696f6e223a317d''"
  by (simp add: file_frame_defs)

lemma hello_frame_of_file:
  "\<exists>s. push_frame file_json (d, PairHello ''0.1.0'') = Some s \<and> fp_frame_hex s =
     ''020000002e7b2274797065223a22706169725f68656c6c6f222c22636c69656e745f76657273696f6e223a22302e312e30227d''"
  by (simp add: file_frame_defs)

lemma wait_frame_of_file:
  "\<exists>s. push_frame file_json (d, PairWait) = Some s \<and> fp_frame_hex s =
     ''03000000147b2274797065223a22706169725f77616974227d''"
  by (simp add: file_frame_defs)

lemma confirm_frame_of_file:
  "\<exists>s. push_frame file_json (d, PairConfirm TRANSCRIPT_NODE_ID ''laptop'') = Some s \<and> fp_frame_hex s =
     ''04000000937b2274797065223a22706169725f636f6e6669726d222c226e6f64655f6964223a5b31372c31372c31372c31372c31372c31372c31372c31372c31372c31372c31372c31372c31372c31372c31372c31372c31372c31372c31372c31372c31372c31372c31372c31372c31372c31372c31372c31372c31372c31372c31372c31375d2c226e616d65223a226c6170746f70227d''"
  by (simp add: file_frame_defs)

lemma transcript_of_file:
  "\<exists>t. gen_transcript file_json lib = Some t \<and> tr_transcript_hex t =
     ''010000001e7b2274797065223a2276657273696f6e222c2276657273696f6e223a317d''
     @ ''020000002e7b2274797065223a22706169725f68656c6c6f222c22636c69656e745f76657273696f6e223a22302e312e30227d''
     @ ''03000000147b2274797065223a22706169725f77616974227d''
     @ ''04000000937b2274797065223a22706169725f636f6e6669726d222c226e6f64655f6964223a5b31372c31372c31372c31372c31372c31372c31372c31372c31372c31372c31372c31372c31372c31372c31372c31372c31372c31372c31372c31372c31372c31372c31372c31372c31372c31372c31372c31372c31372c31372c31372c31375d2c226e616d65223a226c6170746f70227d''"
  using version_frame_of_file [of "''client_to_server''"] hello_frame_of_file [of "''client_to_server''"]
    wait_frame_of_file [of "''server_to_client''"] confirm_frame_of_file [of "''server_to_client''"]
  by (fastforce simp: gen_transcript_def transcript_frames_def simp del: file_json.simps)

lemma file_json_reads_back: "file_json f = Inr bs \<Longrightarrow> file_from_slice bs = Inr f"
  by (cases f) (auto simp: file_from_slice_def str_bytes_def QUOTE_def split: if_splits)

theorem transcript_replays_witness:
  "\<exists>bs ms. parse_hex_pairs (tr_transcript_hex (the (gen_transcript file_json witness_lib))) = Inr bs
    \<and> dec_many frame_dec 4 bs = Some (ms, [])
    \<and> map (file_from_slice \<circ> snd) ms
        = map Inr [Version 1, PairHello ''0.1.0'', PairWait, PairConfirm TRANSCRIPT_NODE_ID ''laptop'']"
proof -
  obtain t where t: "gen_transcript file_json witness_lib = Some t"
    using transcript_of_file [of witness_lib] by blast
  from transcript_replays [OF this, of file_from_slice] file_json_reads_back show ?thesis
    unfolding t option.sel by blast
qed

text \<open>The code of every vector, typed as printed, gives back the vector's entropy and seed, for a
  mnemonic codec as in the round trip of codes.\<close>

lemma vector_code_reads_back:
  assumes "length e = 5"
    and "normalize_words (mn_to_string lib (e @ [checksum_byte lib e])) = Inr ws"
    and "length ws = 5" and "set ws \<subseteq> set (mn_words lib)" and "the (word_index lib (ws ! 4)) < 41"
    and "mn_decode lib (str_join ''-'' ws) = Some (e @ [checksum_byte lib e])"
  shows "\<exists>e'. code_to_entropy lib (ve_words (vector lib public e)) = Inr e'
    \<and> hex e' = ve_entropy_hex (vector lib public e)
    \<and> hex (derive_invite_seed lib e') = ve_invite_seed_hex (vector lib public e)"
proof -
  have "normalize_words (entropy_to_code lib e) = Inr ws"
    using assms(2) normalize_clean [OF assms(2)] normalize_join [of ws "CHR '' ''"] by (simp add: entropy_to_code_def)
  with assms have "code_to_entropy lib (entropy_to_code lib e) = Inr e"
    by (auto simp: code_to_entropy_ok_iff)
  then show ?thesis by (simp add: vector_def Let_def)
qed

end
