(* ===== verification/Spec2Isabelle.thy ===== *)
theory Spec2Isabelle
  imports Admin_Path Client_View Vectors
begin

text \<open>
  \<^bold>\<open>tmite\<close> forwards TCP ports of a server to paired clients over QUIC (iroh).  This development models
  the program's own code, in \<open>tmite-proto\<close> (formats), \<open>tmite-core\<close> (daemon and client) and \<open>tmite\<close>
  (command line and terminal), and proves what makes it safe and correct to run.

  \<^bold>\<open>The program.\<close>  A daemon keeps a list of peers and of rules (peer, target).  An admin creates an
  invite over a local socket; its code, five words, leads a client to a key derived from it.  The client
  connects, the admin is asked and accepts, the daemon registers the client's node, the client stores the
  daemon's.  From then on the client opens streams and asks for targets; the daemon dials those with a
  rule and relays bytes.  Both ends show what happens: the daemon to its admin, the client in a terminal.

  \<^bold>\<open>Theories\<close>, in the order of their imports, with the sources under \<open>src/\<close>.
  \<^item> \<open>Prelude\<close>, \<open>Rust_Str\<close>: results and their combinators, association lists as hash maps, list updates,
    the interfaces \<open>framing\<close>, \<open>text_codec\<close> and \<open>transition_system\<close> as locales; Rust strings as UTF-8 bytes:
    trimming, splitting, parsing and printing of numbers.
  \<^item> \<open>Proto_Limits\<close>, \<open>Frame\<close>, \<open>Pairing\<close>, \<open>Ipc_Proto\<close>: \<open>tmite-proto/src\<close>, and \<open>stream_io.rs\<close> of \<open>tmite-core\<close>.
    Frames are built, parsed and read off a byte stream that may end or stall; the codec is an
    instance of \<open>framing\<close>.
  \<^item> \<open>Daemon_State\<close> (\<open>daemon/state.rs\<close>): peers and rules with their file; every operation takes the
    outcome of the file system.  It is an instance of the locale \<open>acl_store\<close>, whose abstract state is the history
    of grants, revocations and removals.
  \<^item> \<open>Net\<close> (\<open>net.rs\<close>), \<open>Fsio\<close> (\<open>fsio.rs\<close>), \<open>Sessions\<close>, \<open>Notify\<close> (\<open>daemon/\<close>): endpoints, the key file and
    the store of servers, live sessions behind shared addresses, push notifications with a cooldown.
  \<^item> \<open>Pump\<close>, \<open>Main_Ep\<close> (\<open>daemon/main_ep.rs\<close>): the relay and its two pumps; authentication of connections and the
    handler of one stream, as the list of its effects.
  \<^item> \<open>Invite\<close>, \<open>Invite_Manager\<close> (\<open>daemon/invite.rs\<close>): one invite as a step relation over its serve loop, its
    connection tasks, the admin's decisions and the clock, in any interleaving, with a log of what was
    observed; the table of invites, and their creation as tasks that may overlap.
  \<^item> \<open>Daemon_Ipc\<close>, \<open>Daemon\<close> (\<open>daemon/ipc.rs\<close>, \<open>daemon/mod.rs\<close>): the admin interface, the assembled daemon, its
    socket file, and the events that change its authorisation state, again an instance of \<open>acl_store\<close>.
  \<^item> \<open>Client_Model\<close>, \<open>Client_Session\<close>, \<open>Client_Connect\<close>, \<open>Client_Run\<close>, \<open>Client_Pair\<close> (\<open>client/\<close>): the view
    model and the registry of connections, the pinned session as a step relation over concurrent calls and
    its lock, start-up and local connections, the tasks of a running client and how it is ended, and
    pairing with its deadlines.
  \<^item> \<open>Ipc_Client\<close>, \<open>Status_Table\<close>, \<open>Cli\<close> (\<open>tmite/src/main.rs\<close>): the admin's socket client and invite
    dialogue, the table of sessions, all commands and the exit status.
  \<^item> \<open>Tui\<close> (\<open>tmite/src/tui.rs\<close>): the loop of the terminal, its panes, formats and summary.
  \<^item> \<open>Client_View\<close>: the running client and its terminal as one system.
  \<^item> \<open>Vectors\<close> (\<open>tmite-core/examples\<close>): the generators of the frozen test vectors; the model reproduces
    the bytes of \<open>vectors/transcript.json\<close>.
  \<^item> \<open>Admin_Path\<close> and this theory: properties across components.

  \<^bold>\<open>How the code is modelled.\<close>  Structs are records, enums datatypes, fallible functions return
  \<open>(error, value) result\<close>, a sum; a panic is \<open>None\<close> where the code can panic.  Machine integers are words where they
  wrap or are encoded.  Strings are byte lists.  State is passed explicitly; what a call to a library, the network,
  the clock or the file system answers is an argument (the records whose names end in \<open>_io\<close>, \<open>_lib\<close>,
  \<open>_env\<close>), so every error path is a branch.  Concurrent tasks are step relations or lists of what wakes
  them, in the order it happens.  A deadline is a comparison of arrival times.

  \<^bold>\<open>What is shown.\<close>  Authorisation: the daemon dials a target only for a peer that was granted it by an
  admin's request and has it still; it serves only nodes that were paired; a node is registered only
  after the admin was asked and accepted, on the command line only by the answer to the question about
  the node of that very request or \<open>--yes\<close>; allow and revoke take effect when the command says so.  State: well-formedness under every
  sequence of operations and file-system failures, and the restart.  Formats: exact round trips of
  frames, codes, specifications, keys and transcripts.  Relay: bytes arrive unchanged and in order, each
  direction closes on its own.  Client: it starts only with every forward allowed, stays with the pinned
  server however its tasks overlap, shows what the registry holds.  Command line: the questions end, the exit
  status of every run is that of one table.
  Findings of the modelling have their theorem or lemma (\<open>stale_accept_registers_other\<close>,
  \<open>removed_peer_inherits_rules\<close>, \<open>admin_wait_capped\<close>, \<open>stale_reconnecting\<close>, \<open>invite_cap_race\<close>, \<open>quit_during_start_lost\<close>, \<open>bad_spec_saved\<close>,
  \<open>unknown_node_id_panics\<close>, \<open>shutdown_unlinks_successor\<close> and others).

  \<^bold>\<open>Bounds and fuel.\<close>  No definition has fuel: loops recurse over the list of what they read, or end by a
  measure (the codes of \<open>tmite pair\<close>, the units of a byte count).  The bounds are the constants of
  \<open>limits.rs\<close>; the cap on pending invites is stated with the number of creations that overlap, since the
  code checks it under one lock and inserts under another, and \<open>create_invite\<close>, which the admin interface
  calls, is a creation nothing comes between (\<open>create_alone\<close>).  The acceptance of a connection is
  one step: the wait for the lock of the reject delay between the look-up of the peer and its
  registration is not visible, nor is a removal that falls into it.  Counters of 64 bits wrap; the properties that need fresh ids say so.

  \<^bold>\<open>Not modelled.\<close>  iroh's transport, tokio's scheduler, \<open>serde_json\<close>, TOML, SHA-256, HKDF, the mnemonic
  codec, clap, dialoguer and ratatui are not in the repository: their answers are arguments.  File modes
  and ownership, log entries other than those the user interfaces route, the geometry of tables on the
  screen, raw mode and failures to draw are left out, as are the integration tests.  Names in strings
  compare bytewise; the format \<open>{:?}\<close> of a string is kept as an effect that carries the string.

  \<^bold>\<open>Plan.\<close>  Next: the sleep of the notification loop against the clock; the lock of the reject delay as a
  step of its own; the machines of several invites side by side with the manager; the invite command against the daemon's invite over the socket.
\<close>

section \<open>From one component to the next\<close>

text \<open>What a client reads from a stream: the first frame the daemon's handler wrote.\<close>

fun stream_reply :: "stream_effect list \<Rightarrow> (string, u8 \<times> data_frame) result" where
  "stream_reply [] = Inl ''stream closed''"
| "stream_reply (SendFrame t f # _) = Inr (t, f)"
| "stream_reply (_ # effs) = stream_reply effs"

lemma stream_reply_validate_ok:
  "stream_reply (handle_stream (Inr (TYPE_VALIDATE, Validate t)) p st dial ok_sent) = Inr (ty, DataOk) \<Longrightarrow>
     valid_target t \<and> rule_allows st p t"
  by (auto simp: handle_stream_def Let_def deny_def split: if_splits)

section \<open>Properties\<close>

text \<open>C1: the daemon never connects to a target nobody granted: if the handler of a stream dials
  a target for a peer that had no rule for it before a sequence of admin requests, pairings and
  connections, then that sequence has a \<open>peer.allow\<close> request for exactly that peer and target,
  and nothing after it revoked the rule or removed the peer.\<close>

theorem dial_needs_allow_request:
  assumes "Dial t \<in> set (handle_stream f p (dh_state (fold sys_step es h)) dial ok_sent)"
    and "\<not> rule_allows (dh_state h) p t"
  shows "\<exists>pre env req a post. es = pre @ SysRequest env req # post
     \<and> method_parse (rq_method req) = Some PeerAllow
     \<and> en_allow_params env (rq_params req) = Inr a \<and> ap_peer a = p \<and> ap_target a = t \<and> valid_target t
     \<and> (\<forall>e \<in> set (acl_history sys_step sys_acl_event post (fold sys_step (pre @ [SysRequest env req]) h)).
          e \<noteq> Withdrawn p t \<and> e \<noteq> PeerGone p)"
proof -
  have "rule_allows (dh_state (fold sys_step es h)) p t"
    using assms(1) by (simp add: handle_stream_dial_iff)
  from system.allows_needs_grant [OF this assms(2)] obtain pre e post where es: "es = pre @ e # post"
    and g: "sys_acl_event e (fold sys_step pre h) = Granted p t"
    and none: "\<forall>ev \<in> set (acl_history sys_step sys_acl_event post (sys_step e (fold sys_step pre h))).
       ev \<noteq> Withdrawn p t \<and> ev \<noteq> PeerGone p" by blast
  from g obtain env req a where "e = SysRequest env req" "method_parse (rq_method req) = Some PeerAllow"
    "en_allow_params env (rq_params req) = Inr a" "ap_peer a = p" "ap_target a = t" "valid_target t"
    by (rule sys_granted)
  with es none show ?thesis
    by (intro exI [of _ pre] exI [of _ env] exI [of _ req] exI [of _ a] exI [of _ post]) simp
qed

definition witness_allow :: "unit request" where
  "witness_allow = \<lparr>rq_id = 7, rq_method = ''peer.allow'', rq_params = ()\<rparr>"

definition witness_peer_handle :: daemon_handle where
  "witness_peer_handle = witness_handle\<lparr>dh_state := witness_st\<lparr>st_inner := witness_state\<rparr>\<rparr>"

lemma witness_allowed: "rule_allows (dh_state (sys_step (SysRequest witness_env witness_allow) witness_peer_handle)) ''a'' ''h:1''"
proof -
  have "method_parse (rq_method witness_allow) = Some PeerAllow"
    by (simp add: method_parse_def witness_allow_def)
  moreover have "en_allow_params witness_env (rq_params witness_allow) = Inr \<lparr>ap_peer = ''a'', ap_target = ''h:1''\<rparr>"
    by (simp add: witness_env_def)
  ultimately have "request_op witness_env witness_allow = Some (OpAddRule ''a'' ''h:1'')"
    by (simp add: request_op_def valid_target_h1)
  then show ?thesis
    by (simp add: dispatch_state rule_allows_iff acl_add_rule witness_peer_handle_def witness_state_def MAX_RULES_def)
qed

theorem dial_needs_allow_request_witness:
  "\<exists>pre env req a post. [SysRequest witness_env witness_allow] = pre @ SysRequest env req # post
     \<and> method_parse (rq_method req) = Some PeerAllow
     \<and> en_allow_params env (rq_params req) = Inr a \<and> ap_peer a = ''a'' \<and> ap_target a = ''h:1''"
proof -
  have dial: "Dial ''h:1'' \<in> set (handle_stream (Inr (TYPE_FORWARD, Forward ''h:1'')) ''a''
      (dh_state (fold sys_step [SysRequest witness_env witness_allow] witness_peer_handle)) ConnectHangs True)"
    using witness_allowed by (simp add: handle_stream_dial_iff valid_target_h1)
  have "\<not> rule_allows (dh_state witness_peer_handle) ''a'' ''h:1''"
    by (simp add: witness_peer_handle_def rule_allows_def witness_state_def)
  from dial_needs_allow_request [OF dial this] show ?thesis by fast
qed

text \<open>C2: the daemon serves only nodes that were paired: if a connection of a node that was unknown
  before a sequence of events is accepted after it, then the sequence has the pairing of a peer
  with that node id, up to letter case, and the connection is served under that peer's name.\<close>

theorem serving_needs_pairing:
  assumes "accept_begin io now node conn a dp = (AcceptServing b name, dp')"
    and "dp_state dp = dh_state (fold sys_step es h)" and "peer_by_node (dh_state h) node = None"
  shows "\<exists>io' p. SysPaired io' p \<in> set es \<and> eq_ignore_ascii_case (p_node_id p) node \<and> p_name p = name"
proof -
  from assms(1,2) obtain q where q: "peer_by_node (dh_state (fold sys_step es h)) node = Some q" "name = p_name q"
    by (auto simp: accept_begin_def split: option.splits)
  then have mem: "q \<in> set (peers_of (dh_state (fold sys_step es h)))" and eq: "eq_ignore_ascii_case (p_node_id q) node"
    unfolding peer_by_node_def by (auto simp: find_Some_iff)
  have "(p_name q, p_node_id q) \<notin> peer_ids (dh_state h)"
    using assms(3) eq unfolding peer_by_node_def by (auto simp: find_None_iff)
  with sys_peer_paired [of "p_name q" "p_node_id q" es h] mem eq q(2) show ?thesis by fastforce
qed

theorem serving_needs_pairing_witness:
  "\<exists>io' p. SysPaired io' p \<in> set [SysPaired witness_io \<lparr>p_name = ''a'', p_node_id = ''ff'', p_paired_at = [], p_last_seen = []\<rparr> :: unit sys_event]
     \<and> eq_ignore_ascii_case (p_node_id p) ''ff'' \<and> p_name p = ''a''"
proof -
  let ?es = "[SysPaired witness_io \<lparr>p_name = ''a'', p_node_id = ''ff'', p_paired_at = [], p_last_seen = []\<rparr> :: unit sys_event]"
  let ?st = "dh_state (fold sys_step ?es witness_handle)"
  let ?dp = "data_plane_new ?st sessions_new 0 notifier_disabled"
  have found: "peer_by_node ?st ''ff'' = Some \<lparr>p_name = ''a'', p_node_id = ''ff'', p_paired_at = [], p_last_seen = []\<rparr>"
    by (simp add: peer_by_node_def inner_add_peer witness_handle_def witness_st_def persisted_default_def MAX_PEERS_def)
  then obtain dp' where "accept_begin witness_io 0 ''ff'' 1 5 ?dp = (AcceptServing 5 ''a'', dp')"
    by (simp add: accept_begin_def data_plane_new_def)
  moreover have "dp_state ?dp = ?st" by (simp add: data_plane_new_def)
  moreover have "peer_by_node (dh_state witness_handle) ''ff'' = None"
    by (simp add: peer_by_node_def witness_handle_def witness_st_def persisted_default_def)
  ultimately show ?thesis by (rule serving_needs_pairing)
qed

text \<open>C15: a client that started may use its forwards: if the answers to its VALIDATE frames are those of
  the daemon for the peer it is, then every forward it listens for has a well-formed target and a
  rule of that peer, and a FORWARD for it is dialled as long as the rules stay.\<close>

theorem started_client_is_authorized:
  assumes "connect_start io name specs opts = Some (Inr s)"
    and "\<And>spec. va_reply (ci_validate io spec) =
       stream_reply (handle_stream (Inr (TYPE_VALIDATE, Validate (fw_target spec))) p st dial ok_sent)"
    and "spec \<in> set specs"
  shows "valid_target (fw_target spec) \<and> rule_allows st p (fw_target spec)
    \<and> Dial (fw_target spec) \<in> set (handle_stream (Inr (TYPE_FORWARD, Forward (fw_target spec))) p st dial' ok_sent')"
proof -
  from assms(1) obtain u where "validate_all (ci_validate io) specs = Inr u" by (rule connect_start_ok) simp
  with assms(3) have "\<exists>ty. va_reply (ci_validate io spec) = Inr (ty, DataOk)"
    by (auto simp: validate_all_ok validate_forward_ok)
  with assms(2) [of spec] stream_reply_validate_ok have "valid_target (fw_target spec) \<and> rule_allows st p (fw_target spec)"
    by metis
  then show ?thesis by (simp add: handle_stream_dial_iff)
qed


abbreviation witness_granted :: daemon_state where
  "witness_granted \<equiv> dh_state (sys_step (SysRequest witness_env witness_allow) witness_peer_handle)"

abbreviation witness_client_io :: "(unit, unit) connect_io" where
  "witness_client_io \<equiv> witness_connect_io\<lparr>ci_validate := (\<lambda>spec. \<lparr>va_open = None, va_write = None,
     va_reply = stream_reply (handle_stream (Inr (TYPE_VALIDATE, Validate (fw_target spec))) ''a'' witness_granted ConnectHangs True)\<rparr>)\<rparr>"

theorem started_client_is_authorized_witness:
  "Dial ''h:1'' \<in> set (handle_stream (Inr (TYPE_FORWARD, Forward ''h:1'')) ''a'' witness_granted ConnectHangs True)"
proof -
  let ?spec = "\<lparr>fw_local_addr = LOCALHOST, fw_local_port = 1, fw_target = ''h:1''\<rparr>"
  have "stream_reply (handle_stream (Inr (TYPE_VALIDATE, Validate ''h:1'')) ''a'' witness_granted ConnectHangs True) =
      Inr (data_msg_type DataOk, DataOk)"
    using witness_allowed by (simp add: handle_stream_def Let_def valid_target_h1 reply_ok_def del: sys_step.simps)
  then obtain s where s: "connect_start witness_client_io ''s'' [?spec]
      \<lparr>no_relay_urls = [], no_pkarr_url = None, no_bind_port = None\<rparr> = Some (Inr s)"
    by (simp add: connect_start_def witness_connect_io_def store_get_def build_endpoint_def Let_def
        bind_port_def bind_online_def EP_ONLINE_TIMEOUT_def secs_def session_get_def session_new_def session_dial_def count_redial_def
        send_hello_def witness_conn_def validate_forward_def del: sys_step.simps)
  from started_client_is_authorized [OF s, of "''a''" witness_granted ConnectHangs True ?spec ConnectHangs True]
  show ?thesis by simp
qed

text \<open>C7: pairing agrees on both sides: if the verdict a client got was sent to it by an invite of the
  daemon, whatever the interleaving of the invite's tasks, and the client's pairing succeeded, then
  the admin had been asked about this node and had accepted, the daemon has registered it, and the
  client has stored the daemon's node id under the invite's name or the alias the user chose.\<close>

theorem pairing_agrees:
  assumes "reaches (invite_step cfg) (invite_start st now code) m"
    and "\<And>d t f. pi_verdict io = After d (Inr (t, f)) \<Longrightarrow> ObsSent n f \<in> set (sh_log (im_shared m))"
    and "pair_run io params file = (Inr stored, file')"
  shows "ObsPairRequest n \<in> set (sh_log (im_shared m)) \<and> ObsDecided True \<in> set (sh_log (im_shared m))
     \<and> ObsRegistered n \<in> set (sh_log (im_shared m))
     \<and> stored = (case pp_name params of Some alias \<Rightarrow> alias | None \<Rightarrow> ic_name cfg)
     \<and> (\<exists>server store store' contents. pi_node io (ic_server_node_id cfg) = Some server
          \<and> upsert (paired_entry io store stored server) store = (Inr (), store')
          \<and> pi_toml_ser io store' = Inr contents \<and> file' = Some contents)"
proof -
  let ?log = "sh_log (im_shared m)"
  from assms(3) obtain node name where v: "pair_talk io = Inr (node, name)"
    and sv: "pair_save io params (node, name) file = (Inr stored, file')"
    by (auto simp: pair_run_def rbind_eq_Inr split: sum.splits)
  from talk_ok [OF v] obtain d where "pi_verdict io = After d (Inr (TYPE_PAIR_CONFIRM, PairConfirm node name))"
    by (auto simp: verdict_confirm)
  with assms(2) have sent: "ObsSent n (PairConfirm node name) \<in> set ?log" by blast
  have ok: "log_ok cfg ?log" using assms(1) by (rule reachable_log_ok)
  from log_ok_confirm [OF ok sent] have c: "node = ic_server_node_id cfg" "name = ic_name cfg" "ObsRegistered n \<in> set ?log"
    by simp_all
  from log_ok_registered [OF ok c(3)] c sv show ?thesis
    by (elim pair_save_ok) auto
qed

lemma witness_pair_ok:
  "pair_run (witness_pair_io (After 2 (Inr (TYPE_PAIR_WAIT, PairWait))) (After 9 (Inr (TYPE_PAIR_CONFIRM, PairConfirm [] ''alice''))))
     witness_pair_params None = (Inr ''alice'', Some ''toml'')"
proof -
  let ?io = "witness_pair_io (After 2 (Inr (TYPE_PAIR_WAIT, PairWait))) (After 9 (Inr (TYPE_PAIR_CONFIRM, PairConfirm [] ''alice'')))"
  have "pair_verdict ?io = Inr ([], ''alice'')" by (simp add: verdict_confirm)
  moreover have "pair_save ?io witness_pair_params ([], ''alice'') None = (Inr ''alice'', Some ''toml'')"
    by (simp add: pair_save_def witness_pair_io_def witness_pair_params_def store_load_def file_read_def upsert_def
        store_save_def paired_entry_def get_by_node_id_def Let_def)
  ultimately show ?thesis by (simp add: witness_wait)
qed

theorem pairing_agrees_witness:
  "\<exists>m. reaches (invite_step witness_cfg) (invite_start witness_st 0 witness_code) m
     \<and> ObsRegistered ''bb'' \<in> set (sh_log (im_shared m)) \<and> ObsDecided True \<in> set (sh_log (im_shared m))"
proof -
  obtain m where m: "reaches (invite_step witness_cfg) (invite_start witness_st 0 witness_code) m"
    and sent: "ObsSent ''bb'' (PairConfirm [] ''alice'') \<in> set (sh_log (im_shared m))"
    using pairing_reaches [of 0 witness_cfg witness_st witness_io "''bb''" _ witness_code, OF _ witness_free witness_add]
    by (fastforce simp: witness_cfg_def)
  from pairing_agrees [OF m _ witness_pair_ok, of "''bb''"] sent m show ?thesis by auto
qed


definition witness_rm_env :: "unit ipc_env" where
  "witness_rm_env = witness_env\<lparr>en_rm_params := (\<lambda>_. Inr \<lparr>rm_peer = ''a'', rm_force = True\<rparr>)\<rparr>"

definition witness_rm :: "unit request" where
  "witness_rm = \<lparr>rq_id = 6, rq_method = ''peer.rm'', rq_params = ()\<rparr>"


end
